(* ===== verification/Aitp_Prelude.thy ===== *)
theory Aitp_Prelude
  imports Main "HOL-Library.Word" "HOL-Library.AList"
begin

text \<open>
  The shared layer of the development: Rust's machine integers as words, the
  saturating and checked arithmetic the sources use on them, the \<open>Result\<close>
  type as a sum, byte strings, and the generic lemmas on lists and association
  lists that the component theories share.

  Signed 64-bit values are words read through \<open>sint\<close>, unsigned ones are words
  read through \<open>unat\<close>. Every operation that the sources call by name
  (\<open>saturating_add\<close>, \<open>checked_sub\<close>, \<open>unsigned_abs\<close>, \<open>try_from\<close>) has its own
  definition here, with one lemma that gives its value on \<open>sint\<close> or \<open>unat\<close>;
  these lemmas are collected in \<open>i64_values\<close>.
\<close>

named_theorems i64_values \<open>the values of the 64-bit operations, as integers\<close>
named_theorems err_splits \<open>case splits for Result-valued code\<close>

type_synonym i64 = "64 word"
type_synonym u64 = "64 word"
type_synonym usize = "64 word"
type_synonym u32 = "32 word"
type_synonym u8 = "8 word"
type_synonym bytes = "8 word list"

type_synonym ('e, 'a) result = "'e + 'a"

abbreviation Ok :: "'a \<Rightarrow> ('e, 'a) result" where "Ok \<equiv> Inr"
abbreviation Err :: "'e \<Rightarrow> ('e, 'a) result" where "Err \<equiv> Inl"

text \<open>Rust's \<open>?\<close> operator and \<open>map_err\<close>.\<close>

definition and_then :: "('e, 'a) result \<Rightarrow> ('a \<Rightarrow> ('e, 'b) result) \<Rightarrow> ('e, 'b) result" where
  "and_then r f = (case r of Inl e \<Rightarrow> Inl e | Inr x \<Rightarrow> f x)"

definition map_err :: "('e \<Rightarrow> 'f) \<Rightarrow> ('e, 'a) result \<Rightarrow> ('f, 'a) result" where
  "map_err g r = (case r of Inl e \<Rightarrow> Inl (g e) | Inr x \<Rightarrow> Inr x)"

definition ok_or :: "'e \<Rightarrow> 'a option \<Rightarrow> ('e, 'a) result" where
  "ok_or e o' = (case o' of None \<Rightarrow> Inl e | Some x \<Rightarrow> Inr x)"

definition ensure :: "'e \<Rightarrow> bool \<Rightarrow> ('e, unit) result" where
  "ensure e b = (if b then Inr () else Inl e)"

definition is_ok :: "('e, 'a) result \<Rightarrow> bool" where
  "is_ok r = (case r of Inl _ \<Rightarrow> False | Inr _ \<Rightarrow> True)"

text \<open>The steps of Rust's \<open>for\<close> loop over a slice whose body may return early.\<close>

fun try_for_each :: "('a \<Rightarrow> ('e, unit) result) \<Rightarrow> 'a list \<Rightarrow> ('e, unit) result" where
  "try_for_each f [] = Inr ()"
| "try_for_each f (x # xs) = and_then (f x) (\<lambda>_. try_for_each f xs)"

lemma and_then_simps [simp]:
  "and_then (Inl e) f = Inl e" "and_then (Inr x) f = f x"
  by (simp_all add: and_then_def)

lemma and_then_eq_Inr [simp]:
  "and_then r f = Inr y \<longleftrightarrow> (\<exists>x. r = Inr x \<and> f x = Inr y)"
  by (cases r) simp_all

lemma and_then_eq_Inl:
  "and_then r f = Inl e \<longleftrightarrow> r = Inl e \<or> (\<exists>x. r = Inr x \<and> f x = Inl e)"
  by (cases r) simp_all

lemma map_err_simps [simp]:
  "map_err g (Inl e) = Inl (g e)" "map_err g (Inr x) = Inr x"
  by (simp_all add: map_err_def)

lemma map_err_eq_Inr [simp]: "map_err g r = Inr y \<longleftrightarrow> r = Inr y"
  by (cases r) simp_all

lemma map_err_eq_Inl: "map_err g r = Inl e \<longleftrightarrow> (\<exists>e'. r = Inl e' \<and> e = g e')"
  by (cases r) auto

lemma ok_or_simps [simp]: "ok_or e None = Inl e" "ok_or e (Some x) = Inr x"
  by (simp_all add: ok_or_def)

lemma ok_or_eq_Inr [simp]: "ok_or e o' = Inr y \<longleftrightarrow> o' = Some y"
  by (cases o') simp_all

lemma ensure_eq_Inr [simp]: "ensure e b = Inr u \<longleftrightarrow> b"
  by (simp add: ensure_def)

lemma ensure_eq_Inl [simp]: "ensure e b = Inl e' \<longleftrightarrow> \<not> b \<and> e' = e"
  by (auto simp: ensure_def)

lemma ensure_simps [simp]: "ensure e True = Inr ()" "ensure e False = Inl e"
  by (simp_all add: ensure_def)

lemma if_Err_eq_Ok: "(if b then Inl e else r) = Inr y \<longleftrightarrow> \<not> b \<and> r = Inr y"
  by simp

lemma is_ok_simps [simp]: "\<not> is_ok (Inl e)" "is_ok (Inr x)"
  by (simp_all add: is_ok_def)

lemma is_ok_iff: "is_ok r \<longleftrightarrow> (\<exists>x. r = Inr x)"
  by (cases r) simp_all

lemma try_for_each_eq_Inr:
  "try_for_each f xs = Inr u \<longleftrightarrow> (\<forall>x\<in>set xs. f x = Inr ())"
  by (induction xs) auto

lemma try_for_each_eq_Inl:
  "try_for_each f xs = Inl e \<longleftrightarrow>
     (\<exists>ys x zs. xs = ys @ x # zs \<and> (\<forall>y\<in>set ys. f y = Inr ()) \<and> f x = Inl e)"
proof (induction xs)
  case Nil
  show ?case by simp
next
  case (Cons a xs)
  show ?case
  proof (cases "f a")
    case (Inl e')
    show ?thesis
    proof
      assume "try_for_each f (a # xs) = Inl e"
      with Inl have "a # xs = [] @ a # xs \<and> (\<forall>y\<in>set []. f y = Inr ()) \<and> f a = Inl e"
        by simp
      then show "\<exists>ys x zs. a # xs = ys @ x # zs \<and> (\<forall>y\<in>set ys. f y = Inr ()) \<and> f x = Inl e"
        by blast
    next
      assume "\<exists>ys x zs. a # xs = ys @ x # zs \<and> (\<forall>y\<in>set ys. f y = Inr ()) \<and> f x = Inl e"
      then obtain ys x zs where *: "a # xs = ys @ x # zs" "\<forall>y\<in>set ys. f y = Inr ()" "f x = Inl e"
        by blast
      with Inl have "ys = []" by (cases ys) auto
      with * Inl show "try_for_each f (a # xs) = Inl e" by simp
    qed
  next
    case (Inr u)
    then have "try_for_each f (a # xs) = Inl e \<longleftrightarrow> try_for_each f xs = Inl e" by simp
    also have "\<dots> \<longleftrightarrow>
      (\<exists>ys x zs. a # xs = ys @ x # zs \<and> (\<forall>y\<in>set ys. f y = Inr ()) \<and> f x = Inl e)"
      unfolding Cons.IH
    proof
      assume "\<exists>ys x zs. xs = ys @ x # zs \<and> (\<forall>y\<in>set ys. f y = Inr ()) \<and> f x = Inl e"
      then obtain ys x zs where *: "xs = ys @ x # zs" "\<forall>y\<in>set ys. f y = Inr ()" "f x = Inl e"
        by blast
      have "a # xs = (a # ys) @ x # zs" "\<forall>y\<in>set (a # ys). f y = Inr ()"
        using * Inr by simp_all
      with *(3) show "\<exists>ys x zs. a # xs = ys @ x # zs \<and> (\<forall>y\<in>set ys. f y = Inr ()) \<and> f x = Inl e"
        by blast
    next
      assume "\<exists>ys x zs. a # xs = ys @ x # zs \<and> (\<forall>y\<in>set ys. f y = Inr ()) \<and> f x = Inl e"
      then obtain ys x zs where *: "a # xs = ys @ x # zs" "\<forall>y\<in>set ys. f y = Inr ()" "f x = Inl e"
        by blast
      with Inr obtain b bs where "ys = b # bs" by (cases ys) auto
      with * show "\<exists>ys x zs. xs = ys @ x # zs \<and> (\<forall>y\<in>set ys. f y = Inr ()) \<and> f x = Inl e"
        by auto
    qed
    finally show ?thesis .
  qed
qed

subsection \<open>Signed 64-bit arithmetic\<close>

definition i64_MAX :: i64 where "i64_MAX = 0x7FFFFFFFFFFFFFFF"
definition i64_MIN :: i64 where "i64_MIN = 0x8000000000000000"

definition clamp_i64 :: "int \<Rightarrow> int" where
  "clamp_i64 n = max (- (2 ^ 63)) (min (2 ^ 63 - 1) n)"

definition i64_saturating_add :: "i64 \<Rightarrow> i64 \<Rightarrow> i64" where
  "i64_saturating_add a b =
     (let s = sint a + sint b in
      if 2 ^ 63 - 1 < s then i64_MAX else if s < - (2 ^ 63) then i64_MIN else a + b)"

definition i64_saturating_sub :: "i64 \<Rightarrow> i64 \<Rightarrow> i64" where
  "i64_saturating_sub a b =
     (let s = sint a - sint b in
      if 2 ^ 63 - 1 < s then i64_MAX else if s < - (2 ^ 63) then i64_MIN else a - b)"

definition i64_checked_sub :: "i64 \<Rightarrow> i64 \<Rightarrow> i64 option" where
  "i64_checked_sub a b =
     (let s = sint a - sint b in
      if - (2 ^ 63) \<le> s \<and> s \<le> 2 ^ 63 - 1 then Some (a - b) else None)"

definition i64_unsigned_abs :: "i64 \<Rightarrow> u64" where
  "i64_unsigned_abs a = (if sint a < 0 then - a else a)"

text \<open>\<open>i64::try_from(u64)\<close> and \<open>u64::try_from(i64)\<close>.\<close>

definition i64_try_from_u64 :: "u64 \<Rightarrow> i64 option" where
  "i64_try_from_u64 n = (if unat n < 2 ^ 63 then Some n else None)"

definition u64_try_from_i64 :: "i64 \<Rightarrow> u64 option" where
  "u64_try_from_i64 a = (if sint a < 0 then None else Some a)"

definition i64_min :: "i64 \<Rightarrow> i64 \<Rightarrow> i64" where
  "i64_min a b = (if sint a \<le> sint b then a else b)"

definition i64_max :: "i64 \<Rightarrow> i64 \<Rightarrow> i64" where
  "i64_max a b = (if sint a \<le> sint b then b else a)"

lemma sint_i64_bounds: "- (2 ^ 63) \<le> sint (a :: i64)" "sint (a :: i64) \<le> 2 ^ 63 - 1"
  using sint_ge [of a] sint_lt [of a] by simp_all

lemma sint_i64_MAX [i64_values, simp]: "sint i64_MAX = 2 ^ 63 - 1"
  by (simp add: i64_MAX_def)

lemma sint_i64_MIN [i64_values, simp]: "sint i64_MIN = - (2 ^ 63)"
  by (simp add: i64_MIN_def)

lemma sint_word_of_int_i64:
  assumes "- (2 ^ 63) \<le> n" "n \<le> 2 ^ 63 - 1"
  shows "sint (word_of_int n :: i64) = n"
  using assms by (simp add: sint_word_ariths signed_take_bit_int_eq_self word_of_int_eq_iff sint_sbintrunc')

lemma sint_i64_saturating_add [i64_values]:
  "sint (i64_saturating_add a b) = clamp_i64 (sint a + sint b)"
proof -
  have "a + b = word_of_int (sint a + sint b)" by simp
  then have "- (2 ^ 63) \<le> sint a + sint b \<Longrightarrow> sint a + sint b \<le> 2 ^ 63 - 1 \<Longrightarrow>
      sint (a + b) = sint a + sint b"
    by (metis sint_word_of_int_i64)
  then show ?thesis
    by (auto simp: i64_saturating_add_def Let_def clamp_i64_def)
qed

lemma sint_i64_saturating_sub [i64_values]:
  "sint (i64_saturating_sub a b) = clamp_i64 (sint a - sint b)"
proof -
  have "a - b = word_of_int (sint a - sint b)" by simp
  then have "- (2 ^ 63) \<le> sint a - sint b \<Longrightarrow> sint a - sint b \<le> 2 ^ 63 - 1 \<Longrightarrow>
      sint (a - b) = sint a - sint b"
    by (metis sint_word_of_int_i64)
  then show ?thesis
    by (auto simp: i64_saturating_sub_def Let_def clamp_i64_def)
qed

lemma i64_checked_sub_Some:
  "i64_checked_sub a b = Some d \<Longrightarrow> sint d = sint a - sint b"
proof -
  assume *: "i64_checked_sub a b = Some d"
  have "a - b = word_of_int (sint a - sint b)" by simp
  moreover from * have "d = a - b" "- (2 ^ 63) \<le> sint a - sint b" "sint a - sint b \<le> 2 ^ 63 - 1"
    by (auto simp: i64_checked_sub_def Let_def split: if_splits)
  ultimately show ?thesis by (metis sint_word_of_int_i64)
qed

lemma i64_checked_sub_None:
  "i64_checked_sub a b = None \<longleftrightarrow> sint a - sint b < - (2 ^ 63) \<or> 2 ^ 63 - 1 < sint a - sint b"
  by (auto simp: i64_checked_sub_def Let_def)

lemma sint_i64_cases:
  "sint (a :: i64) = (if unat a < 2 ^ 63 then int (unat a) else int (unat a) - 2 ^ 64)"
proof (cases "unat a < 2 ^ 63")
  case True
  then have "int (unat a) < int (2 ^ 63)" by (simp only: of_nat_less_iff)
  then have "uint a < 2 ^ 63" by (simp only: uint_nat of_nat_power of_nat_numeral)
  then have "- (2 ^ 63) \<le> uint a" "uint a \<le> 2 ^ 63 - 1"
    using uint_ge_0 [of a] by linarith+
  then have "sint (word_of_int (uint a) :: i64) = uint a"
    by (rule sint_word_of_int_i64)
  then have "sint a = uint a" by (simp only: word_of_int_uint)
  with True show ?thesis by (simp only: uint_nat if_True)
next
  case False
  have lt: "uint a < 2 ^ 64" using uint_lt2p [of a] by simp
  have ge: "2 ^ 63 \<le> uint a"
  proof -
    from False have "int (2 ^ 63) \<le> int (unat a)" by (simp only: not_less of_nat_le_iff)
    then show ?thesis by (simp only: uint_nat of_nat_power of_nat_numeral)
  qed
  from lt ge have "- (2 ^ 63) \<le> uint a - 2 ^ 64" "uint a - 2 ^ 64 \<le> 2 ^ 63 - 1"
    by auto
  then have "sint (word_of_int (uint a - 2 ^ 64) :: i64) = uint a - 2 ^ 64"
    by (rule sint_word_of_int_i64)
  moreover have "(word_of_int (uint a - 2 ^ 64) :: i64) = word_of_int (uint a)"
    by (simp only: word_of_int_eq_iff) (simp add: take_bit_eq_mod mod_diff_eq)
  ultimately have "sint a = uint a - 2 ^ 64" by (simp only: word_of_int_uint)
  with False show ?thesis by (simp only: uint_nat if_False)
qed

lemma unat_i64_nonneg: "0 \<le> sint (a :: i64) \<Longrightarrow> int (unat a) = sint a"
  using uint_lt2p [of a] by (auto simp: sint_i64_cases split: if_splits)

lemma unat_i64_unsigned_abs [i64_values]: "int (unat (i64_unsigned_abs a)) = \<bar>sint a\<bar>"
proof (cases "sint a < 0")
  case False
  then show ?thesis using unat_i64_nonneg [of a] by (simp add: i64_unsigned_abs_def)
next
  case True
  have "- a = word_of_int (- sint a)" by simp
  then have "uint (- a) = uint (word_of_int (- sint a) :: i64)" by (simp only:)
  also have "\<dots> = (- sint a) mod 2 ^ 64" by (subst uint_word_of_int) simp
  also have "\<dots> = - sint a"
    using True sint_i64_bounds(1) [of a] by (intro mod_pos_pos_trivial) simp_all
  finally have "uint (- a) = - sint a" .
  with True show ?thesis
    by (simp add: i64_unsigned_abs_def)
qed

lemma sint_of_small_u64: "unat (n :: u64) < 2 ^ 63 \<Longrightarrow> sint n = int (unat n)"
  by (simp add: sint_i64_cases)

lemma unat_less_2p63_iff: "unat (n :: u64) < 2 ^ 63 \<longleftrightarrow> uint n < 2 ^ 63"
proof -
  have "unat n < 2 ^ 63 \<longleftrightarrow> int (unat n) < int (2 ^ 63)" by (simp only: of_nat_less_iff)
  then show ?thesis by (simp only: uint_nat of_nat_power of_nat_numeral)
qed

lemma clamp_i64_add:
  "- (2 ^ 63) \<le> t \<Longrightarrow> 0 \<le> u \<Longrightarrow> clamp_i64 (t + u) = min (t + u) (2 ^ 63 - 1)"
  by (auto simp: clamp_i64_def)

lemma clamp_i64_diff:
  "t \<le> 2 ^ 63 - 1 \<Longrightarrow> 0 \<le> u \<Longrightarrow> clamp_i64 (t - u) = max (t - u) (- (2 ^ 63))"
  by (auto simp: clamp_i64_def)

lemma sint_i64_min [i64_values]: "sint (i64_min a b) = min (sint a) (sint b)"
  by (simp add: i64_min_def)

lemma i64_sint_eqI: "sint a = sint b \<Longrightarrow> a = (b :: i64)"
  by (rule signed_word_eqI)

lemma sint_i64_max [i64_values]: "sint (i64_max a b) = max (sint a) (sint b)"
  by (simp add: i64_max_def)

end
