(* ===== verification/Externals.thy ===== *)
theory Externals
  imports Aitp_Prelude
begin

text \<open>
  Everything the sources call that is not part of the repository, as one record
  of functions that every definition using them takes as its first argument:
  the \<open>base64ct\<close> codec, \<open>sha2\<close>, the \<open>ed25519-dalek\<close>, \<open>p256\<close>, \<open>p521\<close> and \<open>ring\<close> primitives, the
  \<open>serde_json\<close> tokenizer and the \<open>serde_jcs\<close> printer, and the \<open>url\<close> parser.
  Nothing is assumed about them here. A property that relies on one of them names
  the documented behaviour it needs as a hypothesis over this record.

  Also here: Rust \<open>str\<close> values as byte strings with the few library functions the
  sources use on them, and JSON documents as trees that keep duplicate members.
\<close>

subsection \<open>Strings and bytes\<close>

definition str_bytes :: "string \<Rightarrow> bytes" where
  "str_bytes s = map of_char s"

fun strip_prefix :: "string \<Rightarrow> string \<Rightarrow> string option" where
  "strip_prefix [] s = Some s"
| "strip_prefix (p # ps) [] = None"
| "strip_prefix (p # ps) (c # cs) = (if p = c then strip_prefix ps cs else None)"

definition starts_with :: "string \<Rightarrow> string \<Rightarrow> bool" where
  "starts_with p s \<longleftrightarrow> strip_prefix p s \<noteq> None"

text \<open>\<open>str::split(c)\<close>: the pieces between the separators, always at least one.\<close>

fun split_on :: "char \<Rightarrow> string \<Rightarrow> string list" where
  "split_on c [] = [[]]"
| "split_on c (x # xs) =
     (if x = c then [] # split_on c xs
      else (case split_on c xs of [] \<Rightarrow> [[x]] | p # ps \<Rightarrow> (x # p) # ps))"

text \<open>\<open>str::split_once(c)\<close>: the parts before and after the first separator.\<close>

fun split_once :: "char \<Rightarrow> string \<Rightarrow> (string \<times> string) option" where
  "split_once c [] = None"
| "split_once c (x # xs) =
     (if x = c then Some ([], xs)
      else (case split_once c xs of None \<Rightarrow> None | Some (a, b) \<Rightarrow> Some (x # a, b)))"

subsection \<open>JSON documents\<close>

text \<open>
  A parsed document as the text has it: an object is its list of members in
  document order, duplicates included. A \<open>serde_json::Value\<close> is a tree in which
  every object has been collapsed to its last occurrence of each key.
\<close>

datatype json =
    JNull
  | JBool bool
  | JInt int
  | JFloat string
  | JStr string
  | JArr "json list"
  | JObj "(string \<times> json) list"

text \<open>
  The two classes of \<open>serde_json::Error\<close> the sources tell apart: the derived
  \<open>deny_unknown_fields\<close> failure, whose message starts with \<open>unknown field\<close> and
  the quoted name, and every other failure.
\<close>

datatype serde_error = SerdeUnknownField string | SerdeOther

record externals =
  b64_encode :: "bytes \<Rightarrow> string"
  b64_decode :: "string \<Rightarrow> bytes option"
  sha256 :: "bytes \<Rightarrow> bytes"
  ed25519_public :: "bytes \<Rightarrow> bytes"
  ed25519_sign :: "bytes \<Rightarrow> bytes \<Rightarrow> bytes"
  ed25519_valid_point :: "bytes \<Rightarrow> bool"
  ed25519_verify_strict :: "bytes \<Rightarrow> bytes \<Rightarrow> bytes \<Rightarrow> bool"
  p256_public :: "bytes \<Rightarrow> bytes option"
  p256_sign_prehash :: "bytes \<Rightarrow> bytes \<Rightarrow> bytes"
  p256_normalize_s :: "bytes \<Rightarrow> bytes"
  p256_from_sec1 :: "bytes \<Rightarrow> bytes option"
  p256_to_sec1 :: "bool \<Rightarrow> bytes \<Rightarrow> bytes"
  p256_sig_from_slice :: "bytes \<Rightarrow> bool"
  p256_sig_from_der :: "bytes \<Rightarrow> bytes option"
  p256_verify_prehash :: "bytes \<Rightarrow> bytes \<Rightarrow> bytes \<Rightarrow> bool"
  ring_p384_verify :: "bytes \<Rightarrow> bytes \<Rightarrow> bytes \<Rightarrow> bool"
  p521_valid_point :: "bytes \<Rightarrow> bool"
  p521_sig_from_slice :: "bytes \<Rightarrow> bool"
  p521_verify :: "bytes \<Rightarrow> bytes \<Rightarrow> bytes \<Rightarrow> bool"
  ring_rsa_verify :: "string \<Rightarrow> bytes \<times> bytes \<Rightarrow> bytes \<Rightarrow> bytes \<Rightarrow> bool"
  json_next :: "bytes \<Rightarrow> (json \<times> bytes) option"
  jcs_to_vec :: "json \<Rightarrow> bytes option"
  url_host :: "string \<Rightarrow> string option option"
  uuid_parse_str :: "string \<Rightarrow> bytes option"
  uuid_version_num :: "bytes \<Rightarrow> nat"
  uuid_is_rfc4122 :: "bytes \<Rightarrow> bool"
  uuid_hyphenated :: "bytes \<Rightarrow> string"

text \<open>
  \<open>json_next\<close> is \<open>serde_json\<close>'s tokenizer run for one value: the document tree
  and what is left of the input, or \<open>None\<close> on a syntax error. \<open>url_host\<close> is
  \<open>Url::parse\<close> followed by \<open>host_str\<close>: \<open>None\<close> when the string is not a URL.
  P-256 public keys are represented by the bytes of their SEC1 uncompressed form,
  private keys by their 32-byte seed or scalar, signatures by their 64 bytes, and
  UUIDs by their 16 bytes. \<open>p256_public\<close> is \<open>SigningKey::from_bytes\<close> followed by
  \<open>verifying_key\<close>: \<open>None\<close> when the scalar is out of range. The \<open>ring\<close> and \<open>p521\<close>
  verifiers take the SEC1 point (or the RSA modulus and exponent, behind the name of the
  parameter set), the message and the signature.
\<close>

subsection \<open>Lemmas on strings\<close>

lemma strip_prefix_eq_Some [simp]: "strip_prefix p s = Some r \<longleftrightarrow> s = p @ r"
  by (induction p s rule: strip_prefix.induct) auto

lemma strip_prefix_eq_None: "strip_prefix p s = None \<longleftrightarrow> (\<nexists>r. s = p @ r)"
  by (metis option.exhaust option.distinct(1) strip_prefix_eq_Some)

lemma strip_prefix_append [simp]: "strip_prefix p (p @ r) = Some r"
  by simp

lemma starts_with_iff: "starts_with p s \<longleftrightarrow> (\<exists>r. s = p @ r)"
  by (simp add: starts_with_def strip_prefix_eq_None)

lemma split_on_nonempty [simp]: "split_on c s \<noteq> []"
  by (induction s) (auto split: list.split)

lemma split_on_no_sep: "c \<notin> set s \<Longrightarrow> split_on c s = [s]"
  by (induction s) auto

lemma split_on_append_sep: "c \<notin> set s \<Longrightarrow> split_on c (s @ c # t) = s # split_on c t"
  by (induction s) auto

lemma split_on_parts: "p \<in> set (split_on c s) \<Longrightarrow> c \<notin> set p"
  by (induction s arbitrary: p) (auto split: if_splits list.splits)

lemma split_once_append: "c \<notin> set a \<Longrightarrow> split_once c (a @ c # b) = Some (a, b)"
  by (induction a) auto

lemma split_once_SomeD: "split_once c s = Some (a, b) \<Longrightarrow> s = a @ c # b \<and> c \<notin> set a"
  by (induction s arbitrary: a) (auto split: option.splits if_splits)

lemma split_once_None: "split_once c s = None \<longleftrightarrow> c \<notin> set s"
  by (induction s) (auto split: option.splits)

lemma str_bytes_append [simp]: "str_bytes (a @ b) = str_bytes a @ str_bytes b"
  by (simp add: str_bytes_def)

lemma length_str_bytes [simp]: "length (str_bytes s) = length s"
  by (simp add: str_bytes_def)

lemma unat_of_char_u8: "unat (of_char c :: u8) = (of_char c :: nat)"
proof -
  have "unat (of_nat (of_char c) :: u8) = of_char c mod 256"
    by (simp add: unat_of_nat)
  then show ?thesis by (simp only: of_nat_of_char of_char_mod_256)
qed

lemma of_char_u8_inject: "(of_char c :: u8) = of_char d \<longleftrightarrow> c = d"
  by (metis of_char_eqI unat_of_char_u8)

lemma str_bytes_inject [simp]: "str_bytes a = str_bytes b \<longleftrightarrow> a = b"
  by (simp add: str_bytes_def inj_on_def of_char_u8_inject inj_map_eq_map)

end
