(* ===== verification/Core_Json.thy ===== *)
theory Core_Json
  imports Externals
begin

text \<open>
  JSON handling of \<open>core/unknown_field.rs\<close>: the duplicate-key check on the raw
  document, the top-level member-set check, \<open>CheckedJson\<close>, and the behaviour of
  the derived \<open>serde::Deserialize\<close> code with \<open>deny_unknown_fields\<close>, which every
  wire type of the repository uses.

  Shown here: the duplicate check accepts exactly the documents in which no object
  at any depth repeats a key, and on those the last-write-wins collapse to a
  \<open>serde_json::Value\<close> changes nothing, so nothing of the text is lost behind the
  check; the member-set check accepts exactly the objects inside the declared set.
\<close>

subsection \<open>From text to \<open>serde_json::Value\<close>\<close>

definition json_ws :: "u8 \<Rightarrow> bool" where
  "json_ws b \<longleftrightarrow> b \<in> {0x20, 0x09, 0x0A, 0x0D}"

text \<open>\<open>serde_json::from_slice\<close> up to the typed visitor: one value and nothing after it.\<close>

definition json_document :: "externals \<Rightarrow> bytes \<Rightarrow> (serde_error, json) result" where
  "json_document E bs =
     (case json_next E bs of
        None \<Rightarrow> Err SerdeOther
      | Some (j, rest) \<Rightarrow> if list_all json_ws rest then Ok j else Err SerdeOther)"

text \<open>
  \<open>serde_json::Map::insert\<close> with \<open>preserve_order\<close>: a repeated key keeps its place
  and takes the new value.
\<close>

fun map_insert :: "string \<Rightarrow> json \<Rightarrow> (string \<times> json) list \<Rightarrow> (string \<times> json) list" where
  "map_insert k v [] = [(k, v)]"
| "map_insert k v ((k', v') # ms) =
     (if k = k' then (k, v) # ms else (k', v') # map_insert k v ms)"

definition map_collect :: "(string \<times> json) list \<Rightarrow> (string \<times> json) list" where
  "map_collect ms = fold (\<lambda>(k, v) acc. map_insert k v acc) ms []"

fun to_value :: "json \<Rightarrow> json" where
  "to_value (JArr xs) = JArr (map to_value xs)"
| "to_value (JObj ms) = JObj (map_collect (map (\<lambda>kv. (fst kv, to_value (snd kv))) ms))"
| "to_value j = j"

definition value_from_slice :: "externals \<Rightarrow> bytes \<Rightarrow> (serde_error, json) result" where
  "value_from_slice E bs = and_then (json_document E bs) (\<lambda>j. Ok (to_value j))"

fun json_get :: "string \<Rightarrow> json \<Rightarrow> json option" where
  "json_get k (JObj ms) = map_of ms k"
| "json_get k _ = None"

fun json_as_str :: "json \<Rightarrow> string option" where
  "json_as_str (JStr s) = Some s"
| "json_as_str _ = None"

fun json_as_i64 :: "json \<Rightarrow> i64 option" where
  "json_as_i64 (JInt n) = (if - (2 ^ 63) \<le> n \<and> n \<le> 2 ^ 63 - 1 then Some (word_of_int n) else None)"
| "json_as_i64 _ = None"

fun json_as_array :: "json \<Rightarrow> json list option" where
  "json_as_array (JArr xs) = Some xs"
| "json_as_array _ = None"

fun is_JObj :: "json \<Rightarrow> bool" where
  "is_JObj (JObj _) = True"
| "is_JObj _ = False"

subsection \<open>Member sets\<close>

record unknown_field =
  uf_field :: string
  uf_object :: string

fun first_outside :: "string list \<Rightarrow> (string \<times> json) list \<Rightarrow> string option" where
  "first_outside allowed [] = None"
| "first_outside allowed ((k, _) # ms) =
     (if k \<in> set allowed then first_outside allowed ms else Some k)"

definition check_members :: "string \<Rightarrow> json \<Rightarrow> string list \<Rightarrow> (unknown_field, unit) result" where
  "check_members object value allowed =
     (case value of
        JObj ms \<Rightarrow>
          (case first_outside allowed ms of
             None \<Rightarrow> Ok ()
           | Some k \<Rightarrow> Err \<lparr>uf_field = k, uf_object = object\<rparr>)
      | _ \<Rightarrow> Ok ())"

definition from_serde_error :: "serde_error \<Rightarrow> string option" where
  "from_serde_error e = (case e of SerdeUnknownField f \<Rightarrow> Some f | SerdeOther \<Rightarrow> None)"

subsection \<open>Duplicate keys\<close>

text \<open>
  Why a document is refused. The code reports a text; on a document with both a
  repeated key and a later syntax error it reports the repeated key, where the model
  reports the syntax error. No caller tells the two apart.
\<close>

datatype json_defect = DuplicateField string | JsonSyntax

fun dup_check :: "json \<Rightarrow> (json_defect, unit) result"
and dup_members :: "string list \<Rightarrow> (string \<times> json) list \<Rightarrow> (json_defect, unit) result"
and dup_elements :: "json list \<Rightarrow> (json_defect, unit) result" where
  "dup_check (JObj ms) = dup_members [] ms"
| "dup_check (JArr xs) = dup_elements xs"
| "dup_check _ = Ok ()"
| "dup_members seen [] = Ok ()"
| "dup_members seen ((k, v) # ms) =
     (if k \<in> set seen then Err (DuplicateField k)
      else and_then (dup_check v) (\<lambda>_. dup_members (k # seen) ms))"
| "dup_elements [] = Ok ()"
| "dup_elements (x # xs) = and_then (dup_check x) (\<lambda>_. dup_elements xs)"

definition reject_duplicate_keys :: "externals \<Rightarrow> bytes \<Rightarrow> (json_defect, unit) result" where
  "reject_duplicate_keys E bs =
     (case json_next E bs of None \<Rightarrow> Err JsonSyntax | Some (j, _) \<Rightarrow> dup_check j)"

datatype checked_json = CheckedJson json

fun as_value :: "checked_json \<Rightarrow> json" where
  "as_value (CheckedJson v) = v"

definition checked_from_slice :: "externals \<Rightarrow> bytes \<Rightarrow> (json_defect, checked_json) result" where
  "checked_from_slice E bs =
     and_then (reject_duplicate_keys E bs) (\<lambda>_.
       map_err (\<lambda>_. JsonSyntax) (and_then (value_from_slice E bs) (\<lambda>v. Ok (CheckedJson v))))"

definition checked_member :: "checked_json \<Rightarrow> string \<Rightarrow> checked_json option" where
  "checked_member c key = map_option CheckedJson (json_get key (as_value c))"

subsection \<open>Derived deserialization of structs\<close>

text \<open>
  What \<open>#[derive(Deserialize)]\<close> with \<open>deny_unknown_fields\<close> does for a struct, on the
  raw document. A field is required, or optional (\<open>Option\<close>), or defaulted. The
  derived visitor takes a JSON object (\<open>visit_map\<close>: members in document order, an
  unknown or repeated member is an error, then missing required members) and also a
  JSON array (\<open>visit_seq\<close>: one element per field in declaration order). The result
  is the members by field name.
\<close>

datatype field_kind = Required | Optional | Defaulted

type_synonym field_spec = "string \<times> field_kind \<times> (json \<Rightarrow> (serde_error, unit) result)"

fun de_map :: "field_spec list \<Rightarrow> string list \<Rightarrow> (string \<times> json) list \<Rightarrow> (serde_error, unit) result" where
  "de_map fs seen [] =
     (if list_all (\<lambda>(k, kind, _). kind = Required \<longrightarrow> k \<in> set seen) fs then Ok () else Err SerdeOther)"
| "de_map fs seen ((k, v) # ms) =
     (case map_of fs k of
        None \<Rightarrow> Err (SerdeUnknownField k)
      | Some (_, de) \<Rightarrow>
          if k \<in> set seen then Err SerdeOther
          else and_then (de v) (\<lambda>_. de_map fs (k # seen) ms))"

fun de_seq :: "field_spec list \<Rightarrow> json list \<Rightarrow> (serde_error, (string \<times> json) list) result" where
  "de_seq [] [] = Ok []"
| "de_seq [] (_ # _) = Err SerdeOther"
| "de_seq ((k, kind, _) # fs) [] =
     (if kind = Defaulted then de_seq fs [] else Err SerdeOther)"
| "de_seq ((k, kind, de) # fs) (x # xs) =
     and_then (de x) (\<lambda>_. and_then (de_seq fs xs) (\<lambda>r. Ok ((k, x) # r)))"

definition de_struct :: "field_spec list \<Rightarrow> json \<Rightarrow> (serde_error, (string \<times> json) list) result" where
  "de_struct fs j =
     (case j of
        JObj ms \<Rightarrow> and_then (de_map fs [] ms) (\<lambda>_. Ok ms)
      | JArr xs \<Rightarrow> de_seq fs xs
      | _ \<Rightarrow> Err SerdeOther)"

definition de_field :: "(string \<times> json) list \<Rightarrow> string \<Rightarrow> (json \<Rightarrow> (serde_error, 'a) result) \<Rightarrow> (serde_error, 'a) result" where
  "de_field ms k de = (case map_of ms k of None \<Rightarrow> Err SerdeOther | Some j \<Rightarrow> de j)"

text \<open>An \<open>Option\<close> member: absent and \<open>null\<close> both read as \<open>None\<close>.\<close>

definition de_opt_field :: "(string \<times> json) list \<Rightarrow> string \<Rightarrow> (json \<Rightarrow> (serde_error, 'a) result) \<Rightarrow> (serde_error, 'a option) result" where
  "de_opt_field ms k de =
     (case map_of ms k of
        None \<Rightarrow> Ok None
      | Some JNull \<Rightarrow> Ok None
      | Some j \<Rightarrow> and_then (de j) (\<lambda>x. Ok (Some x)))"

definition de_void :: "(json \<Rightarrow> (serde_error, 'a) result) \<Rightarrow> json \<Rightarrow> (serde_error, unit) result" where
  "de_void de j = and_then (de j) (\<lambda>_. Ok ())"

definition de_void_opt :: "(json \<Rightarrow> (serde_error, 'a) result) \<Rightarrow> json \<Rightarrow> (serde_error, unit) result" where
  "de_void_opt de j = (if j = JNull then Ok () else de_void de j)"

fun de_string :: "json \<Rightarrow> (serde_error, string) result" where
  "de_string (JStr s) = Ok s"
| "de_string _ = Err SerdeOther"

fun de_i64 :: "json \<Rightarrow> (serde_error, i64) result" where
  "de_i64 (JInt n) = (if - (2 ^ 63) \<le> n \<and> n \<le> 2 ^ 63 - 1 then Ok (word_of_int n) else Err SerdeOther)"
| "de_i64 _ = Err SerdeOther"

fun de_list :: "(json \<Rightarrow> (serde_error, 'a) result) \<Rightarrow> json list \<Rightarrow> (serde_error, 'a list) result" where
  "de_list de [] = Ok []"
| "de_list de (x # xs) = and_then (de x) (\<lambda>y. and_then (de_list de xs) (\<lambda>ys. Ok (y # ys)))"

fun de_vec :: "(json \<Rightarrow> (serde_error, 'a) result) \<Rightarrow> json \<Rightarrow> (serde_error, 'a list) result" where
  "de_vec de (JArr xs) = de_list de xs"
| "de_vec de _ = Err SerdeOther"

subsection \<open>What the checks establish\<close>

fun unique_keys :: "json \<Rightarrow> bool" where
  "unique_keys (JArr xs) = list_all unique_keys xs"
| "unique_keys (JObj ms) \<longleftrightarrow> distinct (map fst ms) \<and> list_all (\<lambda>kv. unique_keys (snd kv)) ms"
| "unique_keys _ = True"

lemma dup_check_iff:
  "dup_check j = Ok () \<longleftrightarrow> unique_keys j"
  "dup_members seen ms = Ok () \<longleftrightarrow>
     distinct (map fst ms) \<and> set (map fst ms) \<inter> set seen = {} \<and> list_all (\<lambda>kv. unique_keys (snd kv)) ms"
  "dup_elements xs = Ok () \<longleftrightarrow> list_all unique_keys xs"
  by (induction j and seen ms and xs rule: dup_check_dup_members_dup_elements.induct) auto

lemma map_insert_fresh: "k \<notin> fst ` set ms \<Longrightarrow> map_insert k v ms = ms @ [(k, v)]"
  by (induction ms) auto

lemma map_collect_distinct_acc:
  "distinct (map fst (acc @ ms)) \<Longrightarrow> fold (\<lambda>(k, v) acc. map_insert k v acc) ms acc = acc @ ms"
  by (induction ms arbitrary: acc) (auto simp: map_insert_fresh)

lemma map_collect_distinct: "distinct (map fst ms) \<Longrightarrow> map_collect ms = ms"
  using map_collect_distinct_acc [of "[]" ms] by (simp add: map_collect_def)

lemma to_value_unique: "unique_keys j \<Longrightarrow> to_value j = j"
proof (induction j rule: to_value.induct)
  case (1 xs)
  then show ?case by (simp add: list_all_iff map_idI)
next
  case (2 ms)
  then have "map (\<lambda>kv. (fst kv, to_value (snd kv))) ms = ms"
    by (auto simp: list_all_iff intro!: map_idI)
  with 2 show ?case by (simp add: map_collect_distinct)
qed simp_all

lemma first_outside_None: "first_outside allowed ms = None \<longleftrightarrow> fst ` set ms \<subseteq> set allowed"
  by (induction ms) (auto split: if_splits)

lemma first_outside_Some:
  "first_outside allowed ms = Some k \<Longrightarrow> k \<in> fst ` set ms \<and> k \<notin> set allowed"
  by (induction ms) (auto split: if_splits)

lemma check_members_object:
  "check_members obj (JObj ms) allowed = Ok () \<longleftrightarrow> fst ` set ms \<subseteq> set allowed"
  by (auto simp: check_members_def first_outside_None split: option.split)
     (metis first_outside_None option.distinct(1) subset_eq)

text \<open>
  What a derived object visitor accepts does not depend on the order of the members.
\<close>

lemma de_map_iff_aux:
  "de_map fs seen ms = Ok () \<longleftrightarrow>
     distinct (map fst ms) \<and> set (map fst ms) \<inter> set seen = {} \<and>
     (\<forall>(k, v)\<in>set ms. \<exists>kind de. map_of fs k = Some (kind, de) \<and> de v = Ok ()) \<and>
     (\<forall>(k, kind, de)\<in>set fs. kind = Required \<longrightarrow> k \<in> set seen \<union> fst ` set ms)"
proof (induction ms arbitrary: seen)
  case Nil
  show ?case by (auto simp: list_all_iff split: if_splits)
next
  case (Cons m ms)
  obtain k v where m: "m = (k, v)" by (cases m)
  show ?case
    unfolding m using Cons.IH [of "k # seen"]
    by (cases "map_of fs k") (auto split: prod.splits)
qed

lemma de_map_iff:
  "de_map fs [] ms = Ok () \<longleftrightarrow>
     distinct (map fst ms) \<and>
     (\<forall>(k, v)\<in>set ms. \<exists>kind de. map_of fs k = Some (kind, de) \<and> de v = Ok ()) \<and>
     (\<forall>(k, kind, de)\<in>set fs. kind = Required \<longrightarrow> k \<in> fst ` set ms)"
  by (subst de_map_iff_aux) simp

text \<open>
  C22. The check that guards every wire parse: \<open>CheckedJson::from_slice\<close> accepts
  exactly the texts that are one JSON document in which no object, at any depth,
  repeats a key; and for an accepted text the \<open>Value\<close> it hands out is the document
  of the text itself, so the last-write-wins map has dropped nothing.
\<close>

lemma checked_from_slice_exact:
  "checked_from_slice E bs = Ok c \<longleftrightarrow>
     (\<exists>j. json_document E bs = Ok j \<and> unique_keys j \<and> c = CheckedJson j)"
proof
  assume "checked_from_slice E bs = Ok c"
  then show "\<exists>j. json_document E bs = Ok j \<and> unique_keys j \<and> c = CheckedJson j"
    by (auto simp: checked_from_slice_def reject_duplicate_keys_def value_from_slice_def
        json_document_def dup_check_iff to_value_unique split: option.splits if_splits)
next
  assume "\<exists>j. json_document E bs = Ok j \<and> unique_keys j \<and> c = CheckedJson j"
  then show "checked_from_slice E bs = Ok c"
    by (auto simp: checked_from_slice_def reject_duplicate_keys_def value_from_slice_def
        json_document_def dup_check_iff to_value_unique split: option.splits if_splits)
qed

lemma unique_keys_get: "unique_keys v \<Longrightarrow> json_get k v = Some u \<Longrightarrow> unique_keys u"
  by (cases v) (force simp: list_all_iff dest: map_of_SomeD)+

end
