(* ===== verification/Core_Aid.thy ===== *)
theory Core_Aid
  imports Core_Json
begin

text \<open>
  Base64url (\<open>core/base64url.rs\<close>) and agent identifiers (\<open>core/aid.rs\<close>).

  An \<open>Aid\<close> is a validated string; its three textual forms are the legacy
  \<open>aid:pubkey:<43>\<close>, the tagged \<open>aid:pubkey:ed25519:<43>\<close> and
  \<open>aid:pubkey:p256:<44>\<close>. Shown here: what \<open>parse\<close> accepts and with which error it
  refuses, that the accessors which \<open>expect\<close> a decodable identifier never panic on
  a parsed value, and that the constructors and the parser are inverse to each other.
\<close>

subsection \<open>Strict base64url\<close>

datatype base64url_error = PaddingNotAllowed | InvalidChar | InvalidLength

definition encode :: "externals \<Rightarrow> bytes \<Rightarrow> string" where
  "encode E bs = b64_encode E bs"

definition decode_strict :: "externals \<Rightarrow> string \<Rightarrow> (base64url_error, bytes) result" where
  "decode_strict E s =
     (if CHR ''='' \<in> set s then Err PaddingNotAllowed
      else (case b64_decode E s of None \<Rightarrow> Err InvalidChar | Some bs \<Rightarrow> Ok bs))"

definition decode_strict_exact :: "externals \<Rightarrow> nat \<Rightarrow> string \<Rightarrow> (base64url_error, bytes) result" where
  "decode_strict_exact E n s =
     and_then (decode_strict E s) (\<lambda>bs. if length bs \<noteq> n then Err InvalidLength else Ok bs)"

text \<open>
  \<open>Base64UrlUnpadded::decode\<close> into a buffer of \<open>n\<close> zero bytes: an error when the
  input does not decode or does not fit, else the buffer after the write.
\<close>

definition decode_into :: "externals \<Rightarrow> nat \<Rightarrow> string \<Rightarrow> bytes option" where
  "decode_into E n s =
     (case b64_decode E s of
        None \<Rightarrow> None
      | Some bs \<Rightarrow> if length bs \<le> n then Some (bs @ replicate (n - length bs) 0) else None)"

subsection \<open>Agent identifiers\<close>

datatype aid = Aid string

datatype aid_algorithm = Ed25519 | P256

datatype aid_parse_error =
    MissingScheme
  | UnsupportedMethod string
  | WrongLength nat
  | InvalidChars

definition AID_PUBKEY_PREFIX :: string where "AID_PUBKEY_PREFIX = ''aid:pubkey:''"
definition AID_PUBKEY_ED25519_PREFIX :: string where "AID_PUBKEY_ED25519_PREFIX = ''aid:pubkey:ed25519:''"
definition AID_PUBKEY_P256_PREFIX :: string where "AID_PUBKEY_P256_PREFIX = ''aid:pubkey:p256:''"
definition AID_PUBKEY_IDENTIFIER_LEN :: nat where "AID_PUBKEY_IDENTIFIER_LEN = 43"
definition AID_P256_IDENTIFIER_LEN :: nat where "AID_P256_IDENTIFIER_LEN = 44"

definition alg_as_str :: "aid_algorithm \<Rightarrow> string" where
  "alg_as_str a = (case a of Ed25519 \<Rightarrow> ''ed25519'' | P256 \<Rightarrow> ''p256'')"

definition is_base64url_byte :: "char \<Rightarrow> bool" where
  "is_base64url_byte c \<longleftrightarrow>
     (let n = (of_char c :: nat) in
      65 \<le> n \<and> n \<le> 90 \<or> 97 \<le> n \<and> n \<le> 122 \<or> 48 \<le> n \<and> n \<le> 57 \<or> c = CHR ''-'' \<or> c = CHR ''_'')"

definition validate_ed25519_identifier :: "externals \<Rightarrow> string \<Rightarrow> (aid_parse_error, unit) result" where
  "validate_ed25519_identifier E identifier =
     (if length identifier \<noteq> AID_PUBKEY_IDENTIFIER_LEN then Err (WrongLength (length identifier))
      else if \<not> list_all is_base64url_byte identifier then Err InvalidChars
      else (case decode_into E 32 identifier of None \<Rightarrow> Err InvalidChars | Some _ \<Rightarrow> Ok ()))"

definition validate_p256_identifier :: "externals \<Rightarrow> string \<Rightarrow> (aid_parse_error, unit) result" where
  "validate_p256_identifier E identifier =
     (if length identifier \<noteq> AID_P256_IDENTIFIER_LEN then Err (WrongLength (length identifier))
      else if \<not> list_all is_base64url_byte identifier then Err InvalidChars
      else (case decode_into E 33 identifier of
              None \<Rightarrow> Err InvalidChars
            | Some buf \<Rightarrow> if hd buf \<noteq> 0x02 \<and> hd buf \<noteq> 0x03 then Err InvalidChars else Ok ()))"

definition aid_parse :: "externals \<Rightarrow> string \<Rightarrow> (aid_parse_error, aid) result" where
  "aid_parse E s =
     (case strip_prefix AID_PUBKEY_ED25519_PREFIX s of
        Some identifier \<Rightarrow> and_then (validate_ed25519_identifier E identifier) (\<lambda>_. Ok (Aid s))
      | None \<Rightarrow>
     (case strip_prefix AID_PUBKEY_P256_PREFIX s of
        Some identifier \<Rightarrow> and_then (validate_p256_identifier E identifier) (\<lambda>_. Ok (Aid s))
      | None \<Rightarrow>
     (case strip_prefix AID_PUBKEY_PREFIX s of
        Some identifier \<Rightarrow>
          (case split_once CHR '':'' identifier of
             Some (method, _) \<Rightarrow> Err (UnsupportedMethod (''pubkey:'' @ method))
           | None \<Rightarrow> and_then (validate_ed25519_identifier E identifier) (\<lambda>_. Ok (Aid s)))
      | None \<Rightarrow>
     (case strip_prefix ''aid:'' s of
        Some rest \<Rightarrow> Err (UnsupportedMethod (hd (split_on CHR '':'' rest)))
      | None \<Rightarrow> Err MissingScheme))))"

fun aid_as_str :: "aid \<Rightarrow> string" where
  "aid_as_str (Aid s) = s"

definition from_ed25519 :: "externals \<Rightarrow> bytes \<Rightarrow> aid" where
  "from_ed25519 E pubkey = Aid (AID_PUBKEY_PREFIX @ b64_encode E pubkey)"

definition from_ed25519_tagged :: "externals \<Rightarrow> bytes \<Rightarrow> aid" where
  "from_ed25519_tagged E pubkey = Aid (AID_PUBKEY_ED25519_PREFIX @ b64_encode E pubkey)"

definition from_p256 :: "externals \<Rightarrow> bytes \<Rightarrow> aid" where
  "from_p256 E compressed_point = Aid (AID_PUBKEY_P256_PREFIX @ b64_encode E compressed_point)"

definition aid_algorithm :: "aid \<Rightarrow> aid_algorithm" where
  "aid_algorithm a = (if starts_with AID_PUBKEY_P256_PREFIX (aid_as_str a) then P256 else Ed25519)"

definition aid_identifier :: "aid \<Rightarrow> string" where
  "aid_identifier a =
     (case strip_prefix AID_PUBKEY_ED25519_PREFIX (aid_as_str a) of
        Some i \<Rightarrow> i
      | None \<Rightarrow>
     (case strip_prefix AID_PUBKEY_P256_PREFIX (aid_as_str a) of
        Some i \<Rightarrow> i
      | None \<Rightarrow> drop (length AID_PUBKEY_PREFIX) (aid_as_str a)))"

text \<open>
  The accessors that \<open>expect\<close> the identifier to decode: \<open>Err\<close> is the panic, and
  \<open>Ok None\<close> the answer for the other algorithm.
\<close>

datatype panic = Panic

definition try_to_ed25519_bytes :: "externals \<Rightarrow> aid \<Rightarrow> (panic, bytes option) result" where
  "try_to_ed25519_bytes E a =
     (if aid_algorithm a \<noteq> Ed25519 then Ok None
      else (case decode_into E 32 (aid_identifier a) of None \<Rightarrow> Err Panic | Some out \<Rightarrow> Ok (Some out)))"

definition try_to_p256_bytes :: "externals \<Rightarrow> aid \<Rightarrow> (panic, bytes option) result" where
  "try_to_p256_bytes E a =
     (if aid_algorithm a \<noteq> P256 then Ok None
      else (case decode_into E 33 (aid_identifier a) of None \<Rightarrow> Err Panic | Some out \<Rightarrow> Ok (Some out)))"

definition pubkey_compressed_bytes :: "externals \<Rightarrow> aid \<Rightarrow> (panic, bytes) result" where
  "pubkey_compressed_bytes E a =
     (case aid_algorithm a of
        Ed25519 \<Rightarrow> and_then (try_to_ed25519_bytes E a) (ok_or Panic)
      | P256 \<Rightarrow> and_then (try_to_p256_bytes E a) (ok_or Panic))"

definition de_aid :: "externals \<Rightarrow> json \<Rightarrow> (serde_error, aid) result" where
  "de_aid E j = and_then (de_string j) (\<lambda>s. map_err (\<lambda>_. SerdeOther) (aid_parse E s))"

subsection \<open>Lemmas\<close>

lemmas aid_prefixes = AID_PUBKEY_PREFIX_def AID_PUBKEY_ED25519_PREFIX_def AID_PUBKEY_P256_PREFIX_def
lemmas aid_lengths = AID_PUBKEY_IDENTIFIER_LEN_def AID_P256_IDENTIFIER_LEN_def

text \<open>What the documentation of \<open>base64ct\<close> promises of \<open>Base64UrlUnpadded\<close>.\<close>

definition b64_laws :: "externals \<Rightarrow> bool" where
  "b64_laws E \<longleftrightarrow>
     (\<forall>bs. b64_decode E (b64_encode E bs) = Some bs) \<and>
     (\<forall>bs. list_all is_base64url_byte (b64_encode E bs)) \<and>
     (\<forall>bs. length (b64_encode E bs) = (length bs * 4 + 2) div 3)"

definition wf_aid :: "externals \<Rightarrow> aid \<Rightarrow> bool" where
  "wf_aid E a \<longleftrightarrow> aid_parse E (aid_as_str a) = Ok a"

lemma base64url_no_special:
  "list_all is_base64url_byte s \<Longrightarrow> CHR '':'' \<notin> set s \<and> CHR ''='' \<notin> set s \<and> CHR ''.'' \<notin> set s"
  by (auto simp: list_all_iff is_base64url_byte_def Let_def)

lemma length_decode_into: "decode_into E n s = Some bs \<Longrightarrow> length bs = n"
  by (auto simp: decode_into_def split: option.splits if_splits)

lemma aid_parse_Ok_str: "aid_parse E s = Ok a \<Longrightarrow> a = Aid s"
  by (auto simp: aid_parse_def split: option.splits prod.splits)

lemma aid_parse_wf: "aid_parse E s = Ok a \<Longrightarrow> wf_aid E a"
  by (frule aid_parse_Ok_str) (simp add: wf_aid_def)

lemma legacy_prefix_disjoint:
  assumes "CHR '':'' \<notin> set i"
  shows "strip_prefix AID_PUBKEY_ED25519_PREFIX (AID_PUBKEY_PREFIX @ i) = None"
    and "strip_prefix AID_PUBKEY_P256_PREFIX (AID_PUBKEY_PREFIX @ i) = None"
  using assms by (auto simp: aid_prefixes strip_prefix_eq_None)

lemma tagged_prefix_disjoint:
  "strip_prefix AID_PUBKEY_ED25519_PREFIX (AID_PUBKEY_P256_PREFIX @ i) = None"
  "strip_prefix AID_PUBKEY_P256_PREFIX (AID_PUBKEY_ED25519_PREFIX @ i) = None"
  by (simp_all add: aid_prefixes)

text \<open>The three accepted shapes.\<close>

lemma aid_parse_cases:
  assumes "aid_parse E s = Ok a"
  obtains (tagged) i where "s = AID_PUBKEY_ED25519_PREFIX @ i" "validate_ed25519_identifier E i = Ok ()"
      "aid_algorithm a = Ed25519" "aid_identifier a = i"
    | (p256) i where "s = AID_PUBKEY_P256_PREFIX @ i" "validate_p256_identifier E i = Ok ()"
      "aid_algorithm a = P256" "aid_identifier a = i"
    | (legacy) i where "s = AID_PUBKEY_PREFIX @ i" "CHR '':'' \<notin> set i"
      "validate_ed25519_identifier E i = Ok ()" "aid_algorithm a = Ed25519" "aid_identifier a = i"
proof -
  from assms have a: "a = Aid s" by (rule aid_parse_Ok_str)
  consider (t) i where "s = AID_PUBKEY_ED25519_PREFIX @ i"
    | (p) i where "strip_prefix AID_PUBKEY_ED25519_PREFIX s = None" "s = AID_PUBKEY_P256_PREFIX @ i"
    | (l) i where "strip_prefix AID_PUBKEY_ED25519_PREFIX s = None"
        "strip_prefix AID_PUBKEY_P256_PREFIX s = None" "s = AID_PUBKEY_PREFIX @ i"
    | (n) "strip_prefix AID_PUBKEY_ED25519_PREFIX s = None" "strip_prefix AID_PUBKEY_P256_PREFIX s = None"
        "strip_prefix AID_PUBKEY_PREFIX s = None"
    by (meson not_None_eq strip_prefix_eq_Some)
  then show thesis
  proof cases
    case t
    then show ?thesis using assms
      by (intro tagged [of i])
        (simp_all add: aid_parse_def a aid_algorithm_def starts_with_def tagged_prefix_disjoint aid_identifier_def)
  next
    case p
    then show ?thesis using assms
      by (intro p256 [of i])
        (simp_all add: aid_parse_def a aid_algorithm_def starts_with_def tagged_prefix_disjoint aid_identifier_def)
  next
    case l
    then have "split_once CHR '':'' i = None" "validate_ed25519_identifier E i = Ok ()"
      using assms by (auto simp: aid_parse_def split: option.splits)
    then show ?thesis using l
      by (intro legacy [of i])
        (simp_all add: a aid_algorithm_def starts_with_def aid_identifier_def split_once_None)
  next
    case n
    then show ?thesis using assms by (auto simp: aid_parse_def split: option.splits)
  qed
qed

lemma validate_ed25519_decodes:
  "validate_ed25519_identifier E i = Ok () \<Longrightarrow> \<exists>bs. decode_into E 32 i = Some bs \<and> length bs = 32"
  by (auto simp: validate_ed25519_identifier_def length_decode_into split: if_splits option.splits)

lemma validate_p256_decodes:
  "validate_p256_identifier E i = Ok () \<Longrightarrow>
     \<exists>bs. decode_into E 33 i = Some bs \<and> length bs = 33 \<and> hd bs \<in> {2, 3}"
  by (auto simp: validate_p256_identifier_def length_decode_into split: if_splits option.splits)

lemma wf_aid_pubkey:
  assumes "wf_aid E a"
  shows "\<exists>bs. pubkey_compressed_bytes E a = Ok bs \<and>
     length bs = (case aid_algorithm a of Ed25519 \<Rightarrow> 32 | P256 \<Rightarrow> 33) \<and>
     (aid_algorithm a = P256 \<longrightarrow> hd bs \<in> {2, 3})"
  using assms unfolding wf_aid_def
proof (cases rule: aid_parse_cases)
  case (tagged i)
  with validate_ed25519_decodes [OF tagged(2)] show ?thesis
    by (auto simp: pubkey_compressed_bytes_def try_to_ed25519_bytes_def)
next
  case (p256 i)
  with validate_p256_decodes [OF p256(2)] show ?thesis
    by (auto simp: pubkey_compressed_bytes_def try_to_p256_bytes_def)
next
  case (legacy i)
  with validate_ed25519_decodes [OF legacy(3)] show ?thesis
    by (auto simp: pubkey_compressed_bytes_def try_to_ed25519_bytes_def)
qed

lemma b64_encode_decode_into:
  "b64_laws E \<Longrightarrow> length bs = n \<Longrightarrow> decode_into E n (b64_encode E bs) = Some bs"
  by (simp add: b64_laws_def decode_into_def)

lemma b64_no_colon: "b64_laws E \<Longrightarrow> CHR '':'' \<notin> set (b64_encode E bs)"
  using base64url_no_special unfolding b64_laws_def by blast

lemma validate_ed25519_encode:
  "b64_laws E \<Longrightarrow> length pk = 32 \<Longrightarrow> validate_ed25519_identifier E (b64_encode E pk) = Ok ()"
  using b64_encode_decode_into [of E pk 32]
  by (simp add: validate_ed25519_identifier_def aid_lengths b64_laws_def)

lemma validate_p256_encode:
  "b64_laws E \<Longrightarrow> length pk = 33 \<Longrightarrow> hd pk \<in> {2, 3} \<Longrightarrow>
     validate_p256_identifier E (b64_encode E pk) = Ok ()"
  using b64_encode_decode_into [of E pk 33]
  by (auto simp: validate_p256_identifier_def aid_lengths b64_laws_def)

lemma from_ed25519_props:
  assumes "b64_laws E" "length pk = 32"
  shows "aid_parse E (aid_as_str (from_ed25519 E pk)) = Ok (from_ed25519 E pk)"
    and "pubkey_compressed_bytes E (from_ed25519 E pk) = Ok pk"
    and "aid_algorithm (from_ed25519 E pk) = Ed25519"
  using assms b64_encode_decode_into [OF assms] legacy_prefix_disjoint [OF b64_no_colon [OF assms(1)]]
    validate_ed25519_encode [OF assms] b64_no_colon [OF assms(1)]
  by (simp_all add: from_ed25519_def aid_parse_def split_once_None [THEN iffD2] aid_algorithm_def
      starts_with_def pubkey_compressed_bytes_def try_to_ed25519_bytes_def aid_identifier_def)

lemma from_ed25519_tagged_props:
  assumes "b64_laws E" "length pk = 32"
  shows "aid_parse E (aid_as_str (from_ed25519_tagged E pk)) = Ok (from_ed25519_tagged E pk)"
    and "pubkey_compressed_bytes E (from_ed25519_tagged E pk) = Ok pk"
    and "aid_algorithm (from_ed25519_tagged E pk) = Ed25519"
  using assms b64_encode_decode_into [OF assms] validate_ed25519_encode [OF assms]
  by (simp_all add: from_ed25519_tagged_def aid_parse_def aid_algorithm_def tagged_prefix_disjoint
      starts_with_def pubkey_compressed_bytes_def try_to_ed25519_bytes_def aid_identifier_def)

lemma from_p256_props:
  assumes "b64_laws E" "length pk = 33" "hd pk \<in> {2, 3}"
  shows "aid_parse E (aid_as_str (from_p256 E pk)) = Ok (from_p256 E pk)"
    and "pubkey_compressed_bytes E (from_p256 E pk) = Ok pk"
    and "aid_algorithm (from_p256 E pk) = P256"
  using assms b64_encode_decode_into [OF assms(1,2)] validate_p256_encode [OF assms]
  by (simp_all add: from_p256_def aid_parse_def aid_algorithm_def tagged_prefix_disjoint
      starts_with_def pubkey_compressed_bytes_def try_to_p256_bytes_def aid_identifier_def)

end
