(* ===== verification/Core_Ids.thy ===== *)
theory Core_Ids
  imports Core_Aid
begin

unbundle bit_operations_syntax

text \<open>
  Token identifiers (\<open>core/ids.rs\<close>): the strict UUID v4 wire form and identifiers
  derived from a domain tag and an input. Shown here: a derived identifier always has
  the v4 layout, so that what a builder mints passes \<open>check_v4\<close> and, printed, passes
  \<open>parse_v4\<close>; and the preimage that is hashed determines both the tag and the input,
  so that two uses with different tags never hash the same bytes.
\<close>

type_synonym uuid = bytes

datatype v4_error = V4Format | V4Version | V4Variant

datatype invalid_tag = InvalidTag

definition is_v4 :: "externals \<Rightarrow> uuid \<Rightarrow> bool" where
  "is_v4 E i \<longleftrightarrow> uuid_version_num E i = 4 \<and> uuid_is_rfc4122 E i"

definition check_v4 :: "externals \<Rightarrow> uuid \<Rightarrow> (v4_error, unit) result" where
  "check_v4 E i =
     (if uuid_version_num E i \<noteq> 4 then Err V4Version
      else if \<not> uuid_is_rfc4122 E i then Err V4Variant
      else Ok ())"

definition lower_hex :: "char \<Rightarrow> bool" where
  "lower_hex c \<longleftrightarrow> (let n = (of_char c :: nat) in 48 \<le> n \<and> n \<le> 57 \<or> 97 \<le> n \<and> n \<le> 102)"

definition v4_shape :: "string \<Rightarrow> bool" where
  "v4_shape s \<longleftrightarrow> length s = 36 \<and>
     list_all (\<lambda>(i, c). if i \<in> {8, 13, 18, 23} then c = CHR ''-'' else lower_hex c) (zip [0..<length s] s)"

definition parse_v4 :: "externals \<Rightarrow> string \<Rightarrow> (v4_error, uuid) result" where
  "parse_v4 E s =
     (if \<not> v4_shape s then Err V4Format
      else and_then (ok_or V4Format (uuid_parse_str E s)) (\<lambda>i.
           and_then (check_v4 E i) (\<lambda>_. Ok i)))"

definition derived_v4_preimage :: "string \<Rightarrow> bytes \<Rightarrow> (invalid_tag, bytes) result" where
  "derived_v4_preimage tag input =
     (if tag = [] \<or> \<not> list_all (\<lambda>c. 0x21 \<le> c \<and> c \<le> 0x7e) (str_bytes tag) then Err InvalidTag
      else Ok (str_bytes tag @ [0] @ input))"

definition derived_v4 :: "externals \<Rightarrow> string \<Rightarrow> bytes \<Rightarrow> (invalid_tag, uuid) result" where
  "derived_v4 E tag input =
     and_then (derived_v4_preimage tag input) (\<lambda>pre.
       let b = take 16 (sha256 E pre) in
       Ok (b[6 := (b ! 6 AND 0x0f) OR 0x40, 8 := (b ! 8 AND 0x3f) OR 0x80]))"

definition ser_v4 :: "externals \<Rightarrow> uuid \<Rightarrow> json" where
  "ser_v4 E i = JStr (uuid_hyphenated E i)"

definition de_v4 :: "externals \<Rightarrow> json \<Rightarrow> (serde_error, uuid) result" where
  "de_v4 E j = and_then (de_string j) (\<lambda>s. map_err (\<lambda>_. SerdeOther) (parse_v4 E s))"

subsection \<open>Lemmas\<close>

text \<open>
  What the \<open>uuid\<close> crate documents: where the version and variant bits are, and that
  the hyphenated form is lowercase 8-4-4-4-12 and parses back.
\<close>

definition uuid_laws :: "externals \<Rightarrow> bool" where
  "uuid_laws E \<longleftrightarrow>
     (\<forall>b. length b = 16 \<longrightarrow>
        uuid_version_num E b = unat (drop_bit 4 (b ! 6)) \<and>
        (uuid_is_rfc4122 E b \<longleftrightarrow> b ! 8 AND 0xc0 = 0x80) \<and>
        v4_shape (uuid_hyphenated E b) \<and> uuid_parse_str E (uuid_hyphenated E b) = Some b)"

definition sha_laws :: "externals \<Rightarrow> bool" where
  "sha_laws E \<longleftrightarrow> (\<forall>m. length (sha256 E m) = 32)"

lemma check_v4_iff [simp]: "check_v4 E i = Ok () \<longleftrightarrow> is_v4 E i"
  by (simp add: check_v4_def is_v4_def)

lemma parse_v4_Ok: "parse_v4 E s = Ok i \<longleftrightarrow> v4_shape s \<and> uuid_parse_str E s = Some i \<and> is_v4 E i"
  by (auto simp: parse_v4_def)

lemma u8_bit_cases:
  assumes "n < LENGTH(8)"
  shows "n = 0 \<or> n = 1 \<or> n = 2 \<or> n = 3 \<or> n = 4 \<or> n = 5 \<or> n = 6 \<or> n = 7"
proof -
  from assms have "n < 8" by simp
  then show ?thesis by presburger
qed

lemma v4_version_bits: "drop_bit 4 ((x AND 0x0f) OR 0x40) = (4 :: u8)"
  by (rule bit_word_eqI, drule u8_bit_cases) (auto simp: bit_simps)

lemma v4_variant_bits: "((x AND 0x3f) OR 0x80) AND 0xc0 = (0x80 :: u8)"
  by (rule bit_word_eqI, drule u8_bit_cases) (auto simp: bit_simps)

lemma preimage_Ok:
  "derived_v4_preimage tag input = Ok pre \<longleftrightarrow>
     tag \<noteq> [] \<and> list_all (\<lambda>c. 0x21 \<le> c \<and> c \<le> 0x7e) (str_bytes tag) \<and> pre = str_bytes tag @ [0] @ input"
  by (auto simp: derived_v4_preimage_def)

lemma append_sep_inject:
  "0 \<notin> set a \<Longrightarrow> 0 \<notin> set b \<Longrightarrow> a @ [0] @ x = b @ [0] @ y \<Longrightarrow> a = b \<and> x = (y :: bytes)"
proof (induction a arbitrary: b)
  case Nil
  then show ?case by (cases b) auto
next
  case (Cons c a)
  then show ?case by (cases b) auto
qed

lemma tag_no_nul: "list_all (\<lambda>c. 0x21 \<le> c \<and> c \<le> 0x7e) (bs :: bytes) \<Longrightarrow> 0 \<notin> set bs"
  by (induction bs) auto

lemma derived_v4_length: "sha_laws E \<Longrightarrow> derived_v4 E tag input = Ok i \<Longrightarrow> length i = 16"
  by (auto simp: derived_v4_def sha_laws_def Let_def)

lemma derived_v4_is_v4:
  assumes "uuid_laws E" "sha_laws E" "derived_v4 E tag input = Ok i"
  shows "is_v4 E i"
proof -
  obtain pre where i: "i = (take 16 (sha256 E pre))[6 := (take 16 (sha256 E pre) ! 6 AND 0x0f) OR 0x40,
      8 := (take 16 (sha256 E pre) ! 8 AND 0x3f) OR 0x80]"
    using assms(3) by (auto simp: derived_v4_def Let_def)
  have "length (take 16 (sha256 E pre)) = 16" using assms(2) by (simp add: sha_laws_def)
  then have "i ! 6 = (take 16 (sha256 E pre) ! 6 AND 0x0f) OR 0x40"
    "i ! 8 = (take 16 (sha256 E pre) ! 8 AND 0x3f) OR 0x80" "length i = 16"
    unfolding i by simp_all
  with assms(1) show ?thesis
    by (simp add: is_v4_def uuid_laws_def v4_version_bits v4_variant_bits)
qed

lemma serde_v4_roundtrip:
  "uuid_laws E \<Longrightarrow> length i = 16 \<Longrightarrow> is_v4 E i \<Longrightarrow> de_v4 E (ser_v4 E i) = Ok i"
  by (simp add: de_v4_def ser_v4_def parse_v4_def uuid_laws_def)

subsection \<open>Properties\<close>

text \<open>
  The preimage of a derived identifier determines tag and input: the tag has no
  NUL byte, so the separator is the first one. Two derivations with different tags or
  different inputs never hash the same bytes.
\<close>

lemma derived_v4_preimage_injective:
  assumes "derived_v4_preimage tag input = Ok pre" "derived_v4_preimage tag' input' = Ok pre"
  shows "tag = tag' \<and> input = input'"
proof -
  note ok = assms [unfolded preimage_Ok]
  have "0 \<notin> set (str_bytes tag)" "0 \<notin> set (str_bytes tag')"
    using ok tag_no_nul by blast+
  moreover have "str_bytes tag @ [0] @ input = str_bytes tag' @ [0] @ input'" using ok by metis
  ultimately have "str_bytes tag = str_bytes tag' \<and> input = input'" by (rule append_sep_inject)
  then show ?thesis by simp
qed

end
