(* ===== verification/Core_Time.thy ===== *)
theory Core_Time
  imports Aitp_Prelude
begin

text \<open>
  Unix-second timestamps (\<open>core/time.rs\<close>). A \<open>Timestamp\<close> is an \<open>i64\<close> taken
  verbatim from the wire, so every value of the type occurs; the arithmetic
  saturates or is checked, and the lemmas say what it computes over the integers.
\<close>

type_synonym timestamp = i64

record duration =
  as_secs :: u64
  subsec_nanos :: u32

abbreviation from_secs :: "u64 \<Rightarrow> duration" where
  "from_secs s \<equiv> \<lparr>as_secs = s, subsec_nanos = 0\<rparr>"

definition DEFAULT_TIMESTAMP_TOLERANCE :: duration where
  "DEFAULT_TIMESTAMP_TOLERANCE = from_secs 300"

text \<open>The whole seconds of a duration, saturating at the largest \<open>i64\<close>.\<close>

definition duration_secs :: "duration \<Rightarrow> i64" where
  "duration_secs d = (case i64_try_from_u64 (as_secs d) of Some s \<Rightarrow> s | None \<Rightarrow> i64_MAX)"

text \<open>
  \<open>Timestamp::now\<close> as a function of what \<open>duration_since(UNIX_EPOCH)\<close> returns:
  \<open>Inr d\<close> after the epoch, \<open>Inl d\<close> when the clock is set \<open>d\<close> before it.
\<close>

definition timestamp_now :: "duration + duration \<Rightarrow> timestamp" where
  "timestamp_now since =
     (case since of
        Inr d \<Rightarrow> (case i64_try_from_u64 (as_secs d) of Some s \<Rightarrow> s | None \<Rightarrow> i64_MAX)
      | Inl d \<Rightarrow> (case i64_try_from_u64 (as_secs d) of Some s \<Rightarrow> - s | None \<Rightarrow> i64_MIN))"

definition saturating_add :: "timestamp \<Rightarrow> duration \<Rightarrow> timestamp" where
  "saturating_add t d = i64_saturating_add t (duration_secs d)"

definition saturating_sub :: "timestamp \<Rightarrow> duration \<Rightarrow> timestamp" where
  "saturating_sub t d = i64_saturating_sub t (duration_secs d)"

definition is_within_tolerance_of :: "timestamp \<Rightarrow> timestamp \<Rightarrow> duration \<Rightarrow> bool" where
  "is_within_tolerance_of t reference tolerance =
     (case i64_checked_sub t reference of
        Some diff \<Rightarrow> i64_unsigned_abs diff \<le> as_secs tolerance
      | None \<Rightarrow> False)"

definition is_fresh :: "timestamp \<Rightarrow> timestamp \<Rightarrow> bool" where
  "is_fresh t reference = is_within_tolerance_of t reference DEFAULT_TIMESTAMP_TOLERANCE"

definition is_in_the_past :: "timestamp \<Rightarrow> timestamp \<Rightarrow> bool" where
  "is_in_the_past t reference \<longleftrightarrow> sint t < sint reference"

definition is_in_the_future :: "timestamp \<Rightarrow> timestamp \<Rightarrow> bool" where
  "is_in_the_future t reference \<longleftrightarrow> sint reference < sint t"

lemma sint_duration_secs [i64_values]:
  "sint (duration_secs d) = min (uint (as_secs d)) (2 ^ 63 - 1)"
proof (cases "uint (as_secs d) < 2 ^ 63")
  case True
  moreover from True have "unat (as_secs d) < 2 ^ 63" by (simp only: unat_less_2p63_iff)
  then have "duration_secs d = as_secs d" "sint (as_secs d) = uint (as_secs d)"
    by (simp_all only: duration_secs_def i64_try_from_u64_def sint_of_small_u64 uint_nat
        if_True option.case)
  ultimately show ?thesis by simp
next
  case False
  moreover from False have "\<not> unat (as_secs d) < 2 ^ 63" using unat_less_2p63_iff by blast
  then have "sint (duration_secs d) = 2 ^ 63 - 1"
    by (simp only: duration_secs_def i64_try_from_u64_def if_False option.case sint_i64_MAX)
  ultimately show ?thesis by simp
qed

lemma sint_duration_secs_nonneg: "0 \<le> sint (duration_secs d)"
  by (simp add: sint_duration_secs)

lemma sint_saturating_add [i64_values]:
  "sint (saturating_add t d) = min (sint t + sint (duration_secs d)) (2 ^ 63 - 1)"
  unfolding saturating_add_def sint_i64_saturating_add
  by (rule clamp_i64_add [OF sint_i64_bounds(1) sint_duration_secs_nonneg])

lemma sint_saturating_sub [i64_values]:
  "sint (saturating_sub t d) = max (sint t - sint (duration_secs d)) (- (2 ^ 63))"
  unfolding saturating_sub_def sint_i64_saturating_sub
  by (rule clamp_i64_diff [OF sint_i64_bounds(2) sint_duration_secs_nonneg])

lemma is_within_tolerance_of_iff:
  "is_within_tolerance_of t r tol \<longleftrightarrow>
     \<bar>sint t - sint r\<bar> \<le> uint (as_secs tol) \<and>
     - (2 ^ 63) \<le> sint t - sint r \<and> sint t - sint r \<le> 2 ^ 63 - 1"
proof (cases "i64_checked_sub t r")
  case None
  then have "\<not> (- (2 ^ 63) \<le> sint t - sint r \<and> sint t - sint r \<le> 2 ^ 63 - 1)"
    unfolding i64_checked_sub_None by linarith
  with None show ?thesis
    by (simp only: is_within_tolerance_of_def option.case) blast
next
  case (Some d)
  then have d: "sint d = sint t - sint r" by (rule i64_checked_sub_Some)
  have "uint (i64_unsigned_abs d) = \<bar>sint t - sint r\<bar>"
    using unat_i64_unsigned_abs [of d] d by simp
  then show ?thesis
    using Some d sint_i64_bounds [of d] by (simp add: is_within_tolerance_of_def word_le_def)
qed

lemma is_fresh_iff: "is_fresh t r \<longleftrightarrow> \<bar>sint t - sint r\<bar> \<le> 300"
  by (auto simp: is_fresh_def is_within_tolerance_of_iff DEFAULT_TIMESTAMP_TOLERANCE_def)

text \<open>
  The skewed freshness comparisons: because the clamped end of the range is the end of
  the type, saturating never changes the outcome of the comparison.
\<close>

lemma skewed_not_past:
  "\<not> sint (e :: timestamp) < sint (i64_saturating_sub now (duration_secs d)) \<longleftrightarrow> sint now - sint (duration_secs d) \<le> sint e"
  using sint_saturating_sub [of now d] sint_i64_bounds [of e] by (auto simp: saturating_sub_def)

lemma skewed_not_future:
  "\<not> sint (i64_saturating_add now (duration_secs d)) < sint (e :: timestamp) \<longleftrightarrow> sint e \<le> sint now + sint (duration_secs d)"
  using sint_saturating_add [of now d] sint_i64_bounds [of e] by (auto simp: saturating_add_def)

end
