(* ===== verification/Crypto_Keys.thy ===== *)
theory Crypto_Keys
  imports Core_Ids Core_Time
begin

text \<open>
  Keys, signatures and signing backends (\<open>crypto/keys.rs\<close>, \<open>crypto/digest.rs\<close>,
  \<open>crypto/thumbprint.rs\<close>, \<open>crypto/signer.rs\<close>). A verifying key is an algorithm and
  the bytes the primitive library parsed; a signing key keeps the AID derived from it.

  Shown here: a signature is accepted only under the algorithm of the key, only with
  the exact length, and for P-256 only in its low-S form; a backend's output leaves
  the library only if it verifies under the key in the signer's AID; what an
  in-process key signs, its AID verifies.
\<close>

subsection \<open>Errors\<close>

datatype signer_error =
    Transient "duration option"
  | Permanent
  | MessageTooLarge nat nat
  | UnsupportedAlgorithm
  | MalformedSignature
  | VerificationFailed
  | KeyMismatch aid aid

text \<open>\<open>CryptoPanic\<close> stands for an \<open>expect\<close> that fails; parsed AIDs never reach it.\<close>

datatype crypto_error =
    SignatureInvalid
  | SignatureMalformed
  | KeyParseFailed
  | AidNotEd25519
  | AlgMismatch
  | TypMismatch string string
  | JwsMalformed
  | SignerFailed signer_error
  | CryptoPanic

definition is_transient :: "signer_error \<Rightarrow> bool" where
  "is_transient e = (case e of Transient _ \<Rightarrow> True | _ \<Rightarrow> False)"

definition signer_retry_after :: "signer_error \<Rightarrow> duration option" where
  "signer_retry_after e = (case e of Transient d \<Rightarrow> d | _ \<Rightarrow> None)"

subsection \<open>Wire signatures\<close>

datatype signature = Signature string

datatype signature_algorithm = SigEd25519 | SigP256

definition ED25519_SIGNATURE_BASE64URL_LEN :: nat where "ED25519_SIGNATURE_BASE64URL_LEN = 86"

fun sig_as_str :: "signature \<Rightarrow> string" where
  "sig_as_str (Signature s) = s"

definition signature_from_raw :: "externals \<Rightarrow> aid_algorithm \<Rightarrow> bytes \<Rightarrow> signature" where
  "signature_from_raw E alg raw =
     (case alg of
        P256 \<Rightarrow> Signature (''p256.'' @ b64_encode E raw)
      | Ed25519 \<Rightarrow> Signature (b64_encode E raw))"

definition validate_b64url_signature :: "string \<Rightarrow> (crypto_error, unit) result" where
  "validate_b64url_signature payload =
     (if length payload \<noteq> ED25519_SIGNATURE_BASE64URL_LEN then Err SignatureMalformed
      else if \<not> list_all is_base64url_byte payload then Err SignatureMalformed
      else Ok ())"

definition signature_parse :: "string \<Rightarrow> (crypto_error, signature) result" where
  "signature_parse s =
     (if CHR ''='' \<in> set s then Err SignatureMalformed
      else (case strip_prefix ''ed25519.'' s of
          Some rest \<Rightarrow> and_then (validate_b64url_signature rest) (\<lambda>_. Ok (Signature s))
        | None \<Rightarrow>
       (case strip_prefix ''p256.'' s of
          Some rest \<Rightarrow> and_then (validate_b64url_signature rest) (\<lambda>_. Ok (Signature s))
        | None \<Rightarrow> and_then (validate_b64url_signature s) (\<lambda>_. Ok (Signature s)))))"

definition sig_algorithm :: "signature \<Rightarrow> signature_algorithm" where
  "sig_algorithm s = (if starts_with ''p256.'' (sig_as_str s) then SigP256 else SigEd25519)"

definition sig_payload :: "signature \<Rightarrow> string" where
  "sig_payload s =
     (case strip_prefix ''ed25519.'' (sig_as_str s) of
        Some p \<Rightarrow> p
      | None \<Rightarrow> (case strip_prefix ''p256.'' (sig_as_str s) of Some p \<Rightarrow> p | None \<Rightarrow> sig_as_str s))"

definition raw_signature_len :: "aid_algorithm \<Rightarrow> nat" where
  "raw_signature_len alg = (case alg of Ed25519 \<Rightarrow> 64 | P256 \<Rightarrow> 64)"

subsection \<open>Verifying keys\<close>

datatype verifying_key = VkEd25519 bytes | VkP256 bytes

definition vk_algorithm :: "verifying_key \<Rightarrow> aid_algorithm" where
  "vk_algorithm k = (case k of VkEd25519 _ \<Rightarrow> Ed25519 | VkP256 _ \<Rightarrow> P256)"

definition from_ed25519_bytes :: "externals \<Rightarrow> bytes \<Rightarrow> (crypto_error, verifying_key) result" where
  "from_ed25519_bytes E bs = (if ed25519_valid_point E bs then Ok (VkEd25519 bs) else Err KeyParseFailed)"

definition vk_from_aid :: "externals \<Rightarrow> aid \<Rightarrow> (crypto_error, verifying_key) result" where
  "vk_from_aid E a =
     (case aid_algorithm a of
        Ed25519 \<Rightarrow>
          (case try_to_ed25519_bytes E a of
             Ok (Some bs) \<Rightarrow> if ed25519_valid_point E bs then Ok (VkEd25519 bs) else Err AidNotEd25519
           | _ \<Rightarrow> Err CryptoPanic)
      | P256 \<Rightarrow>
          (case try_to_p256_bytes E a of
             Ok (Some bs) \<Rightarrow>
               (case p256_from_sec1 E bs of Some k \<Rightarrow> Ok (VkP256 k) | None \<Rightarrow> Err KeyParseFailed)
           | _ \<Rightarrow> Err CryptoPanic))"

definition from_compressed :: "externals \<Rightarrow> bytes \<Rightarrow> (crypto_error, verifying_key) result" where
  "from_compressed E bs =
     (if length bs = 32 then from_ed25519_bytes E bs
      else if length bs = 33 then
        (case p256_from_sec1 E bs of Some k \<Rightarrow> Ok (VkP256 k) | None \<Rightarrow> Err KeyParseFailed)
      else Err KeyParseFailed)"

text \<open>\<open>Sec1Point::from_affine_coordinates\<close> with \<open>compress = false\<close> is \<open>04 || x || y\<close>.\<close>

definition from_p256_affine :: "externals \<Rightarrow> bytes \<Rightarrow> bytes \<Rightarrow> (crypto_error, verifying_key) result" where
  "from_p256_affine E x y =
     (case p256_from_sec1 E (4 # x @ y) of Some k \<Rightarrow> Ok (VkP256 k) | None \<Rightarrow> Err KeyParseFailed)"

definition to_compressed :: "externals \<Rightarrow> verifying_key \<Rightarrow> bytes" where
  "to_compressed E k = (case k of VkEd25519 bs \<Rightarrow> bs | VkP256 p \<Rightarrow> p256_to_sec1 E True p)"

definition vk_to_aid :: "externals \<Rightarrow> verifying_key \<Rightarrow> aid" where
  "vk_to_aid E k = (case k of VkEd25519 bs \<Rightarrow> from_ed25519 E bs | VkP256 p \<Rightarrow> from_p256 E (p256_to_sec1 E True p))"

definition vk_eq :: "externals \<Rightarrow> verifying_key \<Rightarrow> verifying_key \<Rightarrow> bool" where
  "vk_eq E a b \<longleftrightarrow> vk_algorithm a = vk_algorithm b \<and> to_compressed E a = to_compressed E b"

definition vk_try_to_ed25519_bytes :: "verifying_key \<Rightarrow> bytes option" where
  "vk_try_to_ed25519_bytes k = (case k of VkEd25519 bs \<Rightarrow> Some bs | VkP256 _ \<Rightarrow> None)"

definition verify_ed25519 :: "externals \<Rightarrow> bytes \<Rightarrow> bytes \<Rightarrow> bytes \<Rightarrow> (crypto_error, unit) result" where
  "verify_ed25519 E vk message sig =
     (if length sig \<noteq> raw_signature_len Ed25519 then Err SignatureInvalid
      else if ed25519_verify_strict E vk message sig then Ok () else Err SignatureInvalid)"

definition verify_p256_prehash :: "externals \<Rightarrow> bytes \<Rightarrow> bytes \<Rightarrow> bytes \<Rightarrow> (crypto_error, unit) result" where
  "verify_p256_prehash E vk d sig =
     (if length sig \<noteq> raw_signature_len P256 then Err SignatureInvalid
      else if \<not> p256_sig_from_slice E sig then Err SignatureInvalid
      else if p256_normalize_s E sig \<noteq> sig then Err SignatureInvalid
      else if Externals.p256_verify_prehash E vk d sig then Ok () else Err SignatureInvalid)"

definition verify_jcs :: "externals \<Rightarrow> verifying_key \<Rightarrow> bytes \<Rightarrow> signature \<Rightarrow> (crypto_error, unit) result" where
  "verify_jcs E k d sig =
     (case b64_decode E (sig_payload sig) of
        None \<Rightarrow> Err SignatureInvalid
      | Some raw \<Rightarrow>
          (case (k, sig_algorithm sig) of
             (VkEd25519 vk, SigEd25519) \<Rightarrow> verify_ed25519 E vk d raw
           | (VkP256 vk, SigP256) \<Rightarrow> verify_p256_prehash E vk d raw
           | _ \<Rightarrow> Err SignatureInvalid))"

definition verify_raw :: "externals \<Rightarrow> verifying_key \<Rightarrow> bytes \<Rightarrow> bytes \<Rightarrow> (crypto_error, unit) result" where
  "verify_raw E k message sig =
     (case k of
        VkEd25519 vk \<Rightarrow> verify_ed25519 E vk message sig
      | VkP256 vk \<Rightarrow> verify_p256_prehash E vk (sha256 E message) sig)"

definition verify_raw_jose :: "externals \<Rightarrow> verifying_key \<Rightarrow> bytes \<Rightarrow> bytes \<Rightarrow> (crypto_error, unit) result" where
  "verify_raw_jose E k message sig =
     (case k of
        VkEd25519 vk \<Rightarrow> verify_ed25519 E vk message sig
      | VkP256 vk \<Rightarrow>
          (if length sig \<noteq> raw_signature_len P256 then Err SignatureInvalid
           else if \<not> p256_sig_from_slice E sig then Err SignatureInvalid
           else if Externals.p256_verify_prehash E vk (sha256 E message) sig then Ok () else Err SignatureInvalid))"

subsection \<open>Thumbprints\<close>

definition thumbprint_ed25519 :: "externals \<Rightarrow> bytes \<Rightarrow> string" where
  "thumbprint_ed25519 E pk =
     b64_encode E (sha256 E (str_bytes
       (''{\"crv\":\"Ed25519\",\"kty\":\"OKP\",\"x\":\"'' @ b64_encode E pk @ ''\"}'')))"

definition thumbprint_p256 :: "externals \<Rightarrow> bytes \<Rightarrow> bytes \<Rightarrow> string" where
  "thumbprint_p256 E x y =
     b64_encode E (sha256 E (str_bytes
       (''{\"crv\":\"P-256\",\"kty\":\"EC\",\"x\":\"'' @ b64_encode E x @ ''\",\"y\":\"'' @ b64_encode E y @ ''\"}'')))"

definition to_jwk_thumbprint_sha256 :: "externals \<Rightarrow> verifying_key \<Rightarrow> (crypto_error, string) result" where
  "to_jwk_thumbprint_sha256 E k =
     (case k of
        VkEd25519 vk \<Rightarrow> Ok (thumbprint_ed25519 E vk)
      | VkP256 vk \<Rightarrow>
          (let bs = p256_to_sec1 E False vk in
           if length bs \<noteq> 65 \<or> hd bs \<noteq> 4 then Err KeyParseFailed
           else Ok (thumbprint_p256 E (take 32 (drop 1 bs)) (take 32 (drop 33 bs)))))"

subsection \<open>Signing keys\<close>

datatype signing_key = SkEd25519 bytes aid | SkP256 bytes bytes aid

definition from_ed25519_seed :: "externals \<Rightarrow> bytes \<Rightarrow> signing_key" where
  "from_ed25519_seed E seed = SkEd25519 seed (from_ed25519 E (ed25519_public E seed))"

definition from_p256_seed :: "externals \<Rightarrow> bytes \<Rightarrow> (crypto_error, signing_key) result" where
  "from_p256_seed E seed =
     (case p256_public E seed of
        None \<Rightarrow> Err KeyParseFailed
      | Some k \<Rightarrow> Ok (SkP256 seed k (from_p256 E (p256_to_sec1 E True k))))"

definition sk_aid :: "signing_key \<Rightarrow> aid" where
  "sk_aid k = (case k of SkEd25519 _ a \<Rightarrow> a | SkP256 _ _ a \<Rightarrow> a)"

definition sk_algorithm :: "signing_key \<Rightarrow> aid_algorithm" where
  "sk_algorithm k = (case k of SkEd25519 _ _ \<Rightarrow> Ed25519 | SkP256 _ _ _ \<Rightarrow> P256)"

definition sk_verifying_key :: "externals \<Rightarrow> signing_key \<Rightarrow> verifying_key" where
  "sk_verifying_key E k = (case k of SkEd25519 seed _ \<Rightarrow> VkEd25519 (ed25519_public E seed) | SkP256 _ p _ \<Rightarrow> VkP256 p)"

definition p256_sign_low_s :: "externals \<Rightarrow> bytes \<Rightarrow> bytes \<Rightarrow> bytes" where
  "p256_sign_low_s E seed d = p256_normalize_s E (p256_sign_prehash E seed d)"

definition sk_sign_jcs :: "externals \<Rightarrow> signing_key \<Rightarrow> bytes \<Rightarrow> signature" where
  "sk_sign_jcs E k d =
     (case k of
        SkEd25519 seed _ \<Rightarrow> Signature (b64_encode E (ed25519_sign E seed d))
      | SkP256 seed _ _ \<Rightarrow> Signature (''p256.'' @ b64_encode E (p256_sign_low_s E seed d)))"

definition sk_sign_raw :: "externals \<Rightarrow> signing_key \<Rightarrow> bytes \<Rightarrow> bytes" where
  "sk_sign_raw E k message =
     (case k of
        SkEd25519 seed _ \<Rightarrow> ed25519_sign E seed message
      | SkP256 seed _ _ \<Rightarrow> p256_sign_low_s E seed (sha256 E message))"

subsection \<open>Signing backends\<close>

datatype sign_request = Ed25519Message bytes | P256Digest bytes

datatype backend_signature = Raw bytes | Der bytes

record signer =
  sg_aid :: aid
  sg_max_message_len :: "nat option"
  sg_public_key :: "(signer_error, verifying_key) result"
  sg_sign :: "sign_request \<Rightarrow> (signer_error, backend_signature) result"
  sg_signing_key :: "signing_key option"

definition request_algorithm :: "sign_request \<Rightarrow> aid_algorithm" where
  "request_algorithm r = (case r of Ed25519Message _ \<Rightarrow> Ed25519 | P256Digest _ \<Rightarrow> P256)"

definition request_bytes :: "sign_request \<Rightarrow> bytes" where
  "request_bytes r = (case r of Ed25519Message m \<Rightarrow> m | P256Digest d \<Rightarrow> d)"

text \<open>\<open>decode_wire_raw\<close> expects the payload of its own signature to decode.\<close>

definition decode_wire_raw :: "externals \<Rightarrow> signature \<Rightarrow> bytes" where
  "decode_wire_raw E sig = (case b64_decode E (sig_payload sig) of Some raw \<Rightarrow> raw | None \<Rightarrow> [])"

definition sk_backend_sign :: "externals \<Rightarrow> signing_key \<Rightarrow> sign_request \<Rightarrow> (signer_error, backend_signature) result" where
  "sk_backend_sign E k req =
     (case (sk_algorithm k, req) of
        (Ed25519, Ed25519Message m) \<Rightarrow> Ok (Raw (sk_sign_raw E k m))
      | (P256, P256Digest d) \<Rightarrow> Ok (Raw (decode_wire_raw E (sk_sign_jcs E k d)))
      | _ \<Rightarrow> Err UnsupportedAlgorithm)"

definition key_signer :: "externals \<Rightarrow> signing_key \<Rightarrow> signer" where
  "key_signer E k =
     \<lparr>sg_aid = sk_aid k, sg_max_message_len = None, sg_public_key = Ok (sk_verifying_key E k),
      sg_sign = sk_backend_sign E k, sg_signing_key = Some k\<rparr>"

datatype sign_target = Jcs bytes | RawMsg bytes

definition p256_backend_to_low_s :: "externals \<Rightarrow> backend_signature \<Rightarrow> (signer_error, bytes) result" where
  "p256_backend_to_low_s E sig =
     (case sig of
        Raw raw \<Rightarrow>
          (if length raw \<noteq> raw_signature_len P256 then Err MalformedSignature
           else if p256_sig_from_slice E raw then Ok (p256_normalize_s E raw) else Err MalformedSignature)
      | Der der \<Rightarrow>
          (case p256_sig_from_der E der of
             Some s \<Rightarrow> Ok (p256_normalize_s E s)
           | None \<Rightarrow> Err MalformedSignature))"

definition local_key :: "signing_key option \<Rightarrow> aid \<Rightarrow> signing_key option" where
  "local_key k a = (case k of Some k \<Rightarrow> if sk_aid k = a then Some k else None | None \<Rightarrow> None)"

definition p256_digest :: "externals \<Rightarrow> sign_target \<Rightarrow> bytes" where
  "p256_digest E t = (case t of Jcs d \<Rightarrow> d | RawMsg m \<Rightarrow> sha256 E m)"

definition sign_req :: "aid_algorithm \<Rightarrow> sign_target \<Rightarrow> bytes \<Rightarrow> nat option \<Rightarrow> (signer_error, sign_request) result" where
  "sign_req alg t digest mx =
     (let req = (case (alg, t) of
                   (Ed25519, Jcs d) \<Rightarrow> Ed25519Message d
                 | (Ed25519, RawMsg m) \<Rightarrow> Ed25519Message m
                 | _ \<Rightarrow> P256Digest digest)
      in case mx of
           Some n \<Rightarrow> if n < length (request_bytes req) then Err (MessageTooLarge (length (request_bytes req)) n) else Ok req
         | None \<Rightarrow> Ok req)"

definition finalize :: "externals \<Rightarrow> aid \<Rightarrow> aid_algorithm \<Rightarrow> sign_target \<Rightarrow> backend_signature \<Rightarrow> (signer_error, bytes) result" where
  "finalize E a alg t sig =
     and_then
       (case alg of
          P256 \<Rightarrow> p256_backend_to_low_s E sig
        | Ed25519 \<Rightarrow>
            (case sig of
               Raw raw \<Rightarrow> if length raw = raw_signature_len alg then Ok raw else Err MalformedSignature
             | Der _ \<Rightarrow> Err MalformedSignature))
       (\<lambda>raw.
     and_then (map_err (\<lambda>_. Permanent) (vk_from_aid E a)) (\<lambda>vk.
     and_then (map_err (\<lambda>_. VerificationFailed)
       (case t of
          Jcs d \<Rightarrow> verify_jcs E vk d (signature_from_raw E alg raw)
        | RawMsg m \<Rightarrow> verify_raw E vk m raw)) (\<lambda>_.
     Ok raw)))"

definition sign_local :: "externals \<Rightarrow> signing_key \<Rightarrow> sign_target \<Rightarrow> bytes" where
  "sign_local E k t = (case t of Jcs d \<Rightarrow> decode_wire_raw E (sk_sign_jcs E k d) | RawMsg m \<Rightarrow> sk_sign_raw E k m)"

definition sign_target :: "externals \<Rightarrow> signer \<Rightarrow> sign_target \<Rightarrow> (signer_error, bytes) result" where
  "sign_target E sg t =
     (let a = sg_aid sg; alg = aid_algorithm a in
      case local_key (sg_signing_key sg) a of
        Some k \<Rightarrow> Ok (sign_local E k t)
      | None \<Rightarrow>
          and_then (sign_req alg t (p256_digest E t) (sg_max_message_len sg)) (\<lambda>req.
          and_then (sg_sign sg req) (\<lambda>sig.
          finalize E a alg t sig)))"

definition signer_sign_jcs :: "externals \<Rightarrow> signer \<Rightarrow> bytes \<Rightarrow> (signer_error, signature) result" where
  "signer_sign_jcs E sg d =
     and_then (sign_target E sg (Jcs d)) (\<lambda>raw. Ok (signature_from_raw E (aid_algorithm (sg_aid sg)) raw))"

definition signer_sign_raw :: "externals \<Rightarrow> signer \<Rightarrow> bytes \<Rightarrow> (signer_error, bytes) result" where
  "signer_sign_raw E sg message = sign_target E sg (RawMsg message)"

definition compare_keys :: "externals \<Rightarrow> aid \<Rightarrow> verifying_key \<Rightarrow> (signer_error, unit) result" where
  "compare_keys E a reported =
     and_then (map_err (\<lambda>_. Permanent) (vk_from_aid E a)) (\<lambda>expected.
       if vk_eq E expected reported then Ok () else Err (KeyMismatch a (vk_to_aid E reported)))"

definition check_public_key :: "externals \<Rightarrow> signer \<Rightarrow> (signer_error, unit) result" where
  "check_public_key E sg = and_then (sg_public_key sg) (compare_keys E (sg_aid sg))"

subsection \<open>Lemmas\<close>

text \<open>
  What the primitive libraries document: a signature made with a key verifies under
  its public key and has 64 bytes; \<open>normalize_s\<close> is idempotent and keeps a signature
  valid; a compressed point has 33 bytes, starts with 2 or 3 and decompresses.
\<close>

definition sig_laws :: "externals \<Rightarrow> bool" where
  "sig_laws E \<longleftrightarrow>
     (\<forall>seed m. length seed = 32 \<longrightarrow>
        length (ed25519_public E seed) = 32 \<and> ed25519_valid_point E (ed25519_public E seed) \<and>
        length (ed25519_sign E seed m) = 64 \<and>
        ed25519_verify_strict E (ed25519_public E seed) m (ed25519_sign E seed m)) \<and>
     (\<forall>seed k d. p256_public E seed = Some k \<and> length d = 32 \<longrightarrow>
        (let s = p256_normalize_s E (p256_sign_prehash E seed d) in
         length s = 64 \<and> p256_sig_from_slice E s \<and> p256_normalize_s E s = s \<and>
         Externals.p256_verify_prehash E k d s)) \<and>
     (\<forall>seed k. p256_public E seed = Some k \<longrightarrow>
        length (p256_to_sec1 E True k) = 33 \<and> hd (p256_to_sec1 E True k) \<in> {2, 3} \<and>
        p256_from_sec1 E (p256_to_sec1 E True k) = Some k)"

text \<open>A signing key as the two constructors build it.\<close>

definition sk_wf :: "externals \<Rightarrow> signing_key \<Rightarrow> bool" where
  "sk_wf E k \<longleftrightarrow>
     (\<exists>seed. length seed = 32 \<and> k = from_ed25519_seed E seed) \<or> (\<exists>seed. from_p256_seed E seed = Ok k)"

lemma sk_wf_cases:
  assumes "sk_wf E k"
  obtains (ed) seed where "length seed = 32" "k = SkEd25519 seed (from_ed25519 E (ed25519_public E seed))"
    | (p256) seed pk where "p256_public E seed = Some pk" "k = SkP256 seed pk (from_p256 E (p256_to_sec1 E True pk))"
  using assms by (auto simp: sk_wf_def from_ed25519_seed_def from_p256_seed_def split: option.splits)

lemma sk_aid_wf:
  assumes "b64_laws E" "sig_laws E" "sk_wf E k"
  shows "wf_aid E (sk_aid k)"
  using assms(3)
proof (cases rule: sk_wf_cases)
  case (ed seed)
  with assms(2) show ?thesis
    by (auto simp: sk_aid_def wf_aid_def sig_laws_def intro!: from_ed25519_props [OF assms(1)])
next
  case (p256 seed pk)
  with assms(2) show ?thesis
    by (auto simp: sk_aid_def wf_aid_def sig_laws_def intro!: from_p256_props [OF assms(1)])
qed

lemma vk_from_aid_compressed:
  "vk_from_aid E a =
     (case pubkey_compressed_bytes E a of
        Err _ \<Rightarrow> Err CryptoPanic
      | Ok bs \<Rightarrow>
         (case aid_algorithm a of
            Ed25519 \<Rightarrow> if ed25519_valid_point E bs then Ok (VkEd25519 bs) else Err AidNotEd25519
          | P256 \<Rightarrow> (case p256_from_sec1 E bs of Some k \<Rightarrow> Ok (VkP256 k) | None \<Rightarrow> Err KeyParseFailed)))"
  by (auto simp: vk_from_aid_def pubkey_compressed_bytes_def ok_or_def
      split: aid_algorithm.splits sum.splits option.splits)

lemma vk_from_aid_no_panic: "wf_aid E a \<Longrightarrow> vk_from_aid E a \<noteq> Err CryptoPanic"
  using wf_aid_pubkey [of E a]
  by (auto simp: vk_from_aid_compressed split: aid_algorithm.splits option.splits if_splits)

lemma vk_from_aid_algorithm: "vk_from_aid E a = Ok k \<Longrightarrow> vk_algorithm k = aid_algorithm a"
  by (auto simp: vk_from_aid_compressed vk_algorithm_def split: aid_algorithm.splits option.splits if_splits sum.splits)

lemma vk_from_sk_aid:
  assumes "b64_laws E" "sig_laws E" "sk_wf E k"
  shows "vk_from_aid E (sk_aid k) = Ok (sk_verifying_key E k)"
  using assms(3)
proof (cases rule: sk_wf_cases)
  case (ed seed)
  with assms(2) from_ed25519_props [OF assms(1), of "ed25519_public E seed"] show ?thesis
    by (simp add: sk_aid_def sk_verifying_key_def vk_from_aid_compressed sig_laws_def)
next
  case (p256 seed pk)
  with assms(2) from_p256_props [OF assms(1), of "p256_to_sec1 E True pk"] show ?thesis
    by (simp add: sk_aid_def sk_verifying_key_def vk_from_aid_compressed sig_laws_def)
qed

lemma sk_algorithm_aid:
  assumes "b64_laws E" "sig_laws E" "sk_wf E k"
  shows "aid_algorithm (sk_aid k) = sk_algorithm k"
  using vk_from_aid_algorithm [OF vk_from_sk_aid [OF assms]]
  by (auto simp: vk_algorithm_def sk_verifying_key_def sk_algorithm_def split: signing_key.splits)

lemma b64_no_tag:
  assumes "b64_laws E"
  shows "strip_prefix ''ed25519.'' (b64_encode E bs) = None" "strip_prefix ''p256.'' (b64_encode E bs) = None"
proof -
  have "CHR ''.'' \<notin> set (b64_encode E bs)"
    using base64url_no_special assms unfolding b64_laws_def by blast
  then show "strip_prefix ''ed25519.'' (b64_encode E bs) = None" "strip_prefix ''p256.'' (b64_encode E bs) = None"
    by (auto simp: strip_prefix_eq_None)
qed

lemma signature_from_raw_props:
  assumes "b64_laws E"
  shows "sig_payload (signature_from_raw E alg raw) = b64_encode E raw"
    and "sig_algorithm (signature_from_raw E alg raw) = (case alg of Ed25519 \<Rightarrow> SigEd25519 | P256 \<Rightarrow> SigP256)"
    and "decode_wire_raw E (signature_from_raw E alg raw) = raw"
  using assms b64_no_tag [OF assms, of raw]
  by (auto simp: signature_from_raw_def sig_payload_def sig_algorithm_def decode_wire_raw_def starts_with_def
      b64_laws_def split: aid_algorithm.splits)

lemma verify_jcs_from_raw:
  assumes "b64_laws E"
  shows "verify_jcs E k d (signature_from_raw E alg raw) = Ok () \<longleftrightarrow>
    vk_algorithm k = alg \<and>
    (case k of VkEd25519 vk \<Rightarrow> verify_ed25519 E vk d raw = Ok () | VkP256 vk \<Rightarrow> verify_p256_prehash E vk d raw = Ok ())"
  using assms signature_from_raw_props [OF assms, of alg raw]
  by (auto simp: verify_jcs_def vk_algorithm_def b64_laws_def split: verifying_key.splits aid_algorithm.splits)

lemma sk_sign_raw_length:
  assumes "sig_laws E" "sha_laws E" "sk_wf E k"
  shows "length (sk_sign_raw E k m) = 64"
  using assms(3) assms(1,2)
  by (cases rule: sk_wf_cases) (auto simp: sk_sign_raw_def p256_sign_low_s_def sig_laws_def sha_laws_def Let_def)

lemma sk_sign_raw_verifies:
  assumes "sig_laws E" "sha_laws E" "sk_wf E k"
  shows "verify_raw E (sk_verifying_key E k) m (sk_sign_raw E k m) = Ok ()"
  using assms(3) assms(1,2)
  by (cases rule: sk_wf_cases)
    (auto simp: verify_raw_def sk_verifying_key_def sk_sign_raw_def p256_sign_low_s_def verify_ed25519_def
      verify_p256_prehash_def raw_signature_len_def sig_laws_def sha_laws_def Let_def)

definition sk_raw_of_digest :: "externals \<Rightarrow> signing_key \<Rightarrow> bytes \<Rightarrow> bytes" where
  "sk_raw_of_digest E k d = (case k of SkEd25519 seed _ \<Rightarrow> ed25519_sign E seed d | SkP256 seed _ _ \<Rightarrow> p256_sign_low_s E seed d)"

lemma sk_sign_jcs_from_raw: "sk_sign_jcs E k d = signature_from_raw E (sk_algorithm k) (sk_raw_of_digest E k d)"
  by (auto simp: sk_sign_jcs_def signature_from_raw_def sk_algorithm_def sk_raw_of_digest_def split: signing_key.splits)

lemma sk_sign_jcs_verifies:
  assumes "b64_laws E" "sig_laws E" "sk_wf E k" "length d = 32"
  shows "verify_jcs E (sk_verifying_key E k) d (sk_sign_jcs E k d) = Ok ()"
  unfolding sk_sign_jcs_from_raw verify_jcs_from_raw [OF assms(1)]
  using assms(3) assms(2,4)
  by (cases rule: sk_wf_cases)
    (auto simp: sk_algorithm_def sk_verifying_key_def vk_algorithm_def verify_ed25519_def sk_raw_of_digest_def
      p256_sign_low_s_def verify_p256_prehash_def raw_signature_len_def sig_laws_def Let_def)

lemma decode_wire_raw_sk_sign_jcs:
  "b64_laws E \<Longrightarrow> decode_wire_raw E (sk_sign_jcs E k d) = sk_raw_of_digest E k d"
  unfolding sk_sign_jcs_from_raw by (rule signature_from_raw_props(3))

lemma finalize_sound:
  assumes "finalize E a alg t sig = Ok raw"
  shows "\<exists>vk. vk_from_aid E a = Ok vk \<and>
    (case t of Jcs d \<Rightarrow> verify_jcs E vk d (signature_from_raw E alg raw) = Ok ()
             | RawMsg m \<Rightarrow> verify_raw E vk m raw = Ok ())"
  using assms by (auto simp: finalize_def split: sign_target.splits)

lemma local_key_Some: "local_key ko a = Some k \<longleftrightarrow> ko = Some k \<and> sk_aid k = a"
  by (auto simp: local_key_def split: option.splits)

lemma sign_target_sound:
  assumes laws: "b64_laws E" "sig_laws E" "sha_laws E"
    and local: "\<forall>k. sg_signing_key sg = Some k \<longrightarrow> sk_wf E k"
    and ok: "sign_target E sg t = Ok raw" and digest: "\<forall>d. t = Jcs d \<longrightarrow> length d = 32"
  shows "\<exists>vk. vk_from_aid E (sg_aid sg) = Ok vk \<and>
    (case t of Jcs d \<Rightarrow> verify_jcs E vk d (signature_from_raw E (aid_algorithm (sg_aid sg)) raw) = Ok ()
             | RawMsg m \<Rightarrow> verify_raw E vk m raw = Ok ())"
proof (cases "local_key (sg_signing_key sg) (sg_aid sg)")
  case None
  with ok obtain sig where "finalize E (sg_aid sg) (aid_algorithm (sg_aid sg)) t sig = Ok raw"
    by (auto simp: sign_target_def Let_def)
  then show ?thesis by (rule finalize_sound)
next
  case (Some k)
  then have k: "sk_wf E k" "sk_aid k = sg_aid sg"
    using local by (simp_all add: local_key_Some)
  have raw: "raw = sign_local E k t" using ok Some by (simp add: sign_target_def Let_def)
  note vk = vk_from_sk_aid [OF laws(1,2) k(1), unfolded k(2)]
  note alg = sk_algorithm_aid [OF laws(1,2) k(1), unfolded k(2)]
  show ?thesis
  proof (cases t)
    case (Jcs d)
    then have "signature_from_raw E (aid_algorithm (sg_aid sg)) raw = sk_sign_jcs E k d"
      by (simp add: raw sign_local_def decode_wire_raw_sk_sign_jcs [OF laws(1)] alg)
        (simp add: sk_sign_jcs_from_raw)
    with vk sk_sign_jcs_verifies [OF laws(1,2) k(1)] digest Jcs show ?thesis by auto
  next
    case (RawMsg m)
    with vk sk_sign_raw_verifies [OF laws(2,3) k(1)] show ?thesis by (simp add: raw sign_local_def)
  qed
qed

lemma signer_sign_jcs_sound:
  assumes "b64_laws E" "sig_laws E" "sha_laws E" "\<forall>k. sg_signing_key sg = Some k \<longrightarrow> sk_wf E k"
    and "signer_sign_jcs E sg d = Ok sig" "length d = 32"
  shows "\<exists>vk. vk_from_aid E (sg_aid sg) = Ok vk \<and> verify_jcs E vk d sig = Ok ()"
  using sign_target_sound [OF assms(1-4), of "Jcs d"] assms(5,6) by (auto simp: signer_sign_jcs_def)

lemma signer_sign_raw_sound:
  assumes "b64_laws E" "sig_laws E" "sha_laws E" "\<forall>k. sg_signing_key sg = Some k \<longrightarrow> sk_wf E k"
    and "signer_sign_raw E sg m = Ok raw"
  shows "\<exists>vk. vk_from_aid E (sg_aid sg) = Ok vk \<and> verify_raw E vk m raw = Ok ()"
  using sign_target_sound [OF assms(1-4), of "RawMsg m"] assms(5) by (auto simp: signer_sign_raw_def)

lemma key_signer_raw:
  assumes "b64_laws E" "sig_laws E" "sk_wf E k"
  shows "signer_sign_raw E (key_signer E k) m = Ok (sk_sign_raw E k m)"
  by (simp add: signer_sign_raw_def sign_target_def key_signer_def local_key_def sign_local_def Let_def)

lemma key_signer_jcs:
  assumes "b64_laws E" "sig_laws E" "sk_wf E k"
  shows "signer_sign_jcs E (key_signer E k) d = Ok (sk_sign_jcs E k d)"
  using sk_algorithm_aid [OF assms]
  by (simp add: signer_sign_jcs_def sign_target_def key_signer_def local_key_def sign_local_def Let_def
      decode_wire_raw_sk_sign_jcs [OF assms(1)]) (simp add: sk_sign_jcs_from_raw)

text \<open>The two ways to write an Ed25519 AID name one key and are different strings.\<close>

lemma tagged_aid_same_key:
  assumes "b64_laws E" "length pk = 32"
  shows "vk_from_aid E (from_ed25519_tagged E pk) = vk_from_aid E (from_ed25519 E pk) \<and> from_ed25519_tagged E pk \<noteq> from_ed25519 E pk"
proof
  have bytes: "try_to_ed25519_bytes E a = Ok (Some pk)"
    if "pubkey_compressed_bytes E a = Ok pk" "aid_algorithm a = Ed25519" for a
    using that by (auto simp: pubkey_compressed_bytes_def try_to_ed25519_bytes_def split: option.splits)
  show "vk_from_aid E (from_ed25519_tagged E pk) = vk_from_aid E (from_ed25519 E pk)"
    using from_ed25519_props [OF assms] from_ed25519_tagged_props [OF assms] by (simp add: vk_from_aid_def bytes)
  show "from_ed25519_tagged E pk \<noteq> from_ed25519 E pk"
    by (simp add: from_ed25519_tagged_def from_ed25519_def aid_prefixes)
qed

end
