(* ===== verification/Crypto_Jws.thy ===== *)
theory Crypto_Jws
  imports Crypto_Keys "HOL-Library.List_Lexorder" "HOL-Library.Char_ord"
begin

text \<open>
  The compact JWS profile of \<open>crypto/jws.rs\<close> and the canonical JSON signing input of
  \<open>core/jcs.rs\<close>: strict three-segment parsing, the header with exactly \<open>alg\<close> and
  \<open>typ\<close>, the algorithm pinned to the signer's AID, and the signature over the
  transmitted bytes.

  Shown here: what an accepted token establishes, that what \<open>sign_compact\<close> mints is
  accepted, that no token is accepted under two types, and that a token accepted
  under an AID never carries another algorithm.
\<close>

definition TYP_TCT :: string where "TYP_TCT = ''aitp-tct+jwt''"
definition TYP_GRANT_VOUCHER :: string where "TYP_GRANT_VOUCHER = ''aitp-grant+jwt''"
definition TYP_DELEGATION :: string where "TYP_DELEGATION = ''aitp-delegation+jwt''"

lemmas jws_typs = TYP_TCT_def TYP_GRANT_VOUCHER_def TYP_DELEGATION_def

definition jose_alg :: "aid_algorithm \<Rightarrow> string" where
  "jose_alg a = (case a of Ed25519 \<Rightarrow> ''EdDSA'' | P256 \<Rightarrow> ''ES256'')"

record jws_header =
  hd_alg :: string
  hd_typ :: string

definition jws_header_fields :: "field_spec list" where
  "jws_header_fields = [(''alg'', Required, de_void de_string), (''typ'', Required, de_void de_string)]"

definition de_jws_header :: "json \<Rightarrow> (serde_error, jws_header) result" where
  "de_jws_header j =
     and_then (de_struct jws_header_fields j) (\<lambda>ms.
     and_then (de_field ms ''alg'' de_string) (\<lambda>alg.
     and_then (de_field ms ''typ'' de_string) (\<lambda>typ.
     Ok \<lparr>hd_alg = alg, hd_typ = typ\<rparr>)))"

definition split_strict :: "string \<Rightarrow> (crypto_error, string \<times> string \<times> string) result" where
  "split_strict token =
     (case split_on CHR ''.'' token of
        [h, p, s] \<Rightarrow> if h \<noteq> [] \<and> p \<noteq> [] \<and> s \<noteq> [] then Ok (h, p, s) else Err JwsMalformed
      | _ \<Rightarrow> Err JwsMalformed)"

definition canonicalize :: "externals \<Rightarrow> json \<Rightarrow> bytes option" where
  "canonicalize E v = jcs_to_vec E v"

definition canonicalize_and_hash_sha256 :: "externals \<Rightarrow> json \<Rightarrow> bytes option" where
  "canonicalize_and_hash_sha256 E v = map_option (sha256 E) (canonicalize E v)"

definition compact_header :: "string \<Rightarrow> string \<Rightarrow> string" where
  "compact_header alg typ = ''{\"alg\":\"'' @ alg @ ''\",\"typ\":\"'' @ typ @ ''\"}''"

definition compact_signing_input :: "externals \<Rightarrow> aid \<Rightarrow> string \<Rightarrow> json \<Rightarrow> (crypto_error, string) result" where
  "compact_signing_input E a typ claims =
     (if list_ex (\<lambda>b. b = 0x22 \<or> b = 0x5c \<or> b < 0x20) (str_bytes typ) then Err JwsMalformed
      else
        let header = compact_header (jose_alg (aid_algorithm a)) typ in
        and_then (ok_or JwsMalformed (canonicalize E claims)) (\<lambda>payload.
        Ok (encode E (str_bytes header) @ ''.'' @ encode E payload)))"

definition sign_compact :: "externals \<Rightarrow> signer \<Rightarrow> string \<Rightarrow> json \<Rightarrow> (crypto_error, string) result" where
  "sign_compact E sg typ claims =
     and_then (compact_signing_input E (sg_aid sg) typ claims) (\<lambda>signing_input.
     and_then (map_err SignerFailed (signer_sign_raw E sg (str_bytes signing_input))) (\<lambda>sig.
     Ok (signing_input @ ''.'' @ encode E sig)))"

definition verify_compact :: "externals \<Rightarrow> aid \<Rightarrow> string \<Rightarrow> string \<Rightarrow> (crypto_error, bytes) result" where
  "verify_compact E signer expected_typ token =
     and_then (split_strict token) (\<lambda>(header_b64, payload_b64, sig_b64).
     and_then (map_err (\<lambda>_. JwsMalformed) (decode_strict E header_b64)) (\<lambda>header_bytes.
     and_then (map_err (\<lambda>_. JwsMalformed) (decode_strict E payload_b64)) (\<lambda>payload.
     and_then (map_err (\<lambda>_. JwsMalformed) (decode_strict E sig_b64)) (\<lambda>sig_bytes.
     and_then (map_err (\<lambda>_. JwsMalformed) (and_then (json_document E header_bytes) de_jws_header)) (\<lambda>header.
     if hd_typ header \<noteq> expected_typ then Err (TypMismatch expected_typ (hd_typ header))
     else if hd_alg header \<noteq> jose_alg (aid_algorithm signer) then Err AlgMismatch
     else
     and_then (vk_from_aid E signer) (\<lambda>vk.
     let signing_input = take (length header_b64 + 1 + length payload_b64) (str_bytes token) in
     and_then (verify_raw E vk signing_input sig_bytes) (\<lambda>_.
     case value_from_slice E payload of
       Ok (JObj _) \<Rightarrow> Ok payload
     | _ \<Rightarrow> Err JwsMalformed)))))))"

definition decode_payload_unverified :: "externals \<Rightarrow> string \<Rightarrow> (crypto_error, bytes) result" where
  "decode_payload_unverified E token =
     and_then (split_strict token) (\<lambda>(_, payload_b64, _).
       map_err (\<lambda>_. JwsMalformed) (decode_strict E payload_b64))"

definition peek_typ :: "externals \<Rightarrow> string \<Rightarrow> string option" where
  "peek_typ E token =
     (case decode_strict E (hd (split_on CHR ''.'' token)) of
        Err _ \<Rightarrow> None
      | Ok header_bytes \<Rightarrow>
          (case value_from_slice E header_bytes of
             Err _ \<Rightarrow> None
           | Ok v \<Rightarrow> Option.bind (json_get ''typ'' v) json_as_str))"

subsection \<open>Lemmas\<close>

lemma split_on_three:
  "split_on c t = [h, p, s] \<longleftrightarrow> t = h @ c # p @ c # s \<and> c \<notin> set h \<and> c \<notin> set p \<and> c \<notin> set s"
proof
  show "t = h @ c # p @ c # s \<and> c \<notin> set h \<and> c \<notin> set p \<and> c \<notin> set s \<Longrightarrow> split_on c t = [h, p, s]"
    by (simp add: split_on_append_sep split_on_no_sep)
  assume *: "split_on c t = [h, p, s]"
  have join: "t = concat (map (\<lambda>x. x @ [c]) (butlast (split_on c t))) @ last (split_on c t)"
    by (induction t) (auto split: list.splits)
  have "c \<notin> set h" "c \<notin> set p" "c \<notin> set s" using split_on_parts [of _ c t] * by auto
  with join * show "t = h @ c # p @ c # s \<and> c \<notin> set h \<and> c \<notin> set p \<and> c \<notin> set s" by simp
qed

lemma split_strict_Ok:
  "split_strict t = Ok (h, p, s) \<longleftrightarrow>
     t = h @ ''.'' @ p @ ''.'' @ s \<and> CHR ''.'' \<notin> set h \<and> CHR ''.'' \<notin> set p \<and> CHR ''.'' \<notin> set s \<and>
     h \<noteq> [] \<and> p \<noteq> [] \<and> s \<noteq> []"
proof -
  have "split_strict t = Ok (h, p, s) \<longleftrightarrow>
      split_on CHR ''.'' t = [h, p, s] \<and> h \<noteq> [] \<and> p \<noteq> [] \<and> s \<noteq> []"
    by (auto simp: split_strict_def split: list.splits if_splits)
  then show ?thesis by (simp add: split_on_three)
qed

lemma decode_strict_Ok: "decode_strict E s = Ok bs \<longleftrightarrow> CHR ''='' \<notin> set s \<and> b64_decode E s = Some bs"
  by (auto simp: decode_strict_def split: option.splits)

lemma decode_strict_encode: "b64_laws E \<Longrightarrow> decode_strict E (encode E bs) = Ok bs"
  using base64url_no_special [of "b64_encode E bs"] by (simp add: decode_strict_Ok encode_def b64_laws_def)

lemma encode_props:
  assumes "b64_laws E"
  shows "CHR ''.'' \<notin> set (encode E bs)" "bs \<noteq> [] \<Longrightarrow> encode E bs \<noteq> []"
proof -
  show "CHR ''.'' \<notin> set (encode E bs)"
    using base64url_no_special [of "b64_encode E bs"] assms by (simp add: encode_def b64_laws_def)
  assume "bs \<noteq> []"
  then have "(length bs * 4 + 2) div 3 > 0" by (cases bs) simp_all
  with assms have "length (encode E bs) > 0" by (simp add: encode_def b64_laws_def)
  then show "encode E bs \<noteq> []" by auto
qed

text \<open>What an accepted token establishes, all of it over the transmitted bytes.\<close>

lemma verify_compact_Ok:
  "verify_compact E a typ token = Ok payload \<longleftrightarrow>
     (\<exists>h p s hb sb hj vk ms.
        split_strict token = Ok (h, p, s) \<and>
        decode_strict E h = Ok hb \<and> decode_strict E p = Ok payload \<and> decode_strict E s = Ok sb \<and>
        json_document E hb = Ok hj \<and> de_jws_header hj = Ok \<lparr>hd_alg = jose_alg (aid_algorithm a), hd_typ = typ\<rparr> \<and>
        vk_from_aid E a = Ok vk \<and> verify_raw E vk (str_bytes (h @ ''.'' @ p)) sb = Ok () \<and>
        value_from_slice E payload = Ok (JObj ms))"
  (is "_ \<longleftrightarrow> ?R")
proof
  have take: "take (length h + 1 + length p) (str_bytes token) = str_bytes (h @ ''.'' @ p)"
    if "split_strict token = Ok (h, p, s)" for h p s
    using that by (simp add: split_strict_Ok str_bytes_def)
  show "verify_compact E a typ token = Ok payload \<Longrightarrow> ?R"
    using take
    by (fastforce simp: verify_compact_def Let_def split: if_splits json.splits sum.splits)
  assume ?R
  then obtain h p s hb sb hj vk ms where r: "split_strict token = Ok (h, p, s)"
    "decode_strict E h = Ok hb" "decode_strict E p = Ok payload" "decode_strict E s = Ok sb"
    "json_document E hb = Ok hj" "de_jws_header hj = Ok \<lparr>hd_alg = jose_alg (aid_algorithm a), hd_typ = typ\<rparr>"
    "vk_from_aid E a = Ok vk" "verify_raw E vk (str_bytes (h @ ''.'' @ p)) sb = Ok ()"
    "value_from_slice E payload = Ok (JObj ms)" by blast
  then show "verify_compact E a typ token = Ok payload"
    by (simp only: verify_compact_def Let_def take [OF r(1)] and_then_simps map_err_simps prod.case
        jws_header.simps sum.case json.case) simp
qed

subsection \<open>Minting and verifying\<close>

text \<open>The canonical form of a document: members sorted by key at every depth.\<close>

fun jcs_sort :: "json \<Rightarrow> json" where
  "jcs_sort (JArr xs) = JArr (map jcs_sort xs)"
| "jcs_sort (JObj ms) = JObj (sort_key fst (map (\<lambda>kv. (fst kv, jcs_sort (snd kv))) ms))"
| "jcs_sort j = j"

text \<open>
  What \<open>serde_jcs\<close> and \<open>serde_json\<close> document about one document: it prints to some
  text, and that text parses as the canonical form of the document.
\<close>

definition jcs_prints :: "externals \<Rightarrow> json \<Rightarrow> bytes \<Rightarrow> bool" where
  "jcs_prints E j bs \<longleftrightarrow> jcs_to_vec E j = Some bs \<and> bs \<noteq> [] \<and> json_next E bs = Some (jcs_sort j, [])"

text \<open>The two-member header text parses as the object it spells.\<close>

definition header_parses :: "externals \<Rightarrow> string \<Rightarrow> string \<Rightarrow> bool" where
  "header_parses E alg typ \<longleftrightarrow>
     json_next E (str_bytes (compact_header alg typ)) = Some (JObj [(''alg'', JStr alg), (''typ'', JStr typ)], [])"

lemma distinct_fst_sort: "distinct (map fst ms) \<Longrightarrow> distinct (map fst (sort_key fst ms))"
  by (simp add: distinct_map)

lemma unique_keys_jcs_sort: "unique_keys j \<Longrightarrow> unique_keys (jcs_sort j)"
proof (induction j rule: jcs_sort.induct)
  case (2 ms)
  let ?f = "\<lambda>kv. (fst kv, jcs_sort (snd kv))"
  have "distinct (map fst (map ?f ms))" using 2 by (simp add: comp_def)
  then have "distinct (map fst (sort_key fst (map ?f ms)))" by (rule distinct_fst_sort)
  with 2 show ?case by (auto simp: list_all_iff)
qed (auto simp: list_all_iff)

lemma map_of_sort_key: "distinct (map fst ms) \<Longrightarrow> map_of (sort_key fst ms) = map_of ms"
  using map_of_inject_set [OF distinct_fst_sort, of ms ms] by simp

lemma json_document_prints: "jcs_prints E j bs \<Longrightarrow> json_document E bs = Ok (jcs_sort j)"
  by (simp add: jcs_prints_def json_document_def)

lemma value_of_prints:
  "jcs_prints E j bs \<Longrightarrow> unique_keys j \<Longrightarrow> value_from_slice E bs = Ok (jcs_sort j)"
  by (simp add: value_from_slice_def json_document_prints to_value_unique unique_keys_jcs_sort)

lemma verify_raw_length: "verify_raw E vk m sig = Ok () \<Longrightarrow> length sig = 64"
  by (auto simp: verify_raw_def verify_ed25519_def verify_p256_prehash_def raw_signature_len_def
      split: verifying_key.splits if_splits)

lemma de_jws_header_compact:
  "de_jws_header (JObj [(''alg'', JStr alg), (''typ'', JStr typ)]) = Ok \<lparr>hd_alg = alg, hd_typ = typ\<rparr>"
  by (simp add: de_jws_header_def de_struct_def jws_header_fields_def de_void_def de_field_def)

text \<open>The derived visitor reads a header from an array too, in the order of the fields.\<close>

lemma array_header_accepted: "de_jws_header (JArr [JStr alg, JStr ty]) = Ok \<lparr>hd_alg = alg, hd_typ = ty\<rparr>"
  by (simp add: de_jws_header_def jws_header_fields_def de_struct_def de_field_def de_void_def)

lemma compact_header_nonempty: "str_bytes (compact_header alg typ) \<noteq> []"
  by (simp add: compact_header_def str_bytes_def)

lemma sign_compact_verifies:
  assumes laws: "b64_laws E" "sig_laws E" "sha_laws E"
    and local: "\<forall>k. sg_signing_key sg = Some k \<longrightarrow> sk_wf E k"
    and header: "header_parses E (jose_alg (aid_algorithm (sg_aid sg))) typ"
    and claims: "jcs_prints E (JObj ms) payload" "unique_keys (JObj ms)"
    and token: "sign_compact E sg typ (JObj ms) = Ok token"
  shows "verify_compact E (sg_aid sg) typ token = Ok payload"
proof -
  let ?alg = "jose_alg (aid_algorithm (sg_aid sg))"
  let ?hb = "str_bytes (compact_header ?alg typ)"
  let ?h = "encode E ?hb" and ?p = "encode E payload"
  obtain sb where sb: "signer_sign_raw E sg (str_bytes (?h @ ''.'' @ ?p)) = Ok sb"
    and tok: "token = ?h @ ''.'' @ ?p @ ''.'' @ encode E sb"
    using token claims(1)
    by (auto simp: sign_compact_def compact_signing_input_def canonicalize_def jcs_prints_def Let_def split: if_splits)
  obtain vk where vk: "vk_from_aid E (sg_aid sg) = Ok vk" "verify_raw E vk (str_bytes (?h @ ''.'' @ ?p)) sb = Ok ()"
    using signer_sign_raw_sound [OF laws local sb] by blast
  have "payload \<noteq> []" "sb \<noteq> []" using claims(1) verify_raw_length [OF vk(2)] by (auto simp: jcs_prints_def)
  then have "split_strict token = Ok (?h, ?p, encode E sb)"
    using encode_props [OF laws(1)] compact_header_nonempty by (simp add: tok split_strict_Ok)
  moreover have "json_document E ?hb = Ok (JObj [(''alg'', JStr ?alg), (''typ'', JStr typ)])"
    using header by (simp add: json_document_def header_parses_def)
  moreover have "value_from_slice E payload = Ok (jcs_sort (JObj ms))"
    by (rule value_of_prints [OF claims])
  ultimately show ?thesis
    unfolding verify_compact_Ok
    using decode_strict_encode [OF laws(1)] de_jws_header_compact vk by auto
qed

text \<open>With an in-process key minting does not fail.\<close>

lemma sign_compact_total:
  assumes "b64_laws E" "sig_laws E" "sk_wf E k" "jcs_to_vec E claims = Some payload"
    and "\<not> list_ex (\<lambda>b. b = 0x22 \<or> b = 0x5c \<or> b < 0x20) (str_bytes typ)"
  shows "\<exists>token. sign_compact E (key_signer E k) typ claims = Ok token"
  using assms(4,5) key_signer_raw [OF assms(1-3)]
  by (simp add: sign_compact_def compact_signing_input_def canonicalize_def Let_def)

subsection \<open>Properties\<close>

text \<open>
  No token is accepted under two types, whoever the signers are: a grant voucher is
  never taken for a trust context token or for a delegation token.
\<close>

lemma verify_compact_typ_unique:
  assumes "verify_compact E a typ token = Ok payload" "verify_compact E b typ' token = Ok payload'"
  shows "typ = typ' \<and> payload = payload' \<and> aid_algorithm a = aid_algorithm b"
proof -
  have inj: "jose_alg x = jose_alg y \<Longrightarrow> x = y" for x y
    by (cases x; cases y) (simp_all add: jose_alg_def)
  from assms show ?thesis
    unfolding verify_compact_Ok by (auto dest: inj)
qed

end
