(* ===== verification/Tct_Types.thy ===== *)
theory Tct_Types
  imports Crypto_Jws
begin

text \<open>
  Trust context tokens and grant vouchers as data (\<open>tct/types.rs\<close>, \<open>tct/error.rs\<close>,
  \<open>core/extensions.rs\<close>): the claim records, their JSON form and the strict typed parse.
  Shown here: a well-formed claim set printed in canonical form parses back.
\<close>

definition PROTOCOL_VERSION :: string where "PROTOCOL_VERSION = ''aitp/0.3''"

definition ATTESTATION_GRANT :: string where "ATTESTATION_GRANT = ''aitp.attestation''"

definition DEFAULT_TCT_TTL :: duration where "DEFAULT_TCT_TTL = from_secs 3600"

subsection \<open>Extensions\<close>

text \<open>A \<open>BTreeMap\<close> from strings to values: sorted by key, one entry per key.\<close>

type_synonym extensions_map = "(string \<times> json) list"

fun ext_insert :: "string \<Rightarrow> json \<Rightarrow> extensions_map \<Rightarrow> extensions_map" where
  "ext_insert k v [] = [(k, v)]"
| "ext_insert k v ((k', v') # m) =
     (if k < k' then (k, v) # (k', v') # m
      else if k = k' then (k, v) # m
      else (k', v') # ext_insert k v m)"

definition ext_collect :: "(string \<times> json) list \<Rightarrow> extensions_map" where
  "ext_collect ms = fold (\<lambda>(k, v) acc. ext_insert k v acc) ms []"

definition ext_get :: "extensions_map \<Rightarrow> string \<Rightarrow> json option" where
  "ext_get m k = map_of m k"

fun de_ext :: "json \<Rightarrow> (serde_error, extensions_map) result" where
  "de_ext (JObj ms) = Ok (ext_collect (map (\<lambda>kv. (fst kv, to_value (snd kv))) ms))"
| "de_ext _ = Err SerdeOther"

definition wf_ext :: "extensions_map \<Rightarrow> bool" where
  "wf_ext m \<longleftrightarrow> sorted (map fst m) \<and> distinct (map fst m) \<and> list_all (\<lambda>kv. unique_keys (snd kv)) m"

definition canon_ext :: "extensions_map \<Rightarrow> extensions_map" where
  "canon_ext m = map (\<lambda>kv. (fst kv, jcs_sort (snd kv))) m"

subsection \<open>Claims\<close>

record cnf =
  jkt :: string

record tct_claims =
  tct_ver :: string
  tct_jti :: uuid
  tct_iss :: aid
  tct_sub :: aid
  tct_aud :: aid
  tct_iat :: timestamp
  tct_exp :: timestamp
  tct_grants :: "string list"
  tct_cnf :: cnf
  tct_ext :: "extensions_map option"

definition TCT_CLAIMS_MEMBERS :: "string list" where
  "TCT_CLAIMS_MEMBERS =
     [''ver'', ''jti'', ''iss'', ''sub'', ''aud'', ''iat'', ''exp'', ''grants'', ''cnf'', ''ext'']"

record grant_voucher_claims =
  gv_ver :: string
  gv_iss :: aid
  gv_sub :: aid
  gv_grants :: "string list"
  gv_iat :: timestamp
  gv_exp :: timestamp
  gv_src_jti :: uuid
  gv_ext :: "extensions_map option"

definition GRANT_VOUCHER_CLAIMS_MEMBERS :: "string list" where
  "GRANT_VOUCHER_CLAIMS_MEMBERS =
     [''ver'', ''iss'', ''sub'', ''grants'', ''iat'', ''exp'', ''src_jti'', ''ext'']"

record issued_tct =
  it_token :: string
  it_claims :: tct_claims
  it_voucher :: "string option"

record verified_tct =
  vt_token :: string
  vt_claims :: tct_claims
  vt_effective_grants :: "string list"

record verified_attestation =
  va_token :: string
  va_claims :: tct_claims
  va_statement :: json

subsection \<open>Errors\<close>

datatype tct_error =
    VersionUnknown
  | TctSignatureInvalid
  | IssuerMismatch
  | AudienceMismatch
  | TctExpired
  | ExpiresAfterManifest
  | TctRevoked
  | RevocationUnavailable
  | EmptyGrants
  | GrantWhitespace string
  | CnfMalformed
  | ClaimsMalformed
  | UnknownField string
  | MissingField string
  | Canonicalization
  | PopNonceMismatch
  | PopFailed
  | PopChallengeExpired
  | PopJtiMismatch
  | JtiNotV4 v4_error
  | InvalidJtiTag
  | SelfIssued
  | AttestationMarker
  | NotAttestation
  | AttestationStatementMissing string
  | TctCrypto crypto_error
  | SafeSubsetEmpty

subsection \<open>JSON form\<close>

definition de_cnf :: "json \<Rightarrow> (serde_error, cnf) result" where
  "de_cnf j =
     and_then (de_struct [(''jkt'', Required, de_void de_string)] j) (\<lambda>ms.
     and_then (de_field ms ''jkt'' de_string) (\<lambda>s. Ok \<lparr>jkt = s\<rparr>))"

definition tct_fields :: "externals \<Rightarrow> field_spec list" where
  "tct_fields E =
     [(''ver'', Required, de_void de_string), (''jti'', Required, de_void (de_v4 E)),
      (''iss'', Required, de_void (de_aid E)), (''sub'', Required, de_void (de_aid E)),
      (''aud'', Required, de_void (de_aid E)), (''iat'', Required, de_void de_i64),
      (''exp'', Required, de_void de_i64), (''grants'', Required, de_void (de_vec de_string)),
      (''cnf'', Required, de_void de_cnf), (''ext'', Optional, de_void_opt de_ext)]"

definition de_tct_claims :: "externals \<Rightarrow> json \<Rightarrow> (serde_error, tct_claims) result" where
  "de_tct_claims E j =
     and_then (de_struct (tct_fields E) j) (\<lambda>ms.
     and_then (de_field ms ''ver'' de_string) (\<lambda>ver.
     and_then (de_field ms ''jti'' (de_v4 E)) (\<lambda>jti.
     and_then (de_field ms ''iss'' (de_aid E)) (\<lambda>iss.
     and_then (de_field ms ''sub'' (de_aid E)) (\<lambda>sub.
     and_then (de_field ms ''aud'' (de_aid E)) (\<lambda>aud.
     and_then (de_field ms ''iat'' de_i64) (\<lambda>iat.
     and_then (de_field ms ''exp'' de_i64) (\<lambda>exp.
     and_then (de_field ms ''grants'' (de_vec de_string)) (\<lambda>grants.
     and_then (de_field ms ''cnf'' de_cnf) (\<lambda>cnf.
     and_then (de_opt_field ms ''ext'' de_ext) (\<lambda>ext.
     Ok \<lparr>tct_ver = ver, tct_jti = jti, tct_iss = iss, tct_sub = sub, tct_aud = aud, tct_iat = iat,
         tct_exp = exp, tct_grants = grants, tct_cnf = cnf, tct_ext = ext\<rparr>)))))))))))"

definition voucher_fields :: "externals \<Rightarrow> field_spec list" where
  "voucher_fields E =
     [(''ver'', Required, de_void de_string), (''iss'', Required, de_void (de_aid E)),
      (''sub'', Required, de_void (de_aid E)), (''grants'', Required, de_void (de_vec de_string)),
      (''iat'', Required, de_void de_i64), (''exp'', Required, de_void de_i64),
      (''src_jti'', Required, de_void (de_v4 E)), (''ext'', Optional, de_void_opt de_ext)]"

definition de_voucher_claims :: "externals \<Rightarrow> json \<Rightarrow> (serde_error, grant_voucher_claims) result" where
  "de_voucher_claims E j =
     and_then (de_struct (voucher_fields E) j) (\<lambda>ms.
     and_then (de_field ms ''ver'' de_string) (\<lambda>ver.
     and_then (de_field ms ''iss'' (de_aid E)) (\<lambda>iss.
     and_then (de_field ms ''sub'' (de_aid E)) (\<lambda>sub.
     and_then (de_field ms ''grants'' (de_vec de_string)) (\<lambda>grants.
     and_then (de_field ms ''iat'' de_i64) (\<lambda>iat.
     and_then (de_field ms ''exp'' de_i64) (\<lambda>exp.
     and_then (de_field ms ''src_jti'' (de_v4 E)) (\<lambda>src_jti.
     and_then (de_opt_field ms ''ext'' de_ext) (\<lambda>ext.
     Ok \<lparr>gv_ver = ver, gv_iss = iss, gv_sub = sub, gv_grants = grants, gv_iat = iat, gv_exp = exp,
         gv_src_jti = src_jti, gv_ext = ext\<rparr>)))))))))"

definition ser_aid :: "aid \<Rightarrow> json" where
  "ser_aid a = JStr (aid_as_str a)"

definition ser_time :: "timestamp \<Rightarrow> json" where
  "ser_time t = JInt (sint t)"

definition ser_strings :: "string list \<Rightarrow> json" where
  "ser_strings xs = JArr (map JStr xs)"

definition opt_member :: "string \<Rightarrow> extensions_map option \<Rightarrow> (string \<times> json) list" where
  "opt_member k e = (case e of None \<Rightarrow> [] | Some m \<Rightarrow> [(k, JObj m)])"

definition tct_members :: "externals \<Rightarrow> tct_claims \<Rightarrow> (string \<times> json) list" where
  "tct_members E c =
     [(''ver'', JStr (tct_ver c)), (''jti'', ser_v4 E (tct_jti c)), (''iss'', ser_aid (tct_iss c)),
      (''sub'', ser_aid (tct_sub c)), (''aud'', ser_aid (tct_aud c)), (''iat'', ser_time (tct_iat c)),
      (''exp'', ser_time (tct_exp c)), (''grants'', ser_strings (tct_grants c)),
      (''cnf'', JObj [(''jkt'', JStr (jkt (tct_cnf c)))])] @ opt_member ''ext'' (tct_ext c)"

definition ser_tct_claims :: "externals \<Rightarrow> tct_claims \<Rightarrow> json" where
  "ser_tct_claims E c = JObj (tct_members E c)"

definition voucher_members :: "externals \<Rightarrow> grant_voucher_claims \<Rightarrow> (string \<times> json) list" where
  "voucher_members E c =
     [(''ver'', JStr (gv_ver c)), (''iss'', ser_aid (gv_iss c)), (''sub'', ser_aid (gv_sub c)),
      (''grants'', ser_strings (gv_grants c)), (''iat'', ser_time (gv_iat c)), (''exp'', ser_time (gv_exp c)),
      (''src_jti'', ser_v4 E (gv_src_jti c))] @ opt_member ''ext'' (gv_ext c)"

definition ser_voucher_claims :: "externals \<Rightarrow> grant_voucher_claims \<Rightarrow> json" where
  "ser_voucher_claims E c = JObj (voucher_members E c)"

subsection \<open>Printing and parsing\<close>

lemma ext_insert_last: "\<forall>k'\<in>fst ` set m. k' < k \<Longrightarrow> ext_insert k v m = m @ [(k, v)]"
proof (induction m)
  case (Cons a m)
  obtain k' v' where a: "a = (k', v')" by (cases a)
  with Cons.prems have "k' < k" by simp
  then have "\<not> k < k'" "k \<noteq> k'" by auto
  with Cons show ?case by (simp add: a)
qed simp

lemma ext_collect_acc:
  "sorted (map fst (acc @ ms)) \<Longrightarrow> distinct (map fst (acc @ ms)) \<Longrightarrow>
     fold (\<lambda>(k, v) acc. ext_insert k v acc) ms acc = acc @ ms"
proof (induction ms arbitrary: acc)
  case (Cons m ms)
  obtain k v where m: "m = (k, v)" by (cases m)
  have "k' < k" if "k' \<in> fst ` set acc" for k'
  proof -
    have "k' \<le> k" "k' \<noteq> k" using Cons.prems that by (auto simp: m sorted_append)
    then show ?thesis by simp
  qed
  then have "ext_insert k v acc = acc @ [(k, v)]" by (intro ext_insert_last) blast
  with Cons.IH [of "acc @ [(k, v)]"] Cons.prems show ?case by (simp add: m)
qed simp

lemma ext_collect_wf: "wf_ext m \<Longrightarrow> ext_collect m = m"
  using ext_collect_acc [of "[]" m] by (simp add: ext_collect_def wf_ext_def)

lemma sort_key_id: "sorted (map f xs) \<Longrightarrow> sort_key f xs = xs"
proof (induction xs)
  case (Cons x xs)
  then show ?case by (simp add: insort_is_Cons)
qed simp

lemma wf_canon_ext: "wf_ext m \<Longrightarrow> wf_ext (canon_ext m)"
  by (auto simp: wf_ext_def canon_ext_def comp_def list_all_iff unique_keys_jcs_sort)

lemma jcs_sort_ext: "wf_ext m \<Longrightarrow> jcs_sort (JObj m) = JObj (canon_ext m)"
  by (simp add: canon_ext_def wf_ext_def sort_key_id comp_def)

lemma map_to_value_wf: "wf_ext m \<Longrightarrow> map (\<lambda>kv. (fst kv, to_value (snd kv))) m = m"
  by (auto simp: wf_ext_def list_all_iff to_value_unique intro!: map_idI)

lemma de_ext_wf: "wf_ext m \<Longrightarrow> de_ext (JObj m) = Ok m"
  by (simp add: map_to_value_wf ext_collect_wf)

lemma de_time [simp]: "de_i64 (ser_time t) = Ok t"
  using sint_i64_bounds [of t] by (simp add: ser_time_def)

lemma de_strings [simp]: "de_vec de_string (ser_strings xs) = Ok xs"
proof -
  have "de_list de_string (map JStr xs) = Ok xs" by (induction xs) simp_all
  then show ?thesis by (simp add: ser_strings_def)
qed

lemma de_aid_ser: "wf_aid E a \<Longrightarrow> de_aid E (ser_aid a) = Ok a"
  by (simp add: de_aid_def ser_aid_def wf_aid_def)

lemma de_cnf_ser [simp]: "de_cnf (JObj [(''jkt'', JStr s)]) = Ok \<lparr>jkt = s\<rparr>"
  by (simp add: de_cnf_def de_struct_def de_void_def de_field_def)

lemma jcs_sort_leaves [simp]:
  "jcs_sort (ser_time t) = ser_time t" "jcs_sort (ser_aid a) = ser_aid a"
  "jcs_sort (ser_strings xs) = ser_strings xs" "jcs_sort (ser_v4 E i) = ser_v4 E i"
  by (simp_all add: ser_time_def ser_aid_def ser_strings_def ser_v4_def comp_def)

lemma unique_keys_leaves [simp]:
  "unique_keys (ser_time t)" "unique_keys (ser_aid a)" "unique_keys (ser_strings xs)" "unique_keys (ser_v4 E i)"
  by (simp_all add: ser_time_def ser_aid_def ser_strings_def ser_v4_def list_all_iff)

text \<open>Reading a canonical object is reading the object in any order.\<close>

lemma de_struct_jcs_sort:
  assumes "de_map fs [] (map (\<lambda>kv. (fst kv, jcs_sort (snd kv))) ms) = Ok ()"
  shows "de_struct fs (jcs_sort (JObj ms)) = Ok (sort_key fst (map (\<lambda>kv. (fst kv, jcs_sort (snd kv))) ms))"
proof -
  let ?ms = "map (\<lambda>kv. (fst kv, jcs_sort (snd kv))) ms"
  have d: "distinct (map fst ?ms)" using assms [unfolded de_map_iff] by blast
  have "de_map fs [] (sort_key fst ?ms) = Ok ()"
    using assms distinct_fst_sort [OF d] unfolding de_map_iff set_sort by blast
  then show ?thesis by (simp add: de_struct_def)
qed

lemma de_field_sort:
  "distinct (map fst ms) \<Longrightarrow> de_field (sort_key fst ms) k de = de_field ms k de"
  "distinct (map fst ms) \<Longrightarrow> de_opt_field (sort_key fst ms) k de' = de_opt_field ms k de'"
  by (simp_all add: de_field_def de_opt_field_def map_of_sort_key)

definition wf_tct_claims :: "externals \<Rightarrow> tct_claims \<Rightarrow> bool" where
  "wf_tct_claims E c \<longleftrightarrow>
     wf_aid E (tct_iss c) \<and> wf_aid E (tct_sub c) \<and> wf_aid E (tct_aud c) \<and>
     length (tct_jti c) = 16 \<and> is_v4 E (tct_jti c) \<and> (\<forall>m. tct_ext c = Some m \<longrightarrow> wf_ext m)"

definition wf_voucher_claims :: "externals \<Rightarrow> grant_voucher_claims \<Rightarrow> bool" where
  "wf_voucher_claims E c \<longleftrightarrow>
     wf_aid E (gv_iss c) \<and> wf_aid E (gv_sub c) \<and> length (gv_src_jti c) = 16 \<and> is_v4 E (gv_src_jti c) \<and>
     (\<forall>m. gv_ext c = Some m \<longrightarrow> wf_ext m)"

definition canon_tct :: "tct_claims \<Rightarrow> tct_claims" where
  "canon_tct c = c\<lparr>tct_ext := map_option canon_ext (tct_ext c)\<rparr>"

definition canon_voucher :: "grant_voucher_claims \<Rightarrow> grant_voucher_claims" where
  "canon_voucher c = c\<lparr>gv_ext := map_option canon_ext (gv_ext c)\<rparr>"

lemma unique_keys_ser_tct: "wf_tct_claims E c \<Longrightarrow> unique_keys (ser_tct_claims E c)"
  by (auto simp: ser_tct_claims_def tct_members_def opt_member_def wf_tct_claims_def wf_ext_def split: option.splits)

lemma unique_keys_ser_voucher: "wf_voucher_claims E c \<Longrightarrow> unique_keys (ser_voucher_claims E c)"
  by (auto simp: ser_voucher_claims_def voucher_members_def opt_member_def wf_voucher_claims_def wf_ext_def
      split: option.splits)

lemma de_ser_tct_claims:
  assumes "uuid_laws E" "wf_tct_claims E c"
  shows "de_tct_claims E (jcs_sort (ser_tct_claims E c)) = Ok (canon_tct c)"
proof -
  let ?ms = "map (\<lambda>kv. (fst kv, jcs_sort (snd kv))) (tct_members E c)"
  note wf = assms(2)[unfolded wf_tct_claims_def]
  have ms: "?ms = [(''ver'', JStr (tct_ver c)), (''jti'', ser_v4 E (tct_jti c)), (''iss'', ser_aid (tct_iss c)),
      (''sub'', ser_aid (tct_sub c)), (''aud'', ser_aid (tct_aud c)), (''iat'', ser_time (tct_iat c)),
      (''exp'', ser_time (tct_exp c)), (''grants'', ser_strings (tct_grants c)),
      (''cnf'', JObj [(''jkt'', JStr (jkt (tct_cnf c)))])] @ opt_member ''ext'' (map_option canon_ext (tct_ext c))"
    using wf by (auto simp: tct_members_def opt_member_def jcs_sort_ext simp del: jcs_sort.simps(2) split: option.splits)
      (simp_all)
  have leaf: "de_v4 E (ser_v4 E (tct_jti c)) = Ok (tct_jti c)"
      "de_aid E (ser_aid (tct_iss c)) = Ok (tct_iss c)" "de_aid E (ser_aid (tct_sub c)) = Ok (tct_sub c)"
      "de_aid E (ser_aid (tct_aud c)) = Ok (tct_aud c)"
    using wf assms(1) by (simp_all add: serde_v4_roundtrip de_aid_ser)
  have ext: "de_ext (JObj m) = Ok m" if "map_option canon_ext (tct_ext c) = Some m" for m
    using that wf by (auto simp del: de_ext.simps simp: de_ext_wf wf_canon_ext)
  have ok: "de_map (tct_fields E) [] ?ms = Ok ()"
    unfolding ms using leaf ext
    by (auto simp: tct_fields_def opt_member_def de_void_def de_void_opt_def simp del: de_ext.simps split: option.splits)
  have d: "distinct (map fst ?ms)" using ok [unfolded de_map_iff] by blast
  show ?thesis
    unfolding de_tct_claims_def ser_tct_claims_def de_struct_jcs_sort [OF ok] and_then_simps de_field_sort [OF d]
    unfolding ms using leaf ext
    by (cases "tct_ext c")
      (simp_all add: de_field_def de_opt_field_def opt_member_def canon_tct_def del: de_ext.simps)
qed

lemma de_ser_voucher_claims:
  assumes "uuid_laws E" "wf_voucher_claims E c"
  shows "de_voucher_claims E (jcs_sort (ser_voucher_claims E c)) = Ok (canon_voucher c)"
proof -
  let ?ms = "map (\<lambda>kv. (fst kv, jcs_sort (snd kv))) (voucher_members E c)"
  note wf = assms(2)[unfolded wf_voucher_claims_def]
  have ms: "?ms = [(''ver'', JStr (gv_ver c)), (''iss'', ser_aid (gv_iss c)), (''sub'', ser_aid (gv_sub c)),
      (''grants'', ser_strings (gv_grants c)), (''iat'', ser_time (gv_iat c)), (''exp'', ser_time (gv_exp c)),
      (''src_jti'', ser_v4 E (gv_src_jti c))] @ opt_member ''ext'' (map_option canon_ext (gv_ext c))"
    using wf by (auto simp: voucher_members_def opt_member_def jcs_sort_ext simp del: jcs_sort.simps(2) split: option.splits)
  have leaf: "de_v4 E (ser_v4 E (gv_src_jti c)) = Ok (gv_src_jti c)"
      "de_aid E (ser_aid (gv_iss c)) = Ok (gv_iss c)" "de_aid E (ser_aid (gv_sub c)) = Ok (gv_sub c)"
    using wf assms(1) by (simp_all add: serde_v4_roundtrip de_aid_ser)
  have ext: "de_ext (JObj m) = Ok m" if "map_option canon_ext (gv_ext c) = Some m" for m
    using that wf by (auto simp del: de_ext.simps simp: de_ext_wf wf_canon_ext)
  have ok: "de_map (voucher_fields E) [] ?ms = Ok ()"
    unfolding ms using leaf ext
    by (auto simp: voucher_fields_def opt_member_def de_void_def de_void_opt_def simp del: de_ext.simps split: option.splits)
  have d: "distinct (map fst ?ms)" using ok [unfolded de_map_iff] by blast
  show ?thesis
    unfolding de_voucher_claims_def ser_voucher_claims_def de_struct_jcs_sort [OF ok] and_then_simps de_field_sort [OF d]
    unfolding ms using leaf ext
    by (cases "gv_ext c")
      (simp_all add: de_field_def de_opt_field_def opt_member_def canon_voucher_def del: de_ext.simps)
qed

text \<open>What the typed parse of a claim set guarantees of the identifiers in it.\<close>

lemma de_aid_wf: "de_aid E j = Ok a \<Longrightarrow> wf_aid E a"
  by (auto simp: de_aid_def dest: aid_parse_wf)

lemma de_v4_Ok: "de_v4 E j = Ok i \<Longrightarrow> is_v4 E i"
  by (auto simp: de_v4_def parse_v4_Ok)

lemma de_tct_claims_wf:
  assumes "de_tct_claims E j = Ok c"
  shows "wf_aid E (tct_iss c) \<and> wf_aid E (tct_sub c) \<and> wf_aid E (tct_aud c) \<and> is_v4 E (tct_jti c)"
  using assms
  by (auto simp: de_tct_claims_def de_field_def de_aid_wf de_v4_Ok split: option.splits)

lemma de_voucher_claims_wf:
  assumes "de_voucher_claims E j = Ok c"
  shows "wf_aid E (gv_iss c) \<and> wf_aid E (gv_sub c) \<and> is_v4 E (gv_src_jti c)"
  using assms
  by (auto simp: de_voucher_claims_def de_field_def de_aid_wf de_v4_Ok split: option.splits)

end
