(* ===== verification/Tct_Verify.thy ===== *)
theory Tct_Verify
  imports Tct_Types
begin

text \<open>
  Revocation decisions (\<open>tct/revocation.rs\<close>, the lookup part) and verification of trust
  context tokens, self-attestations and grant vouchers (\<open>tct/verifier.rs\<close>), check by check
  in the order of the code, with the error of each.

  Shown here: a token is accepted exactly when every check of the code's list holds, so
  that what an accepted token guarantees and what makes a token acceptable are both
  explicit; what is granted after a revocation lookup is never more than the token says;
  a self-attestation never passes as a grant and a grant never passes as an attestation.
\<close>

subsection \<open>Revocation decisions\<close>

record revocation_query =
  rq_issuer :: aid
  rq_jti :: uuid
  rq_now :: timestamp

datatype revocation_status = Clear | Revoked | SoftFailSafeSubset "string list"

datatype revocation_unavailable = Unavailable

type_synonym revocation_check = "revocation_query \<Rightarrow> (revocation_unavailable, revocation_status) result"

datatype revocation_source = Check revocation_check | FailOpen | SelfAttestation

datatype revocation_rejection = RejRevoked | RejUnavailable | RejSafeSubsetEmpty

definition apply_revocation ::
  "revocation_source \<Rightarrow> revocation_query \<Rightarrow> string list \<Rightarrow> (revocation_rejection, string list) result" where
  "apply_revocation source query grants =
     (case source of
        FailOpen \<Rightarrow> Ok grants
      | SelfAttestation \<Rightarrow> Err RejUnavailable
      | Check check \<Rightarrow>
          (case check query of
             Err _ \<Rightarrow> Err RejUnavailable
           | Ok Clear \<Rightarrow> Ok grants
           | Ok Revoked \<Rightarrow> Err RejRevoked
           | Ok (SoftFailSafeSubset safe_grants) \<Rightarrow>
               (let narrowed = filter (\<lambda>g. g \<in> set safe_grants) grants in
                if narrowed = [] then Err RejSafeSubsetEmpty else Ok narrowed)))"

definition is_self_attestation :: "tct_claims \<Rightarrow> bool" where
  "is_self_attestation c \<longleftrightarrow> tct_sub c = tct_iss c \<and> tct_aud c = tct_iss c \<and> tct_grants c = [ATTESTATION_GRANT]"

definition check_revocation ::
  "revocation_source \<Rightarrow> tct_claims \<Rightarrow> timestamp \<Rightarrow> (tct_error, string list) result" where
  "check_revocation source claims now =
     (if (case source of SelfAttestation \<Rightarrow> is_self_attestation claims | _ \<Rightarrow> False) then Ok (tct_grants claims)
      else
        map_err (\<lambda>r. case r of RejRevoked \<Rightarrow> TctRevoked
                               | RejUnavailable \<Rightarrow> RevocationUnavailable
                               | RejSafeSubsetEmpty \<Rightarrow> SafeSubsetEmpty)
          (apply_revocation source \<lparr>rq_issuer = tct_iss claims, rq_jti = tct_jti claims, rq_now = now\<rparr>
             (tct_grants claims)))"

subsection \<open>Contexts\<close>

record tct_verify_context =
  expected_audience :: aid
  ctx_issuer :: aid
  ctx_now :: timestamp
  issuer_manifest_expires_at :: "timestamp option"
  ctx_revocation :: revocation_source
  clock_skew :: duration

datatype tct_verify_context_error =
    RevocationDecisionRequired
  | ManifestCapDecisionRequired
  | CtxMissingField string

record tct_verify_context_builder =
  b_expected_audience :: "aid option"
  b_issuer :: "aid option"
  b_now :: "timestamp option"
  b_issuer_manifest_expires_at :: "timestamp option"
  b_revocation :: "revocation_source option"
  b_clock_skew :: duration
  b_manifest_cap_decided :: bool

definition ctx_builder :: tct_verify_context_builder where
  "ctx_builder =
     \<lparr>b_expected_audience = None, b_issuer = None, b_now = None, b_issuer_manifest_expires_at = None,
      b_revocation = None, b_clock_skew = from_secs 0, b_manifest_cap_decided = False\<rparr>"

definition set_manifest_expires_at :: "timestamp \<Rightarrow> tct_verify_context_builder \<Rightarrow> tct_verify_context_builder" where
  "set_manifest_expires_at t b = b\<lparr>b_issuer_manifest_expires_at := Some t, b_manifest_cap_decided := True\<rparr>"

definition skip_manifest_expiry_cap_dangerous :: "tct_verify_context_builder \<Rightarrow> tct_verify_context_builder" where
  "skip_manifest_expiry_cap_dangerous b =
     b\<lparr>b_issuer_manifest_expires_at := None, b_manifest_cap_decided := True\<rparr>"

definition ctx_build :: "tct_verify_context_builder \<Rightarrow> (tct_verify_context_error, tct_verify_context) result" where
  "ctx_build b =
     and_then (ok_or (CtxMissingField ''expected_audience'') (b_expected_audience b)) (\<lambda>aud.
     and_then (ok_or (CtxMissingField ''issuer'') (b_issuer b)) (\<lambda>iss.
     and_then (ok_or (CtxMissingField ''now'') (b_now b)) (\<lambda>now.
     and_then (ok_or RevocationDecisionRequired (b_revocation b)) (\<lambda>rev.
     and_then (ensure ManifestCapDecisionRequired (b_manifest_cap_decided b)) (\<lambda>_.
     Ok \<lparr>expected_audience = aud, ctx_issuer = iss, ctx_now = now,
         issuer_manifest_expires_at = b_issuer_manifest_expires_at b, ctx_revocation = rev,
         clock_skew = b_clock_skew b\<rparr>)))))"

record attestation_verify_context =
  att_issuer :: aid
  att_statement_key :: string
  att_now :: timestamp
  att_issuer_manifest_expires_at :: "timestamp option"
  att_revocation :: revocation_source
  att_clock_skew :: duration

subsection \<open>The checks\<close>

definition check_v4_member :: "externals \<Rightarrow> json \<Rightarrow> string \<Rightarrow> (tct_error, unit) result" where
  "check_v4_member E peek member =
     (case Option.bind (json_get member peek) json_as_str of
        Some s \<Rightarrow> map_err JtiNotV4 (and_then (parse_v4 E s) (\<lambda>_. Ok ()))
      | None \<Rightarrow> Ok ())"

text \<open>The part of the verifiers that looks at the payload before the signature.\<close>

definition peek_claims :: "externals \<Rightarrow> string \<Rightarrow> string list \<Rightarrow> string \<Rightarrow> string \<Rightarrow> string \<Rightarrow> (tct_error, unit) result" where
  "peek_claims E object allowed member typ token =
     (if peek_typ E token = Some typ then
        and_then (map_err TctCrypto (decode_payload_unverified E token)) (\<lambda>peek.
        and_then (map_err (\<lambda>_. ClaimsMalformed) (reject_duplicate_keys E peek)) (\<lambda>_.
        case value_from_slice E peek of
          Err _ \<Rightarrow> Ok ()
        | Ok peek_value \<Rightarrow>
            and_then (map_err (\<lambda>e. UnknownField (uf_field e)) (check_members object peek_value allowed)) (\<lambda>_.
            check_v4_member E peek_value member)))
      else Ok ())"

definition claims_error :: "serde_error \<Rightarrow> tct_error" where
  "claims_error e = (case from_serde_error e of Some f \<Rightarrow> UnknownField f | None \<Rightarrow> ClaimsMalformed)"

record core_checks =
  cc_issuer :: aid
  cc_now :: timestamp
  cc_clock_skew :: duration
  cc_issuer_manifest_expires_at :: "timestamp option"

definition core_verify ::
  "externals \<Rightarrow> core_checks \<Rightarrow> string \<Rightarrow> (tct_claims \<Rightarrow> (tct_error, unit) result) \<Rightarrow> (tct_error, tct_claims) result" where
  "core_verify E cc token context =
     and_then (peek_claims E ''TctClaims'' TCT_CLAIMS_MEMBERS ''jti'' TYP_TCT token) (\<lambda>_.
     and_then (map_err TctCrypto (verify_compact E (cc_issuer cc) TYP_TCT token)) (\<lambda>payload.
     and_then (map_err claims_error (and_then (json_document E payload) (de_tct_claims E))) (\<lambda>claims.
     and_then (ensure VersionUnknown (tct_ver claims = PROTOCOL_VERSION)) (\<lambda>_.
     and_then (ensure IssuerMismatch (tct_iss claims = cc_issuer cc)) (\<lambda>_.
     and_then (context claims) (\<lambda>_.
     let skew = duration_secs (cc_clock_skew cc) in
     and_then (ensure TctExpired (\<not> sint (tct_exp claims) < sint (i64_saturating_sub (cc_now cc) skew))) (\<lambda>_.
     and_then (ensure TctExpired (\<not> sint (i64_saturating_add (cc_now cc) skew) < sint (tct_iat claims))) (\<lambda>_.
     and_then (case cc_issuer_manifest_expires_at cc of
                 Some t \<Rightarrow> ensure ExpiresAfterManifest (\<not> sint t < sint (tct_exp claims))
               | None \<Rightarrow> Ok ()) (\<lambda>_.
     and_then (ensure EmptyGrants (tct_grants claims \<noteq> [])) (\<lambda>_.
     and_then (map_err TctCrypto (vk_from_aid E (tct_sub claims))) (\<lambda>subject_key.
     and_then (map_err TctCrypto (to_jwk_thumbprint_sha256 E subject_key)) (\<lambda>expected_jkt.
     and_then (ensure CnfMalformed (jkt (tct_cnf claims) = expected_jkt)) (\<lambda>_.
     Ok claims)))))))))))))"

definition grant_context :: "tct_verify_context \<Rightarrow> tct_claims \<Rightarrow> (tct_error, unit) result" where
  "grant_context ctx claims =
     (if tct_aud claims \<noteq> expected_audience ctx then Err AudienceMismatch
      else if tct_aud claims \<noteq> tct_sub claims then Err AudienceMismatch
      else if tct_iss claims = tct_sub claims then Err SelfIssued
      else if ATTESTATION_GRANT \<in> set (tct_grants claims) then Err AttestationMarker
      else Ok ())"

definition verify_tct_before_revocation ::
  "externals \<Rightarrow> string \<Rightarrow> tct_verify_context \<Rightarrow> (tct_error, tct_claims) result" where
  "verify_tct_before_revocation E token ctx =
     core_verify E \<lparr>cc_issuer = ctx_issuer ctx, cc_now = ctx_now ctx, cc_clock_skew = clock_skew ctx,
                    cc_issuer_manifest_expires_at = issuer_manifest_expires_at ctx\<rparr> token (grant_context ctx)"

definition verify_tct :: "externals \<Rightarrow> string \<Rightarrow> tct_verify_context \<Rightarrow> (tct_error, verified_tct) result" where
  "verify_tct E token ctx =
     and_then (verify_tct_before_revocation E token ctx) (\<lambda>claims.
     and_then (check_revocation (ctx_revocation ctx) claims (ctx_now ctx)) (\<lambda>effective_grants.
     Ok \<lparr>vt_token = token, vt_claims = claims, vt_effective_grants = effective_grants\<rparr>))"

definition verify_attestation ::
  "externals \<Rightarrow> string \<Rightarrow> attestation_verify_context \<Rightarrow> (tct_error, verified_attestation) result" where
  "verify_attestation E token ctx =
     and_then (core_verify E \<lparr>cc_issuer = att_issuer ctx, cc_now = att_now ctx, cc_clock_skew = att_clock_skew ctx,
                 cc_issuer_manifest_expires_at = att_issuer_manifest_expires_at ctx\<rparr> token
                 (\<lambda>c. ensure NotAttestation (is_self_attestation c))) (\<lambda>claims.
     and_then (ok_or (AttestationStatementMissing (att_statement_key ctx))
                 (Option.bind (tct_ext claims) (\<lambda>ext. ext_get ext (att_statement_key ctx)))) (\<lambda>statement.
     and_then (check_revocation (att_revocation ctx) claims (att_now ctx)) (\<lambda>_.
     Ok \<lparr>va_token = token, va_claims = claims, va_statement = statement\<rparr>)))"

definition verify_voucher :: "externals \<Rightarrow> string \<Rightarrow> aid \<Rightarrow> (tct_error, grant_voucher_claims) result" where
  "verify_voucher E token issuer =
     and_then (peek_claims E ''GrantVoucherClaims'' GRANT_VOUCHER_CLAIMS_MEMBERS ''src_jti'' TYP_GRANT_VOUCHER token) (\<lambda>_.
     and_then (map_err TctCrypto (verify_compact E issuer TYP_GRANT_VOUCHER token)) (\<lambda>payload.
     and_then (map_err claims_error (and_then (json_document E payload) (de_voucher_claims E))) (\<lambda>claims.
     and_then (ensure VersionUnknown (gv_ver claims = PROTOCOL_VERSION)) (\<lambda>_.
     and_then (ensure IssuerMismatch (gv_iss claims = issuer)) (\<lambda>_.
     and_then (ensure EmptyGrants (gv_grants claims \<noteq> [])) (\<lambda>_.
     Ok claims))))))"

subsection \<open>What the checks establish\<close>

text \<open>The issuer signed a token of this type whose payload is the document \<open>j\<close>.\<close>

definition signed_document :: "externals \<Rightarrow> aid \<Rightarrow> string \<Rightarrow> string \<Rightarrow> json \<Rightarrow> bool" where
  "signed_document E issuer typ token j \<longleftrightarrow>
     (\<exists>payload. verify_compact E issuer typ token = Ok payload \<and> json_document E payload = Ok j)"

lemma signed_document_fun:
  "signed_document E a typ token j \<Longrightarrow> signed_document E b typ' token j' \<Longrightarrow> j = j' \<and> typ = typ'"
  by (auto simp: signed_document_def verify_compact_Ok)

lemma signed_document_payload:
  assumes "verify_compact E a typ token = Ok payload"
  shows "decode_payload_unverified E token = Ok payload"
  using assms by (auto simp: verify_compact_Ok decode_payload_unverified_def)

lemma check_members_de_map:
  assumes "de_map fs [] ms = Ok ()" "set (map fst fs) \<subseteq> set allowed"
  shows "check_members obj (JObj ms) allowed = Ok ()"
  using assms unfolding check_members_object de_map_iff by (force dest: map_of_SomeD)

text \<open>
  Once signature and typed parse succeed, the early look at the payload adds one thing:
  no object inside \<open>ext\<close> repeats a key. It adds it only when the header is an object.
\<close>

lemma peek_claims_after_parse:
  assumes "verify_compact E a typ token = Ok payload" "json_document E payload = Ok j"
    and "is_JObj j" "\<exists>ms. j = JObj ms \<and> de_map fs [] ms = Ok ()" "set (map fst fs) \<subseteq> set allowed"
    and "\<And>s. json_get member j = Some (JStr s) \<Longrightarrow> \<exists>i. parse_v4 E s = Ok i"
  shows "peek_claims E obj allowed member typ token = Ok () \<longleftrightarrow> (peek_typ E token = Some typ \<longrightarrow> unique_keys j)"
proof (cases "peek_typ E token = Some typ")
  case True
  from assms(2) obtain rest where nx: "json_next E payload = Some (j, rest)"
    by (auto simp: json_document_def split: option.splits if_splits)
  show ?thesis
  proof (cases "unique_keys j")
    case uk: True
    have val: "value_from_slice E payload = Ok j"
      using assms(2) uk by (simp add: value_from_slice_def to_value_unique)
    have mem: "check_members obj j allowed = Ok ()"
      using check_members_de_map assms(4,5) by blast
    have v4: "check_v4_member E j member = Ok ()"
      using assms(6) by (cases "json_get member j"; cases "the (json_get member j)")
        (auto simp: check_v4_member_def)
    show ?thesis
      using True uk val mem v4 nx signed_document_payload [OF assms(1)] dup_check_iff(1) [of j]
      by (simp add: peek_claims_def reject_duplicate_keys_def)
  next
    case nuk: False
    then have "dup_check j \<noteq> Ok ()" by (simp add: dup_check_iff)
    then obtain e where "dup_check j = Err e" by (cases "dup_check j") auto
    then show ?thesis
      using True nuk nx signed_document_payload [OF assms(1)]
      by (simp add: peek_claims_def reject_duplicate_keys_def)
  qed
qed (simp add: peek_claims_def)

lemma verify_compact_object:
  assumes "verify_compact E a typ token = Ok payload" "json_document E payload = Ok j"
  shows "is_JObj j"
  using assms by (cases j) (auto simp: verify_compact_Ok value_from_slice_def)

lemma de_v4_string: "de_void (de_v4 E) (JStr s) = Ok () \<Longrightarrow> \<exists>i. parse_v4 E s = Ok i"
  by (auto simp: de_void_def de_v4_def)

lemma peek_tct:
  assumes "verify_compact E a TYP_TCT token = Ok payload" "json_document E payload = Ok j"
    and "de_tct_claims E j = Ok c"
  shows "peek_claims E obj TCT_CLAIMS_MEMBERS ''jti'' TYP_TCT token = Ok () \<longleftrightarrow>
    (peek_typ E token = Some TYP_TCT \<longrightarrow> unique_keys j)"
proof -
  have "is_JObj j" by (rule verify_compact_object [OF assms(1,2)])
  then obtain ms where j: "j = JObj ms" by (cases j) auto
  have ok: "de_map (tct_fields E) [] ms = Ok ()"
    using assms(3) by (auto simp: de_tct_claims_def de_struct_def j)
  show ?thesis
  proof (rule peek_claims_after_parse [OF assms(1,2) \<open>is_JObj j\<close>, where fs = "tct_fields E"])
    show "\<exists>ms. j = JObj ms \<and> de_map (tct_fields E) [] ms = Ok ()" using j ok by blast
    show "set (map fst (tct_fields E)) \<subseteq> set TCT_CLAIMS_MEMBERS"
      by (simp add: tct_fields_def TCT_CLAIMS_MEMBERS_def)
    fix s assume "json_get ''jti'' j = Some (JStr s)"
    then have "(''jti'', JStr s) \<in> set ms" by (auto simp: j dest: map_of_SomeD)
    with ok [unfolded de_map_iff] have "de_void (de_v4 E) (JStr s) = Ok ()"
      by (fastforce simp: tct_fields_def)
    then show "\<exists>i. parse_v4 E s = Ok i" by (rule de_v4_string)
  qed
qed

lemma peek_voucher:
  assumes "verify_compact E a TYP_GRANT_VOUCHER token = Ok payload" "json_document E payload = Ok j"
    and "de_voucher_claims E j = Ok c"
  shows "peek_claims E obj GRANT_VOUCHER_CLAIMS_MEMBERS ''src_jti'' TYP_GRANT_VOUCHER token = Ok () \<longleftrightarrow>
    (peek_typ E token = Some TYP_GRANT_VOUCHER \<longrightarrow> unique_keys j)"
proof -
  have "is_JObj j" by (rule verify_compact_object [OF assms(1,2)])
  then obtain ms where j: "j = JObj ms" by (cases j) auto
  have ok: "de_map (voucher_fields E) [] ms = Ok ()"
    using assms(3) by (auto simp: de_voucher_claims_def de_struct_def j)
  show ?thesis
  proof (rule peek_claims_after_parse [OF assms(1,2) \<open>is_JObj j\<close>, where fs = "voucher_fields E"])
    show "\<exists>ms. j = JObj ms \<and> de_map (voucher_fields E) [] ms = Ok ()" using j ok by blast
    show "set (map fst (voucher_fields E)) \<subseteq> set GRANT_VOUCHER_CLAIMS_MEMBERS"
      by (simp add: voucher_fields_def GRANT_VOUCHER_CLAIMS_MEMBERS_def)
    fix s assume "json_get ''src_jti'' j = Some (JStr s)"
    then have "(''src_jti'', JStr s) \<in> set ms" by (auto simp: j dest: map_of_SomeD)
    with ok [unfolded de_map_iff] have "de_void (de_v4 E) (JStr s) = Ok ()"
      by (fastforce simp: voucher_fields_def)
    then show "\<exists>i. parse_v4 E s = Ok i" by (rule de_v4_string)
  qed
qed

text \<open>The conditions on a token and its claims that do not depend on the context checks.\<close>

definition tct_core_ok :: "externals \<Rightarrow> core_checks \<Rightarrow> string \<Rightarrow> tct_claims \<Rightarrow> bool" where
  "tct_core_ok E cc token c \<longleftrightarrow>
     (\<exists>j. signed_document E (cc_issuer cc) TYP_TCT token j \<and> de_tct_claims E j = Ok c \<and>
          (peek_typ E token = Some TYP_TCT \<longrightarrow> unique_keys j)) \<and>
     tct_ver c = PROTOCOL_VERSION \<and> tct_iss c = cc_issuer cc \<and>
     sint (cc_now cc) - sint (duration_secs (cc_clock_skew cc)) \<le> sint (tct_exp c) \<and>
     sint (tct_iat c) \<le> sint (cc_now cc) + sint (duration_secs (cc_clock_skew cc)) \<and>
     (\<forall>t. cc_issuer_manifest_expires_at cc = Some t \<longrightarrow> sint (tct_exp c) \<le> sint t) \<and>
     tct_grants c \<noteq> [] \<and>
     (\<exists>vk. vk_from_aid E (tct_sub c) = Ok vk \<and> to_jwk_thumbprint_sha256 E vk = Ok (jkt (tct_cnf c)))"

lemma core_verify_Ok:
  "core_verify E cc token context = Ok c \<longleftrightarrow> tct_core_ok E cc token c \<and> context c = Ok ()"
proof
  assume "core_verify E cc token context = Ok c"
  then obtain payload j vk where
    pk: "peek_claims E ''TctClaims'' TCT_CLAIMS_MEMBERS ''jti'' TYP_TCT token = Ok ()"
    and j: "verify_compact E (cc_issuer cc) TYP_TCT token = Ok payload" "json_document E payload = Ok j"
      "de_tct_claims E j = Ok c"
    and vk: "vk_from_aid E (tct_sub c) = Ok vk" "to_jwk_thumbprint_sha256 E vk = Ok (jkt (tct_cnf c))"
    and rest: "tct_ver c = PROTOCOL_VERSION" "tct_iss c = cc_issuer cc" "context c = Ok ()"
      "sint (cc_now cc) - sint (duration_secs (cc_clock_skew cc)) \<le> sint (tct_exp c)"
      "sint (tct_iat c) \<le> sint (cc_now cc) + sint (duration_secs (cc_clock_skew cc))"
      "(case cc_issuer_manifest_expires_at cc of Some t \<Rightarrow> ensure ExpiresAfterManifest (\<not> sint t < sint (tct_exp c))
        | None \<Rightarrow> Ok ()) = Ok ()" "tct_grants c \<noteq> []"
    by (auto simp: core_verify_def Let_def skewed_not_past skewed_not_future)
  have "\<forall>t. cc_issuer_manifest_expires_at cc = Some t \<longrightarrow> sint (tct_exp c) \<le> sint t"
    using rest(6) by (auto simp: not_less)
  with pk [unfolded peek_tct [OF j]] j vk rest show "tct_core_ok E cc token c \<and> context c = Ok ()"
    unfolding tct_core_ok_def signed_document_def by blast
next
  assume *: "tct_core_ok E cc token c \<and> context c = Ok ()"
  then obtain j payload vk where j: "verify_compact E (cc_issuer cc) TYP_TCT token = Ok payload"
      "json_document E payload = Ok j" "de_tct_claims E j = Ok c"
      "peek_typ E token = Some TYP_TCT \<longrightarrow> unique_keys j"
    and vk: "vk_from_aid E (tct_sub c) = Ok vk" "to_jwk_thumbprint_sha256 E vk = Ok (jkt (tct_cnf c))"
    by (auto simp: tct_core_ok_def signed_document_def)
  from peek_tct [OF j(1-3)] j(4) have "peek_claims E ''TctClaims'' TCT_CLAIMS_MEMBERS ''jti'' TYP_TCT token = Ok ()"
    by simp
  with * j vk show "core_verify E cc token context = Ok c"
    by (simp add: core_verify_def Let_def skewed_not_past [unfolded not_less]
        skewed_not_future [unfolded not_less] tct_core_ok_def not_less split: option.splits)
qed

lemma grant_context_Ok:
  "grant_context ctx c = Ok () \<longleftrightarrow>
     tct_aud c = expected_audience ctx \<and> tct_sub c = tct_aud c \<and> tct_iss c \<noteq> tct_sub c \<and>
     ATTESTATION_GRANT \<notin> set (tct_grants c)"
  by (auto simp: grant_context_def)

lemma apply_revocation_subset:
  "apply_revocation src q grants = Ok g \<Longrightarrow> grants \<noteq> [] \<Longrightarrow> set g \<subseteq> set grants \<and> g \<noteq> []"
  by (auto simp: apply_revocation_def Let_def split: revocation_source.splits sum.splits revocation_status.splits if_splits)

lemma check_revocation_subset:
  "check_revocation src c now = Ok g \<Longrightarrow> tct_grants c \<noteq> [] \<Longrightarrow> set g \<subseteq> set (tct_grants c) \<and> g \<noteq> []"
  by (auto simp: check_revocation_def split: if_splits dest: apply_revocation_subset)

lemma check_revocation_lookup:
  "check_revocation (Check f) c now = Ok g \<longleftrightarrow>
     (let q = \<lparr>rq_issuer = tct_iss c, rq_jti = tct_jti c, rq_now = now\<rparr> in
      f q = Ok Clear \<and> g = tct_grants c \<or>
      (\<exists>safe. f q = Ok (SoftFailSafeSubset safe) \<and> g = filter (\<lambda>x. x \<in> set safe) (tct_grants c) \<and> g \<noteq> []))"
  by (auto simp: check_revocation_def apply_revocation_def Let_def split: sum.splits revocation_status.splits if_splits)

lemma ctx_build_Ok:
  "ctx_build b = Ok ctx \<Longrightarrow> b_manifest_cap_decided b \<and> b_revocation b = Some (ctx_revocation ctx) \<and>
     issuer_manifest_expires_at ctx = b_issuer_manifest_expires_at b"
  by (auto simp: ctx_build_def)

subsection \<open>Properties\<close>


text \<open>
  C16: what an accepted token may exercise is never empty and never more than the issuer
  signed; and with a revocation lookup, the token was looked up under its own issuer and
  \<open>jti\<close>, was not reported revoked, and has its full grants only if it was reported clear.
\<close>

theorem verify_tct_grants_bounded:
  assumes "verify_tct E token ctx = Ok v"
  shows "vt_effective_grants v \<noteq> [] \<and> set (vt_effective_grants v) \<subseteq> set (tct_grants (vt_claims v)) \<and>
    (\<forall>f. ctx_revocation ctx = Check f \<longrightarrow>
       (let answer = f \<lparr>rq_issuer = ctx_issuer ctx, rq_jti = tct_jti (vt_claims v), rq_now = ctx_now ctx\<rparr> in
        answer = Ok Clear \<and> vt_effective_grants v = tct_grants (vt_claims v) \<or>
        (\<exists>safe. answer = Ok (SoftFailSafeSubset safe) \<and> set (vt_effective_grants v) \<subseteq> set safe)))"
proof -
  let ?cc = "\<lparr>cc_issuer = ctx_issuer ctx, cc_now = ctx_now ctx, cc_clock_skew = clock_skew ctx,
      cc_issuer_manifest_expires_at = issuer_manifest_expires_at ctx\<rparr>"
  from assms obtain c g where c: "tct_core_ok E ?cc token c"
    and g: "check_revocation (ctx_revocation ctx) c (ctx_now ctx) = Ok g"
    and v: "v = \<lparr>vt_token = token, vt_claims = c, vt_effective_grants = g\<rparr>"
    by (auto simp: verify_tct_def verify_tct_before_revocation_def core_verify_Ok)
  have "tct_grants c \<noteq> []" "tct_iss c = ctx_issuer ctx" using c by (simp_all add: tct_core_ok_def)
  with g v check_revocation_subset [OF g] show ?thesis
    by (auto simp: check_revocation_lookup Let_def)
qed

text \<open>
  No token passes both as a grant and as a self-attestation, whatever the contexts,
  clocks and revocation sources of the two verifications are.
\<close>

lemma tct_grant_attestation_exclusive:
  assumes "verify_tct E token ctx = Ok v"
  shows "verify_attestation E token actx \<noteq> Ok w"
proof
  assume att: "verify_attestation E token actx = Ok w"
  from assms obtain c j where c: "signed_document E (ctx_issuer ctx) TYP_TCT token j" "de_tct_claims E j = Ok c"
      "tct_iss c \<noteq> tct_sub c"
    by (auto simp: verify_tct_def verify_tct_before_revocation_def core_verify_Ok grant_context_Ok tct_core_ok_def)
  from att obtain c' j' where c': "signed_document E (att_issuer actx) TYP_TCT token j'" "de_tct_claims E j' = Ok c'"
      "is_self_attestation c'"
    by (auto simp: verify_attestation_def core_verify_Ok tct_core_ok_def)
  have "j = j'" using signed_document_fun c(1) c'(1) by blast
  with c c' show False by (simp add: is_self_attestation_def)
qed

end
