(* ===== verification/Tct_Build.thy ===== *)
theory Tct_Build
  imports Tct_Verify
begin

text \<open>
  Issuance of trust context tokens and grant vouchers (\<open>tct/builder.rs\<close>) and the
  downstream proof of possession (\<open>tct/pop.rs\<close>).

  Shown here: whatever the builder accepts, the verifier accepts, for every signing
  backend; the voucher mirrors its token; a response to a challenge is accepted exactly
  when it answers that challenge, for that token, in time, with a signature of the
  subject's key; and the honest response is accepted.
\<close>

subsection \<open>Whitespace in grants\<close>

text \<open>
  \<open>char::is_whitespace\<close> on UTF-8 text, as byte patterns: the ASCII white space, and the
  encodings of U+0085, U+00A0, U+1680, U+2000 to U+200A, U+2028, U+2029, U+202F, U+205F
  and U+3000. UTF-8 is self-synchronizing, so a pattern matches only at a character.
\<close>

fun starts_whitespace :: "nat list \<Rightarrow> bool" where
  "starts_whitespace [] = False"
| "starts_whitespace (a # r) =
     (9 \<le> a \<and> a \<le> 13 \<or> a = 32 \<or>
      (case r of
         [] \<Rightarrow> False
       | b # r' \<Rightarrow>
           a = 0xC2 \<and> (b = 0x85 \<or> b = 0xA0) \<or>
           (case r' of
              [] \<Rightarrow> False
            | c # _ \<Rightarrow>
                a = 0xE1 \<and> b = 0x9A \<and> c = 0x80 \<or>
                a = 0xE2 \<and> b = 0x80 \<and> (0x80 \<le> c \<and> c \<le> 0x8A \<or> c = 0xA8 \<or> c = 0xA9 \<or> c = 0xAF) \<or>
                a = 0xE2 \<and> b = 0x81 \<and> c = 0x9F \<or>
                a = 0xE3 \<and> b = 0x80 \<and> c = 0x80)))"

fun any_whitespace :: "nat list \<Rightarrow> bool" where
  "any_whitespace [] = False"
| "any_whitespace (a # r) = (starts_whitespace (a # r) \<or> any_whitespace r)"

definition has_whitespace :: "string \<Rightarrow> bool" where
  "has_whitespace s = any_whitespace (map of_char s)"

subsection \<open>The builder\<close>

datatype jti_source = JtiRandom | JtiFixed uuid | JtiDerived string bytes

record tct_builder =
  tb_issuer_key :: signer
  tb_subject :: "aid option"
  tb_audience :: "aid option"
  tb_grants :: "string list"
  tb_ttl :: duration
  tb_subject_pubkey :: "verifying_key option"
  tb_mint_voucher :: bool
  tb_now_override :: "timestamp option"
  tb_jti :: jti_source
  tb_ext :: "extensions_map option"
  tb_attestation :: bool

definition tct_builder_new :: "signer \<Rightarrow> tct_builder" where
  "tct_builder_new issuer_key =
     \<lparr>tb_issuer_key = issuer_key, tb_subject = None, tb_audience = None, tb_grants = [], tb_ttl = DEFAULT_TCT_TTL,
      tb_subject_pubkey = None, tb_mint_voucher = True, tb_now_override = None, tb_jti = JtiRandom, tb_ext = None,
      tb_attestation = False\<rparr>"

text \<open>
  The first step of \<open>draft\<close>: a self-attestation overrides subject, audience, key and
  grants; otherwise the marker grant is refused.
\<close>

definition attestation_overrides :: "externals \<Rightarrow> tct_builder \<Rightarrow> (tct_error, tct_builder) result" where
  "attestation_overrides E b =
     (let issuer = sg_aid (tb_issuer_key b) in
      if tb_attestation b then
        (if tb_ext b = None then Err (MissingField ''ext'')
         else and_then (map_err TctCrypto (vk_from_aid E issuer)) (\<lambda>pk.
              Ok (b\<lparr>tb_subject_pubkey := Some pk, tb_subject := Some issuer, tb_audience := Some issuer,
                    tb_grants := [ATTESTATION_GRANT], tb_mint_voucher := False\<rparr>)))
      else if ATTESTATION_GRANT \<in> set (tb_grants b) then Err AttestationMarker
      else Ok b)"

definition choose_jti :: "externals \<Rightarrow> uuid \<Rightarrow> jti_source \<Rightarrow> (tct_error, uuid) result" where
  "choose_jti E random src =
     (case src of
        JtiRandom \<Rightarrow> Ok random
      | JtiFixed i \<Rightarrow> and_then (map_err JtiNotV4 (check_v4 E i)) (\<lambda>_. Ok i)
      | JtiDerived tag input \<Rightarrow> map_err (\<lambda>_. InvalidJtiTag) (derived_v4 E tag input))"

definition check_grant :: "string \<Rightarrow> (tct_error, unit) result" where
  "check_grant g = (if has_whitespace g then Err (GrantWhitespace g) else Ok ())"

text \<open>\<open>random\<close> is what \<open>Uuid::new_v4\<close> returns and \<open>clock\<close> what \<open>Timestamp::now\<close> returns.\<close>

definition draft ::
  "externals \<Rightarrow> uuid \<Rightarrow> timestamp \<Rightarrow> tct_builder \<Rightarrow> (tct_error, tct_claims \<times> grant_voucher_claims option) result" where
  "draft E random clock b0 =
     (let issuer = sg_aid (tb_issuer_key b0) in
      and_then (attestation_overrides E b0) (\<lambda>b.
      and_then (ok_or (MissingField ''subject'') (tb_subject b)) (\<lambda>subject.
      and_then (ok_or (MissingField ''audience'') (tb_audience b)) (\<lambda>audience.
      and_then (ok_or (MissingField ''subject_pubkey'') (tb_subject_pubkey b)) (\<lambda>subject_pk.
      and_then (ensure EmptyGrants (tb_grants b \<noteq> [])) (\<lambda>_.
      and_then (try_for_each check_grant (tb_grants b)) (\<lambda>_.
      and_then (ensure AudienceMismatch (subject = audience)) (\<lambda>_.
      and_then (ensure SelfIssued (\<not> (subject = issuer \<and> \<not> tb_attestation b))) (\<lambda>_.
      and_then (map_err (\<lambda>_. TctCrypto CryptoPanic) (pubkey_compressed_bytes E subject)) (\<lambda>subject_bytes.
      and_then (ensure CnfMalformed (to_compressed E subject_pk = subject_bytes)) (\<lambda>_.
      and_then (map_err TctCrypto (to_jwk_thumbprint_sha256 E subject_pk)) (\<lambda>thumb.
      and_then (choose_jti E random (tb_jti b)) (\<lambda>jti.
      let issued_at = (case tb_now_override b of Some t \<Rightarrow> t | None \<Rightarrow> clock);
          expires_at = saturating_add issued_at (tb_ttl b)
      in Ok (\<lparr>tct_ver = PROTOCOL_VERSION, tct_jti = jti, tct_iss = issuer, tct_sub = subject, tct_aud = audience,
              tct_iat = issued_at, tct_exp = expires_at, tct_grants = tb_grants b, tct_cnf = \<lparr>jkt = thumb\<rparr>,
              tct_ext = tb_ext b\<rparr>,
             if tb_mint_voucher b
             then Some \<lparr>gv_ver = PROTOCOL_VERSION, gv_iss = issuer, gv_sub = subject, gv_grants = tb_grants b,
                        gv_iat = issued_at, gv_exp = expires_at, gv_src_jti = jti, gv_ext = None\<rparr>
             else None))))))))))))))"

definition build :: "externals \<Rightarrow> uuid \<Rightarrow> timestamp \<Rightarrow> tct_builder \<Rightarrow> (tct_error, issued_tct) result" where
  "build E random clock b =
     and_then (draft E random clock b) (\<lambda>(claims, voucher_claims).
     and_then (map_err TctCrypto (sign_compact E (tb_issuer_key b) TYP_TCT (ser_tct_claims E claims))) (\<lambda>token.
     and_then (case voucher_claims of
                 Some v \<Rightarrow> and_then (map_err TctCrypto (sign_compact E (tb_issuer_key b) TYP_GRANT_VOUCHER
                             (ser_voucher_claims E v))) (\<lambda>t. Ok (Some t))
               | None \<Rightarrow> Ok None) (\<lambda>voucher.
     Ok \<lparr>it_token = token, it_claims = claims, it_voucher = voucher\<rparr>)))"

subsection \<open>Proof of possession\<close>

record pop_challenge =
  pc_tct_jti :: uuid
  pc_nonce :: string
  pc_expires_at :: timestamp

record pop_response =
  pr_tct_jti :: uuid
  pr_nonce_echo :: string
  pr_pop_signature :: string

definition sign_pop_response :: "externals \<Rightarrow> pop_challenge \<Rightarrow> signer \<Rightarrow> (tct_error, pop_response) result" where
  "sign_pop_response E challenge holder_key =
     and_then (map_err (\<lambda>_. PopFailed) (decode_strict E (pc_nonce challenge))) (\<lambda>nonce_bytes.
     and_then (map_err (\<lambda>e. TctCrypto (SignerFailed e)) (signer_sign_jcs E holder_key (sha256 E nonce_bytes))) (\<lambda>sig.
     Ok \<lparr>pr_tct_jti = pc_tct_jti challenge, pr_nonce_echo = pc_nonce challenge, pr_pop_signature = sig_as_str sig\<rparr>))"

definition verify_pop_response ::
  "externals \<Rightarrow> pop_challenge \<Rightarrow> pop_response \<Rightarrow> tct_claims \<Rightarrow> timestamp \<Rightarrow> (tct_error, unit) result" where
  "verify_pop_response E challenge response claims now =
     (if pr_tct_jti response \<noteq> pc_tct_jti challenge \<or> pr_tct_jti response \<noteq> tct_jti claims then Err PopJtiMismatch
      else if pr_nonce_echo response \<noteq> pc_nonce challenge then Err PopNonceMismatch
      else if is_in_the_future now (pc_expires_at challenge) then Err PopChallengeExpired
      else
      and_then (map_err (\<lambda>_. CnfMalformed) (vk_from_aid E (tct_sub claims))) (\<lambda>holder_pk.
      and_then (map_err (\<lambda>_. CnfMalformed) (to_jwk_thumbprint_sha256 E holder_pk)) (\<lambda>expected_jkt.
      and_then (ensure CnfMalformed (jkt (tct_cnf claims) = expected_jkt)) (\<lambda>_.
      and_then (map_err (\<lambda>_. PopFailed) (decode_strict E (pc_nonce challenge))) (\<lambda>nonce_bytes.
      and_then (map_err (\<lambda>_. PopFailed) (signature_parse (pr_pop_signature response))) (\<lambda>sig.
      map_err (\<lambda>_. PopFailed) (verify_jcs E holder_pk (sha256 E nonce_bytes) sig)))))))"

subsection \<open>Lemmas\<close>

text \<open>A verifying key as the library's parsers produce it.\<close>

definition vk_wf :: "externals \<Rightarrow> verifying_key \<Rightarrow> bool" where
  "vk_wf E k \<longleftrightarrow>
     (case k of
        VkEd25519 bs \<Rightarrow> length bs = 32 \<and> ed25519_valid_point E bs
      | VkP256 p \<Rightarrow> length (p256_to_sec1 E True p) = 33 \<and> p256_from_sec1 E (p256_to_sec1 E True p) = Some p)"

lemma vk_from_aid_of_key:
  assumes "wf_aid E a" "vk_wf E k" "pubkey_compressed_bytes E a = Ok (to_compressed E k)"
  shows "vk_from_aid E a = Ok k"
  using assms wf_aid_pubkey [OF assms(1)]
  by (auto simp: vk_from_aid_compressed vk_wf_def to_compressed_def split: verifying_key.splits aid_algorithm.splits)

text \<open>The voucher that mirrors a token.\<close>

definition voucher_of :: "tct_claims \<Rightarrow> grant_voucher_claims" where
  "voucher_of c =
     \<lparr>gv_ver = tct_ver c, gv_iss = tct_iss c, gv_sub = tct_sub c, gv_grants = tct_grants c,
      gv_iat = tct_iat c, gv_exp = tct_exp c, gv_src_jti = tct_jti c, gv_ext = None\<rparr>"

lemma draft_Ok:
  assumes "draft E random clock b = Ok (c, vo)"
  shows "tct_ver c = PROTOCOL_VERSION \<and> tct_iss c = sg_aid (tb_issuer_key b) \<and> tct_aud c = tct_sub c \<and>
    tct_grants c \<noteq> [] \<and> tct_ext c = tb_ext b \<and>
    tct_iat c = (case tb_now_override b of Some t \<Rightarrow> t | None \<Rightarrow> clock) \<and>
    tct_exp c = saturating_add (tct_iat c) (tb_ttl b) \<and>
    choose_jti E random (tb_jti b) = Ok (tct_jti c) \<and>
    (\<forall>g\<in>set (tct_grants c). \<not> has_whitespace g) \<and>
    (\<exists>pk. pubkey_compressed_bytes E (tct_sub c) = Ok (to_compressed E pk) \<and>
       to_jwk_thumbprint_sha256 E pk = Ok (jkt (tct_cnf c)) \<and>
       (if tb_attestation b then vk_from_aid E (sg_aid (tb_issuer_key b)) = Ok pk
        else tb_subject_pubkey b = Some pk)) \<and>
    (if tb_attestation b then tct_sub c = tct_iss c \<and> tct_grants c = [ATTESTATION_GRANT] \<and> vo = None \<and> tct_ext c \<noteq> None
     else tct_sub c \<noteq> tct_iss c \<and> ATTESTATION_GRANT \<notin> set (tct_grants c) \<and> tb_subject b = Some (tct_sub c) \<and>
       tct_grants c = tb_grants b \<and> (vo \<noteq> None \<longleftrightarrow> tb_mint_voucher b)) \<and>
    (\<forall>v. vo = Some v \<longrightarrow> v = voucher_of c)"
  using assms
  by (auto simp: draft_def voucher_of_def attestation_overrides_def Let_def try_for_each_eq_Inr check_grant_def split: if_splits)

lemma choose_jti_v4:
  assumes "uuid_laws E" "sha_laws E" "is_v4 E random" "length random = 16"
    and "\<forall>i. src = JtiFixed i \<longrightarrow> length i = 16" "choose_jti E random src = Ok i"
  shows "is_v4 E i \<and> length i = 16"
  using assms derived_v4_is_v4 [OF assms(1,2)] derived_v4_length [OF assms(2)]
  by (auto simp: choose_jti_def map_err_eq_Inr split: jti_source.splits)

lemma typ_plain: "\<not> list_ex (\<lambda>b. b = 0x22 \<or> b = 0x5c \<or> b < 0x20) (str_bytes TYP_TCT)"
  by (simp add: jws_typs str_bytes_def)

text \<open>A document that some backend signed for \<open>typ\<close> is a signed document of its AID.\<close>

lemma sign_compact_signed_document:
  assumes "b64_laws E" "sig_laws E" "sha_laws E" "\<forall>k. sg_signing_key sg = Some k \<longrightarrow> sk_wf E k"
    and "header_parses E (jose_alg (aid_algorithm (sg_aid sg))) typ"
    and "jcs_prints E (JObj ms) payload" "unique_keys (JObj ms)" "sign_compact E sg typ (JObj ms) = Ok token"
  shows "signed_document E (sg_aid sg) typ token (jcs_sort (JObj ms))"
  unfolding signed_document_def
  using sign_compact_verifies [OF assms] json_document_prints [OF assms(6)] by blast

lemma verify_jcs_raw_length:
  assumes "b64_laws E" "verify_jcs E k d (signature_from_raw E alg raw) = Ok ()"
  shows "length raw = 64"
  using assms(2) unfolding verify_jcs_from_raw [OF assms(1)]
  by (auto simp: verify_ed25519_def verify_p256_prehash_def raw_signature_len_def split: verifying_key.splits if_splits)

lemma signature_parse_from_raw:
  assumes "b64_laws E" "length raw = 64"
  shows "signature_parse (sig_as_str (signature_from_raw E alg raw)) = Ok (signature_from_raw E alg raw)"
proof -
  have chars: "list_all is_base64url_byte (b64_encode E raw)" "length (b64_encode E raw) = 86"
    using assms by (simp_all add: b64_laws_def)
  have "CHR ''='' \<notin> set (b64_encode E raw)" using base64url_no_special [OF chars(1)] by blast
  then show ?thesis
    using chars b64_no_tag [OF assms(1), of raw]
    by (cases alg)
      (simp_all add: signature_parse_def signature_from_raw_def validate_b64url_signature_def
        ED25519_SIGNATURE_BASE64URL_LEN_def)
qed

lemma signer_sign_jcs_parses:
  assumes "b64_laws E" "sig_laws E" "sha_laws E" "\<forall>k. sg_signing_key sg = Some k \<longrightarrow> sk_wf E k"
    and "signer_sign_jcs E sg d = Ok sig" "length d = 32"
  shows "signature_parse (sig_as_str sig) = Ok sig"
proof -
  obtain vk where "verify_jcs E vk d sig = Ok ()" using signer_sign_jcs_sound [OF assms] by blast
  moreover obtain raw where "sig = signature_from_raw E (aid_algorithm (sg_aid sg)) raw"
    using assms(5) by (auto simp: signer_sign_jcs_def)
  ultimately show ?thesis
    using verify_jcs_raw_length [OF assms(1)] signature_parse_from_raw [OF assms(1)] by blast
qed

lemma verify_pop_response_Ok:
  "verify_pop_response E ch r c now = Ok () \<longleftrightarrow>
     pr_tct_jti r = pc_tct_jti ch \<and> pr_tct_jti r = tct_jti c \<and> pr_nonce_echo r = pc_nonce ch \<and>
     sint now \<le> sint (pc_expires_at ch) \<and>
     (\<exists>vk nonce sig. vk_from_aid E (tct_sub c) = Ok vk \<and> to_jwk_thumbprint_sha256 E vk = Ok (jkt (tct_cnf c)) \<and>
        decode_strict E (pc_nonce ch) = Ok nonce \<and> signature_parse (pr_pop_signature r) = Ok sig \<and>
        verify_jcs E vk (sha256 E nonce) sig = Ok ())"
  by (auto simp: verify_pop_response_def is_in_the_future_def not_less)

subsection \<open>Properties\<close>

text \<open>
  The hypotheses of the issuing side: the third-party laws, a signer whose in-process
  key (if it has one) was built by the constructors, an identifier that the random
  source returned in v4 layout, and texts that print and parse.
\<close>

definition issue_env :: "externals \<Rightarrow> signer \<Rightarrow> uuid \<Rightarrow> bool" where
  "issue_env E sg random \<longleftrightarrow>
     b64_laws E \<and> sig_laws E \<and> sha_laws E \<and> uuid_laws E \<and> (\<forall>k. sg_signing_key sg = Some k \<longrightarrow> sk_wf E k) \<and>
     wf_aid E (sg_aid sg) \<and> is_v4 E random \<and> length random = 16 \<and>
     header_parses E (jose_alg (aid_algorithm (sg_aid sg))) TYP_TCT \<and>
     header_parses E (jose_alg (aid_algorithm (sg_aid sg))) TYP_GRANT_VOUCHER"

definition wf_tct_builder :: "externals \<Rightarrow> tct_builder \<Rightarrow> bool" where
  "wf_tct_builder E b \<longleftrightarrow>
     (\<forall>a. tb_subject b = Some a \<longrightarrow> wf_aid E a) \<and> (\<forall>k. tb_subject_pubkey b = Some k \<longrightarrow> vk_wf E k) \<and>
     (\<forall>i. tb_jti b = JtiFixed i \<longrightarrow> length i = 16) \<and> (\<forall>m. tb_ext b = Some m \<longrightarrow> wf_ext m)"

lemma draft_wf:
  assumes "issue_env E (tb_issuer_key b) random" "wf_tct_builder E b" "draft E random clock b = Ok (c, vo)"
  shows "wf_tct_claims E c"
proof -
  note d = draft_Ok [OF assms(3)]
  have laws: "uuid_laws E" "sha_laws E" "is_v4 E random" "length random = 16" "wf_aid E (sg_aid (tb_issuer_key b))"
    using assms(1) by (simp_all add: issue_env_def)
  have "is_v4 E (tct_jti c) \<and> length (tct_jti c) = 16"
    using choose_jti_v4 [OF laws(1-4), of "tb_jti b" "tct_jti c"] d assms(2) by (simp add: wf_tct_builder_def)
  moreover have "wf_aid E (tct_sub c)"
    using d assms(2) laws(5) by (auto simp: wf_tct_builder_def split: if_splits)
  ultimately show ?thesis
    using d assms(2) laws(5) by (simp add: wf_tct_claims_def wf_tct_builder_def)
qed

lemma build_tct_core_ok:
  assumes env: "issue_env E (tb_issuer_key b) random" "wf_tct_builder E b"
    and built: "build E random clock b = Ok issued"
    and prints: "jcs_prints E (ser_tct_claims E (it_claims issued)) payload"
    and time: "sint now - sint (duration_secs skew) \<le> sint (tct_exp (it_claims issued))"
      "sint (tct_iat (it_claims issued)) \<le> sint now + sint (duration_secs skew)"
      "\<forall>t. cap = Some t \<longrightarrow> sint (tct_exp (it_claims issued)) \<le> sint t"
  shows "tct_core_ok E \<lparr>cc_issuer = sg_aid (tb_issuer_key b), cc_now = now, cc_clock_skew = skew,
      cc_issuer_manifest_expires_at = cap\<rparr> (it_token issued) (canon_tct (it_claims issued))"
proof -
  let ?sg = "tb_issuer_key b" and ?c = "it_claims issued"
  from built obtain vo where dr: "draft E random clock b = Ok (?c, vo)"
    and tok: "sign_compact E ?sg TYP_TCT (ser_tct_claims E ?c) = Ok (it_token issued)"
    by (auto simp: build_def)
  note d = draft_Ok [OF dr]
  have wf: "wf_tct_claims E ?c" by (rule draft_wf [OF env dr])
  have laws: "b64_laws E" "sig_laws E" "sha_laws E" "\<forall>k. sg_signing_key ?sg = Some k \<longrightarrow> sk_wf E k"
      "header_parses E (jose_alg (aid_algorithm (sg_aid ?sg))) TYP_TCT" "uuid_laws E"
    using env(1) by (simp_all add: issue_env_def)
  note uk = unique_keys_ser_tct [OF wf]
  have "signed_document E (sg_aid ?sg) TYP_TCT (it_token issued) (jcs_sort (ser_tct_claims E ?c))"
    using sign_compact_signed_document [OF laws(1-5)] prints uk tok unfolding ser_tct_claims_def by blast
  moreover have "\<exists>vk. vk_from_aid E (tct_sub ?c) = Ok vk \<and> to_jwk_thumbprint_sha256 E vk = Ok (jkt (tct_cnf ?c))"
  proof -
    obtain pk where pk: "pubkey_compressed_bytes E (tct_sub ?c) = Ok (to_compressed E pk)"
      "to_jwk_thumbprint_sha256 E pk = Ok (jkt (tct_cnf ?c))"
      "if tb_attestation b then vk_from_aid E (sg_aid ?sg) = Ok pk else tb_subject_pubkey b = Some pk"
      using d by blast
    have "vk_from_aid E (tct_sub ?c) = Ok pk"
    proof (cases "tb_attestation b")
      case True
      then show ?thesis using pk(3) d by simp
    next
      case False
      then have "vk_wf E pk" using pk(3) env(2) by (simp add: wf_tct_builder_def)
      with pk(1) wf show ?thesis by (intro vk_from_aid_of_key) (simp_all add: wf_tct_claims_def)
    qed
    with pk(2) show ?thesis by blast
  qed
  ultimately show ?thesis
    using de_ser_tct_claims [OF laws(6) wf] unique_keys_jcs_sort [OF uk] d time
    by (auto simp: tct_core_ok_def canon_tct_def)
qed

lemma build_voucher_verifies:
  assumes "issue_env E (tb_issuer_key b) random" "wf_tct_builder E b"
    and "build E random clock b = Ok issued" "it_voucher issued = Some voucher"
    and "jcs_prints E (ser_voucher_claims E (voucher_of (it_claims issued))) payload"
  shows "verify_voucher E voucher (sg_aid (tb_issuer_key b)) = Ok (voucher_of (it_claims issued))"
proof -
  let ?sg = "tb_issuer_key b" and ?c = "it_claims issued"
  from assms(3,4) obtain v where dr: "draft E random clock b = Ok (?c, Some v)"
    and tok: "sign_compact E ?sg TYP_GRANT_VOUCHER (ser_voucher_claims E v) = Ok voucher"
    by (auto simp: build_def split: option.splits)
  note d = draft_Ok [OF dr]
  have v: "v = voucher_of ?c" using d by blast
  have wf: "wf_voucher_claims E v"
    using draft_wf [OF assms(1,2) dr] by (simp add: v voucher_of_def wf_tct_claims_def wf_voucher_claims_def)
  note uk = unique_keys_ser_voucher [OF wf]
  have laws: "b64_laws E" "sig_laws E" "sha_laws E" "\<forall>k. sg_signing_key ?sg = Some k \<longrightarrow> sk_wf E k"
      "header_parses E (jose_alg (aid_algorithm (sg_aid ?sg))) TYP_GRANT_VOUCHER" "uuid_laws E"
    using assms(1) by (simp_all add: issue_env_def)
  have pr: "jcs_prints E (ser_voucher_claims E v) payload" using assms(5) by (simp add: v)
  let ?j = "jcs_sort (ser_voucher_claims E v)"
  have vc: "verify_compact E (sg_aid ?sg) TYP_GRANT_VOUCHER voucher = Ok payload"
    using sign_compact_verifies [OF laws(1-5)] pr uk tok unfolding ser_voucher_claims_def by blast
  have doc: "json_document E payload = Ok ?j" by (rule json_document_prints [OF pr])
  have de: "de_voucher_claims E ?j = Ok v"
    using de_ser_voucher_claims [OF laws(6) wf] by (simp add: canon_voucher_def v voucher_of_def)
  have "peek_claims E ''GrantVoucherClaims'' GRANT_VOUCHER_CLAIMS_MEMBERS ''src_jti'' TYP_GRANT_VOUCHER voucher = Ok ()"
    using peek_voucher [OF vc doc de] unique_keys_jcs_sort [OF uk] by blast
  moreover from d have "tct_ver ?c = PROTOCOL_VERSION" "tct_iss ?c = sg_aid ?sg" "tct_grants ?c \<noteq> []" by blast+
  then have "gv_ver v = PROTOCOL_VERSION" "gv_iss v = sg_aid ?sg" "gv_grants v \<noteq> []"
    by (simp_all add: v voucher_of_def)
  ultimately show ?thesis using vc doc de by (simp add: verify_voucher_def v)
qed


text \<open>
  The voucher that comes with a token is accepted by \<open>verify_voucher\<close> under the
  issuer's AID, and says exactly what the token says: same issuer, subject, grants,
  validity and identifier.
\<close>

lemma built_voucher_mirrors_tct:
  assumes "issue_env E (tb_issuer_key b) random" "wf_tct_builder E b"
    and "build E random clock b = Ok issued" "it_voucher issued = Some voucher"
    and "jcs_prints E (ser_voucher_claims E (voucher_of (it_claims issued))) payload"
  shows "verify_voucher E voucher (sg_aid (tb_issuer_key b)) = Ok (voucher_of (it_claims issued))"
  by (rule build_voucher_verifies [OF assms])

text \<open>
  The holder of a token that \<open>verify_tct\<close> accepted, answering with the signer of the
  token's subject, passes the proof of possession until the challenge expires.
\<close>

lemma pop_honest_holder_passes:
  assumes "b64_laws E" "sig_laws E" "sha_laws E" "\<forall>k. sg_signing_key sg = Some k \<longrightarrow> sk_wf E k"
    and "verify_tct E token ctx = Ok v" "sg_aid sg = tct_sub (vt_claims v)"
    and "pc_tct_jti ch = tct_jti (vt_claims v)" "sint now \<le> sint (pc_expires_at ch)"
    and "sign_pop_response E ch sg = Ok r"
  shows "verify_pop_response E ch r (vt_claims v) now = Ok ()"
proof -
  obtain nonce sig where n: "decode_strict E (pc_nonce ch) = Ok nonce" "signer_sign_jcs E sg (sha256 E nonce) = Ok sig"
    and r: "r = \<lparr>pr_tct_jti = pc_tct_jti ch, pr_nonce_echo = pc_nonce ch, pr_pop_signature = sig_as_str sig\<rparr>"
    using assms(9) by (auto simp: sign_pop_response_def)
  have len: "length (sha256 E nonce) = 32" using assms(3) by (simp add: sha_laws_def)
  obtain vk where vk: "vk_from_aid E (tct_sub (vt_claims v)) = Ok vk" "verify_jcs E vk (sha256 E nonce) sig = Ok ()"
    using signer_sign_jcs_sound [OF assms(1-4) n(2) len] assms(6) by auto
  have "to_jwk_thumbprint_sha256 E vk = Ok (jkt (tct_cnf (vt_claims v)))"
    using assms(5) vk(1)
    by (auto simp: verify_tct_def verify_tct_before_revocation_def core_verify_Ok tct_core_ok_def)
  with n vk signer_sign_jcs_parses [OF assms(1-4) n(2) len] assms(7,8) show ?thesis
    by (simp add: verify_pop_response_Ok r)
qed

end
