(* ===== verification/Manifest_Types.thy ===== *)
theory Manifest_Types
  imports Tct_Build
begin

text \<open>
  The Manifest as data (\<open>manifest/types.rs\<close>, \<open>manifest/error.rs\<close>, \<open>core/raw_url.rs\<close> and
  the identity kinds of \<open>handshake/identity.rs\<close>): the records, their JSON form, the strict
  typed parse, and the signing view of \<open>manifest/builder.rs\<close>, which is the Manifest without
  its outer signature. Shown here: a printed Manifest parses back to itself.
\<close>

text \<open>\<open>RawUrl\<close> keeps the wire bytes verbatim; it is a transparent wrapper in JSON.\<close>

datatype raw_url = RawUrl string

fun url_as_str :: "raw_url \<Rightarrow> string" where
  "url_as_str (RawUrl s) = s"

fun de_url :: "json \<Rightarrow> (serde_error, raw_url) result" where
  "de_url (JStr s) = Ok (RawUrl s)"
| "de_url _ = Err SerdeOther"

datatype identity_kind = Oidc | PinnedKey | Spiffe

fun kind_as_str :: "identity_kind \<Rightarrow> string" where
  "kind_as_str Oidc = ''oidc''"
| "kind_as_str PinnedKey = ''pinned_key''"
| "kind_as_str Spiffe = ''spiffe''"

definition kind_of_name :: "string \<Rightarrow> (serde_error, identity_kind) result" where
  "kind_of_name s =
     (if s = ''oidc'' then Ok Oidc
      else if s = ''pinned_key'' then Ok PinnedKey
      else if s = ''spiffe'' then Ok Spiffe
      else Err SerdeOther)"

text \<open>
  A derived unit variant is read from its name, and also from the externally tagged
  object with that one name and a \<open>null\<close> content.
\<close>

fun de_kind :: "json \<Rightarrow> (serde_error, identity_kind) result" where
  "de_kind (JStr s) = kind_of_name s"
| "de_kind (JObj [(s, JNull)]) = kind_of_name s"
| "de_kind _ = Err SerdeOther"

record identity_hint =
  ih_kind :: identity_kind
  ih_subject :: string
  ih_issuer :: "raw_url option"
  ih_public_key :: "string option"

record manifest_pop =
  mp_challenge :: string
  mp_signature :: string

record manifest =
  m_version :: string
  m_aid :: aid
  m_display_name :: "string option"
  m_identity_hint :: identity_hint
  m_handshake_endpoint :: raw_url
  m_accepted_trust_anchors :: "raw_url list"
  m_accepted_identity_types :: "string list option"
  m_accepted_signature_algorithms :: "string list option"
  m_offered_capabilities :: "string list"
  m_required_peer_capabilities :: "string list option"
  m_proof_of_possession :: manifest_pop
  m_published_at :: timestamp
  m_expires_at :: timestamp
  m_extensions :: "extensions_map option"
  m_signature :: string

definition MANIFEST_MEMBERS :: "string list" where
  "MANIFEST_MEMBERS =
     [''version'', ''aid'', ''display_name'', ''identity_hint'', ''handshake_endpoint'', ''accepted_trust_anchors'',
      ''offered_capabilities'', ''required_peer_capabilities'', ''accepted_identity_types'',
      ''accepted_signature_algorithms'', ''proof_of_possession'', ''published_at'', ''expires_at'', ''extensions'',
      ''signature'']"

text \<open>\<open>Malformed\<close> names the member outside its grammar, or nothing for a typed-parse failure.\<close>

datatype manifest_error =
    ManifestExpired
  | ManifestSignatureInvalid
  | ManifestPopFailed
  | AidMismatch
  | ManifestNotFound
  | IncompatibleIdentityType identity_kind
  | ManifestVersionUnknown
  | IdentityHintMalformed string
  | ManifestMissingField string
  | ManifestCanonicalization
  | ManifestCrypto crypto_error
  | ManifestRng
  | ManifestUnknownField string
  | ManifestMalformed "string option"

subsection \<open>JSON form\<close>

definition opt_str_member :: "string \<Rightarrow> string option \<Rightarrow> (string \<times> json) list" where
  "opt_str_member k v = (case v of None \<Rightarrow> [] | Some s \<Rightarrow> [(k, JStr s)])"

definition opt_strs_member :: "string \<Rightarrow> string list option \<Rightarrow> (string \<times> json) list" where
  "opt_strs_member k v = (case v of None \<Rightarrow> [] | Some xs \<Rightarrow> [(k, ser_strings xs)])"

definition ser_url :: "raw_url \<Rightarrow> json" where
  "ser_url u = JStr (url_as_str u)"

definition hint_members :: "identity_hint \<Rightarrow> (string \<times> json) list" where
  "hint_members h =
     [(''type'', JStr (kind_as_str (ih_kind h))), (''subject'', JStr (ih_subject h))] @
     opt_str_member ''issuer'' (map_option url_as_str (ih_issuer h)) @
     opt_str_member ''public_key'' (ih_public_key h)"

definition ser_hint :: "identity_hint \<Rightarrow> json" where
  "ser_hint h = JObj (hint_members h)"

definition ser_pop :: "manifest_pop \<Rightarrow> json" where
  "ser_pop p = JObj [(''challenge'', JStr (mp_challenge p)), (''signature'', JStr (mp_signature p))]"

text \<open>The signing view: every member but the outer signature.\<close>

definition manifest_signing_view :: "manifest \<Rightarrow> (string \<times> json) list" where
  "manifest_signing_view m =
     [(''version'', JStr (m_version m)), (''aid'', ser_aid (m_aid m))] @
     opt_str_member ''display_name'' (m_display_name m) @
     [(''identity_hint'', ser_hint (m_identity_hint m)),
      (''handshake_endpoint'', ser_url (m_handshake_endpoint m)),
      (''accepted_trust_anchors'', JArr (map ser_url (m_accepted_trust_anchors m)))] @
     opt_strs_member ''accepted_identity_types'' (m_accepted_identity_types m) @
     opt_strs_member ''accepted_signature_algorithms'' (m_accepted_signature_algorithms m) @
     [(''offered_capabilities'', ser_strings (m_offered_capabilities m))] @
     opt_strs_member ''required_peer_capabilities'' (m_required_peer_capabilities m) @
     [(''proof_of_possession'', ser_pop (m_proof_of_possession m)),
      (''published_at'', ser_time (m_published_at m)), (''expires_at'', ser_time (m_expires_at m))] @
     opt_member ''extensions'' (m_extensions m)"

definition manifest_signing_bytes :: "externals \<Rightarrow> manifest \<Rightarrow> (manifest_error, bytes) result" where
  "manifest_signing_bytes E m = ok_or ManifestCanonicalization (canonicalize E (JObj (manifest_signing_view m)))"

definition ser_manifest :: "manifest \<Rightarrow> json" where
  "ser_manifest m = JObj (manifest_signing_view m @ [(''signature'', JStr (m_signature m))])"

definition ser_manifest_envelope :: "manifest \<Rightarrow> json" where
  "ser_manifest_envelope m = JObj [(''manifest'', ser_manifest m)]"

text \<open>\<open>present\<close>: an optional member is absent or has its type; \<open>null\<close> is an error.\<close>

definition de_present :: "(string \<times> json) list \<Rightarrow> string \<Rightarrow> (json \<Rightarrow> (serde_error, 'a) result) \<Rightarrow> (serde_error, 'a option) result" where
  "de_present ms k de =
     (case map_of ms k of None \<Rightarrow> Ok None | Some j \<Rightarrow> and_then (de j) (\<lambda>x. Ok (Some x)))"

definition hint_fields :: "field_spec list" where
  "hint_fields =
     [(''type'', Required, de_void de_kind), (''subject'', Required, de_void de_string),
      (''issuer'', Defaulted, de_void de_url), (''public_key'', Defaulted, de_void de_string)]"

definition de_hint :: "json \<Rightarrow> (serde_error, identity_hint) result" where
  "de_hint j =
     and_then (de_struct hint_fields j) (\<lambda>ms.
     and_then (de_field ms ''type'' de_kind) (\<lambda>kind.
     and_then (de_field ms ''subject'' de_string) (\<lambda>subject.
     and_then (de_present ms ''issuer'' de_url) (\<lambda>issuer.
     and_then (de_present ms ''public_key'' de_string) (\<lambda>public_key.
     Ok \<lparr>ih_kind = kind, ih_subject = subject, ih_issuer = issuer, ih_public_key = public_key\<rparr>)))))"

definition de_pop :: "json \<Rightarrow> (serde_error, manifest_pop) result" where
  "de_pop j =
     and_then (de_struct [(''challenge'', Required, de_void de_string), (''signature'', Required, de_void de_string)] j) (\<lambda>ms.
     and_then (de_field ms ''challenge'' de_string) (\<lambda>challenge.
     and_then (de_field ms ''signature'' de_string) (\<lambda>sig.
     Ok \<lparr>mp_challenge = challenge, mp_signature = sig\<rparr>)))"

definition manifest_fields :: "externals \<Rightarrow> field_spec list" where
  "manifest_fields E =
     [(''version'', Required, de_void de_string), (''aid'', Required, de_void (de_aid E)),
      (''display_name'', Defaulted, de_void de_string), (''identity_hint'', Required, de_void de_hint),
      (''handshake_endpoint'', Required, de_void de_url),
      (''accepted_trust_anchors'', Required, de_void (de_vec de_url)),
      (''accepted_identity_types'', Defaulted, de_void (de_vec de_string)),
      (''accepted_signature_algorithms'', Defaulted, de_void (de_vec de_string)),
      (''offered_capabilities'', Required, de_void (de_vec de_string)),
      (''required_peer_capabilities'', Defaulted, de_void (de_vec de_string)),
      (''proof_of_possession'', Required, de_void de_pop), (''published_at'', Required, de_void de_i64),
      (''expires_at'', Required, de_void de_i64), (''extensions'', Defaulted, de_void de_ext),
      (''signature'', Required, de_void de_string)]"

definition de_manifest :: "externals \<Rightarrow> json \<Rightarrow> (serde_error, manifest) result" where
  "de_manifest E j =
     and_then (de_struct (manifest_fields E) j) (\<lambda>ms.
     and_then (de_field ms ''version'' de_string) (\<lambda>version.
     and_then (de_field ms ''aid'' (de_aid E)) (\<lambda>aid.
     and_then (de_present ms ''display_name'' de_string) (\<lambda>display_name.
     and_then (de_field ms ''identity_hint'' de_hint) (\<lambda>hint.
     and_then (de_field ms ''handshake_endpoint'' de_url) (\<lambda>endpoint.
     and_then (de_field ms ''accepted_trust_anchors'' (de_vec de_url)) (\<lambda>anchors.
     and_then (de_present ms ''accepted_identity_types'' (de_vec de_string)) (\<lambda>types.
     and_then (de_present ms ''accepted_signature_algorithms'' (de_vec de_string)) (\<lambda>algorithms.
     and_then (de_field ms ''offered_capabilities'' (de_vec de_string)) (\<lambda>offered.
     and_then (de_present ms ''required_peer_capabilities'' (de_vec de_string)) (\<lambda>needed.
     and_then (de_field ms ''proof_of_possession'' de_pop) (\<lambda>pop.
     and_then (de_field ms ''published_at'' de_i64) (\<lambda>published_at.
     and_then (de_field ms ''expires_at'' de_i64) (\<lambda>expires_at.
     and_then (de_present ms ''extensions'' de_ext) (\<lambda>extensions.
     and_then (de_field ms ''signature'' de_string) (\<lambda>sig.
     Ok \<lparr>m_version = version, m_aid = aid, m_display_name = display_name, m_identity_hint = hint,
         m_handshake_endpoint = endpoint, m_accepted_trust_anchors = anchors, m_accepted_identity_types = types,
         m_accepted_signature_algorithms = algorithms, m_offered_capabilities = offered,
         m_required_peer_capabilities = needed, m_proof_of_possession = pop, m_published_at = published_at,
         m_expires_at = expires_at, m_extensions = extensions, m_signature = sig\<rparr>))))))))))))))))"

subsection \<open>Round trip\<close>

definition wf_manifest :: "externals \<Rightarrow> manifest \<Rightarrow> bool" where
  "wf_manifest E m \<longleftrightarrow> wf_aid E (m_aid m) \<and> (\<forall>x. m_extensions m = Some x \<longrightarrow> wf_ext x)"

lemma de_ser_url [simp]: "de_url (ser_url u) = Ok u"
  by (cases u) (simp add: ser_url_def)

lemma de_ser_urls [simp]: "de_list de_url (map ser_url us) = Ok us"
  by (induction us) simp_all

lemma kind_of_name_str [simp]: "kind_of_name (kind_as_str k) = Ok k"
  by (cases k) (simp_all add: kind_of_name_def)

lemma de_ser_hint [simp]: "de_hint (ser_hint h) = Ok h"
  by (cases h; cases "ih_issuer h"; cases "ih_public_key h"; cases "the (ih_issuer h)")
    (simp_all add: de_hint_def ser_hint_def hint_members_def hint_fields_def opt_str_member_def de_struct_def
      de_field_def de_present_def de_void_def)

lemma de_ser_pop [simp]: "de_pop (ser_pop p) = Ok p"
  by (cases p) (simp add: de_pop_def ser_pop_def de_struct_def de_field_def de_void_def)

lemma keys_opt_members [simp]:
  "map fst (opt_str_member k v) = (if v = None then [] else [k])"
  "map fst (opt_strs_member k vs) = (if vs = None then [] else [k])"
  "map fst (opt_member k x) = (if x = None then [] else [k])"
  by (auto simp: opt_str_member_def opt_strs_member_def opt_member_def split: option.splits)

lemma map_of_opt_members [simp]:
  "map_of (opt_str_member k v) k' = (if k' = k \<and> v \<noteq> None then Some (JStr (the v)) else None)"
  "map_of (opt_strs_member k vs) k' = (if k' = k \<and> vs \<noteq> None then Some (ser_strings (the vs)) else None)"
  "map_of (opt_member k x) k' = (if k' = k \<and> x \<noteq> None then Some (JObj (the x)) else None)"
  by (auto simp: opt_str_member_def opt_strs_member_def opt_member_def split: option.splits)

lemma set_opt_members:
  "(a, b) \<in> set (opt_str_member k v) \<longleftrightarrow> a = k \<and> v \<noteq> None \<and> b = JStr (the v)"
  "(a, b) \<in> set (opt_strs_member k vs) \<longleftrightarrow> a = k \<and> vs \<noteq> None \<and> b = ser_strings (the vs)"
  "(a, b) \<in> set (opt_member k x) \<longleftrightarrow> a = k \<and> x \<noteq> None \<and> b = JObj (the x)"
  by (auto simp: opt_str_member_def opt_strs_member_def opt_member_def split: option.splits)

definition manifest_doc :: "manifest \<Rightarrow> (string \<times> json) list" where
  "manifest_doc m = manifest_signing_view m @ [(''signature'', JStr (m_signature m))]"

lemma manifest_doc_keys: "fst ` set (manifest_doc m) \<subseteq> set MANIFEST_MEMBERS"
  by (auto simp: manifest_doc_def manifest_signing_view_def MANIFEST_MEMBERS_def set_opt_members)

lemma manifest_doc_distinct: "distinct (map fst (manifest_doc m))"
  by (simp add: manifest_doc_def manifest_signing_view_def)

lemma manifest_doc_de_map:
  assumes "wf_manifest E m"
  shows "de_map (manifest_fields E) [] (manifest_doc m) = Ok ()"
proof -
  have iss: "de_aid E (ser_aid (m_aid m)) = Ok (m_aid m)" using assms by (simp add: wf_manifest_def de_aid_ser)
  have ext: "de_ext (JObj (the (m_extensions m))) = Ok (the (m_extensions m))" if "m_extensions m \<noteq> None"
    using that assms by (auto simp: wf_manifest_def intro!: de_ext_wf simp del: de_ext.simps)
  show ?thesis
    unfolding de_map_iff
  proof (intro conjI)
    show "distinct (map fst (manifest_doc m))" by (rule manifest_doc_distinct)
    show "\<forall>(k, v)\<in>set (manifest_doc m). \<exists>kind de. map_of (manifest_fields E) k = Some (kind, de) \<and> de v = Ok ()"
      using iss ext
      by (auto simp: manifest_doc_def manifest_signing_view_def set_opt_members manifest_fields_def de_void_def
          simp del: de_ext.simps)
    show "\<forall>(k, kind, de)\<in>set (manifest_fields E). kind = Required \<longrightarrow> k \<in> fst ` set (manifest_doc m)"
      by (simp add: manifest_fields_def manifest_doc_def manifest_signing_view_def)
  qed
qed

lemma de_ser_manifest:
  assumes "wf_manifest E m"
  shows "de_manifest E (ser_manifest m) = Ok m"
proof -
  have iss: "de_aid E (ser_aid (m_aid m)) = Ok (m_aid m)" using assms by (simp add: wf_manifest_def de_aid_ser)
  have ext: "de_ext (JObj (the (m_extensions m))) = Ok (the (m_extensions m))" if "m_extensions m \<noteq> None"
    using that assms by (auto simp: wf_manifest_def intro!: de_ext_wf simp del: de_ext.simps)
  have "de_struct (manifest_fields E) (ser_manifest m) = Ok (manifest_doc m)"
    using manifest_doc_de_map [OF assms] by (simp add: de_struct_def ser_manifest_def manifest_doc_def)
  moreover have "de_present (manifest_doc m) ''extensions'' de_ext = Ok (m_extensions m)"
    using ext by (cases "m_extensions m")
      (simp_all add: de_present_def manifest_doc_def manifest_signing_view_def map_add_def del: de_ext.simps)
  moreover have "de_present (manifest_doc m) ''display_name'' de_string = Ok (m_display_name m)"
      "de_present (manifest_doc m) ''accepted_identity_types'' (de_vec de_string) = Ok (m_accepted_identity_types m)"
      "de_present (manifest_doc m) ''accepted_signature_algorithms'' (de_vec de_string) = Ok (m_accepted_signature_algorithms m)"
      "de_present (manifest_doc m) ''required_peer_capabilities'' (de_vec de_string) = Ok (m_required_peer_capabilities m)"
    by (auto simp: de_present_def manifest_doc_def manifest_signing_view_def map_add_def)
  moreover have
      "de_field (manifest_doc m) ''version'' de_string = Ok (m_version m)"
      "de_field (manifest_doc m) ''aid'' (de_aid E) = Ok (m_aid m)"
      "de_field (manifest_doc m) ''identity_hint'' de_hint = Ok (m_identity_hint m)"
      "de_field (manifest_doc m) ''handshake_endpoint'' de_url = Ok (m_handshake_endpoint m)"
      "de_field (manifest_doc m) ''accepted_trust_anchors'' (de_vec de_url) = Ok (m_accepted_trust_anchors m)"
      "de_field (manifest_doc m) ''offered_capabilities'' (de_vec de_string) = Ok (m_offered_capabilities m)"
      "de_field (manifest_doc m) ''proof_of_possession'' de_pop = Ok (m_proof_of_possession m)"
      "de_field (manifest_doc m) ''published_at'' de_i64 = Ok (m_published_at m)"
      "de_field (manifest_doc m) ''expires_at'' de_i64 = Ok (m_expires_at m)"
      "de_field (manifest_doc m) ''signature'' de_string = Ok (m_signature m)"
    using iss by (simp_all add: de_field_def manifest_doc_def manifest_signing_view_def map_add_def)
  ultimately show ?thesis
    by (simp add: de_manifest_def)
qed

end
