(* ===== verification/Manifest_Verify.thy ===== *)
theory Manifest_Verify
  imports Manifest_Types
begin

text \<open>
  Manifest verification (\<open>manifest/verifier.rs\<close>) and resolution by AID
  (\<open>manifest/resolver.rs\<close>): the value grammar, the two signatures, the strict wire parse,
  the identity-type check and the sources of Manifests.

  Shown here: the grammar check accepts exactly the documented grammar; verification accepts
  exactly the Manifests of the supported version, inside the grammar, not expired, with a
  proof of possession and an outer signature of the key the AID encodes; a Manifest resolved
  for an AID is one verified under that AID's own key.
\<close>

subsection \<open>Grammar\<close>

definition is_ascii_graphic :: "char \<Rightarrow> bool" where
  "is_ascii_graphic c \<longleftrightarrow> 0x21 \<le> (of_char c :: nat) \<and> (of_char c :: nat) \<le> 0x7E"

definition is_ascii_lowercase :: "char \<Rightarrow> bool" where
  "is_ascii_lowercase c \<longleftrightarrow> 97 \<le> (of_char c :: nat) \<and> (of_char c :: nat) \<le> 122"

definition is_ascii_digit :: "char \<Rightarrow> bool" where
  "is_ascii_digit c \<longleftrightarrow> 48 \<le> (of_char c :: nat) \<and> (of_char c :: nat) \<le> 57"

definition is_ascii_alphanumeric :: "char \<Rightarrow> bool" where
  "is_ascii_alphanumeric c \<longleftrightarrow>
     is_ascii_lowercase c \<or> is_ascii_digit c \<or> 65 \<le> (of_char c :: nat) \<and> (of_char c :: nat) \<le> 90"

definition is_ascii_hexdigit :: "char \<Rightarrow> bool" where
  "is_ascii_hexdigit c \<longleftrightarrow>
     is_ascii_digit c \<or> 65 \<le> (of_char c :: nat) \<and> (of_char c :: nat) \<le> 70 \<or>
     97 \<le> (of_char c :: nat) \<and> (of_char c :: nat) \<le> 102"

text \<open>\<open>chars().count()\<close> on UTF-8: every byte that is not a continuation byte starts a character.\<close>

definition chars_count :: "string \<Rightarrow> nat" where
  "chars_count s = length (filter (\<lambda>c. \<not> (0x80 \<le> (of_char c :: nat) \<and> (of_char c :: nat) \<le> 0xBF)) s)"

text \<open>\<open>str::rsplit_once(c)\<close>: the parts before and after the last separator.\<close>

definition rsplit_once :: "char \<Rightarrow> string \<Rightarrow> (string \<times> string) option" where
  "rsplit_once c s = (case split_once c (rev s) of None \<Rightarrow> None | Some (a, b) \<Rightarrow> Some (rev b, rev a))"

definition url_parses :: "externals \<Rightarrow> string \<Rightarrow> bool" where
  "url_parses E s \<longleftrightarrow> url_host E s \<noteq> None"

definition uri_parts :: "string \<Rightarrow> string \<times> string" where
  "uri_parts s =
     (let rest = (case split_once CHR '':'' s of Some (_, rest) \<Rightarrow> rest | None \<Rightarrow> s) in
      case strip_prefix ''//'' rest of
        Some after \<Rightarrow>
          (let in_authority = (\<lambda>c. c \<notin> {CHR ''/'', CHR ''?'', CHR ''#''});
               authority = takeWhile in_authority after;
               tail = dropWhile in_authority after in
           ((case rsplit_once CHR ''@'' authority of Some (u, _) \<Rightarrow> u | None \<Rightarrow> []), tail))
      | None \<Rightarrow> ([], rest))"

definition is_uri :: "externals \<Rightarrow> string \<Rightarrow> bool" where
  "is_uri E s =
     (let (userinfo, after_authority) = uri_parts s in
      list_all (\<lambda>b. is_ascii_graphic b \<and> b \<notin> {CHR 0x22, CHR ''<'', CHR ''>'', CHR 0x5C, CHR ''^'', CHR 0x60,
                     CHR ''{'', CHR ''|'', CHR ''}''}) s \<and>
      list_all (\<lambda>escaped. 2 \<le> length escaped \<and> list_all is_ascii_hexdigit (take 2 escaped)) (tl (split_on CHR ''%'' s)) \<and>
      \<not> list_ex (\<lambda>c. c \<in> {CHR ''['', CHR '']'', CHR ''@''}) userinfo \<and>
      \<not> list_ex (\<lambda>c. c \<in> {CHR ''['', CHR '']''}) after_authority \<and>
      count_list after_authority CHR ''#'' \<le> 1 \<and>
      url_parses E s)"

definition is_https_uri :: "externals \<Rightarrow> string \<Rightarrow> bool" where
  "is_https_uri E s \<longleftrightarrow> starts_with ''https://'' s \<and> is_uri E s"

definition is_localhost_http :: "externals \<Rightarrow> string \<Rightarrow> bool" where
  "is_localhost_http E s \<longleftrightarrow>
     starts_with ''http://'' s \<and> is_uri E s \<and>
     (url_host E s = Some (Some ''localhost'') \<or> url_host E s = Some (Some ''127.0.0.1''))"

text \<open>\<open>HashSet::insert\<close> on every item, stopping at the first repeat.\<close>

fun all_unique_from :: "string list \<Rightarrow> string list \<Rightarrow> bool" where
  "all_unique_from seen [] = True"
| "all_unique_from seen (i # is) = (i \<notin> set seen \<and> all_unique_from (i # seen) is)"

definition all_unique :: "string list \<Rightarrow> bool" where
  "all_unique items = all_unique_from [] items"

text \<open>ECMA-262 white space as byte patterns: Unicode white space without U+0085, with U+FEFF.\<close>

definition starts_ecma_space :: "nat list \<Rightarrow> bool" where
  "starts_ecma_space bs \<longleftrightarrow>
     starts_whitespace bs \<and> take 2 bs \<noteq> [0xC2, 0x85] \<or> take 3 bs = [0xEF, 0xBB, 0xBF]"

fun any_ecma_space :: "nat list \<Rightarrow> bool" where
  "any_ecma_space [] = False"
| "any_ecma_space (a # r) = (starts_ecma_space (a # r) \<or> any_ecma_space r)"

definition is_capability_list :: "string list \<Rightarrow> bool" where
  "is_capability_list capabilities \<longleftrightarrow>
     list_all (\<lambda>c. c \<noteq> [] \<and> \<not> any_ecma_space (map of_char c)) capabilities \<and> all_unique capabilities"

definition is_base64url :: "string \<Rightarrow> bool" where
  "is_base64url s \<longleftrightarrow> list_all (\<lambda>b. is_ascii_alphanumeric b \<or> b = CHR ''-'' \<or> b = CHR ''_'') s"

definition is_signature :: "string \<Rightarrow> bool" where
  "is_signature s =
     (let bare = (case strip_prefix ''ed25519.'' s of
                    Some r \<Rightarrow> r
                  | None \<Rightarrow> (case strip_prefix ''p256.'' s of Some r \<Rightarrow> r | None \<Rightarrow> s)) in
      length bare = 86 \<and> is_base64url bare)"

definition is_spiffe_segment :: "string \<Rightarrow> bool" where
  "is_spiffe_segment segment \<longleftrightarrow>
     list_all (\<lambda>b. is_ascii_alphanumeric b \<or> b \<in> {CHR ''.'', CHR ''_'', CHR ''-''}) segment \<and>
     (3 \<le> length segment \<or> list_ex (\<lambda>b. b \<noteq> CHR ''.'') segment) \<and> segment \<noteq> []"

definition is_spiffe_id :: "string \<Rightarrow> bool" where
  "is_spiffe_id s =
     (if 2048 < chars_count s then False
      else (case strip_prefix ''spiffe://'' s of
        None \<Rightarrow> False
      | Some rest \<Rightarrow>
          (case split_once CHR ''/'' rest of
             None \<Rightarrow> False
           | Some (domain, path) \<Rightarrow>
               1 \<le> length domain \<and> length domain \<le> 255 \<and>
               list_all (\<lambda>b. is_ascii_lowercase b \<or> is_ascii_digit b \<or> b \<in> {CHR ''.'', CHR ''_'', CHR ''-''}) domain \<and>
               list_all is_spiffe_segment (split_on CHR ''/'' path))))"

record manifest_verify_context =
  mc_now :: timestamp
  mc_insecure_localhost :: bool

definition manifest_context_at :: "timestamp \<Rightarrow> manifest_verify_context" where
  "manifest_context_at now = \<lparr>mc_now = now, mc_insecure_localhost = False\<rparr>"

definition with_insecure_localhost_dangerous :: "manifest_verify_context \<Rightarrow> manifest_verify_context" where
  "with_insecure_localhost_dangerous ctx = ctx\<lparr>mc_insecure_localhost := True\<rparr>"

text \<open>The members of \<open>identity_hint\<close> its kind requires or forbids, as the builder checks them too.\<close>

definition hint_shape :: "identity_hint \<Rightarrow> (manifest_error, unit) result" where
  "hint_shape hint =
     (case ih_kind hint of
        Oidc \<Rightarrow>
          and_then (ensure (IdentityHintMalformed ''oidc requires issuer'') (ih_issuer hint \<noteq> None)) (\<lambda>_.
          ensure (IdentityHintMalformed ''oidc must not include public_key'') (ih_public_key hint = None))
      | PinnedKey \<Rightarrow> ensure (IdentityHintMalformed ''pinned_key requires public_key'') (ih_public_key hint \<noteq> None)
      | Spiffe \<Rightarrow>
          and_then (ensure (IdentityHintMalformed ''spiffe must not include issuer'') (ih_issuer hint = None)) (\<lambda>_.
          ensure (IdentityHintMalformed ''spiffe must not include public_key'') (ih_public_key hint = None)))"

definition within :: "bool \<Rightarrow> string \<Rightarrow> (manifest_error, unit) result" where
  "within ok member = ensure (ManifestMalformed (Some member)) ok"

definition within_opt :: "('a \<Rightarrow> bool) \<Rightarrow> 'a option \<Rightarrow> string \<Rightarrow> (manifest_error, unit) result" where
  "within_opt ok v member = (case v of None \<Rightarrow> Ok () | Some x \<Rightarrow> within (ok x) member)"

definition check_hint :: "externals \<Rightarrow> identity_hint \<Rightarrow> (manifest_error, unit) result" where
  "check_hint E hint =
     and_then (within (ih_subject hint \<noteq> []) ''identity_hint.subject'') (\<lambda>_.
     and_then (within_opt (\<lambda>i. is_uri E (url_as_str i)) (ih_issuer hint) ''identity_hint.issuer'') (\<lambda>_.
     and_then (within_opt (\<lambda>key. (length key = 43 \<or> length key = 44) \<and> is_base64url key) (ih_public_key hint)
                 ''identity_hint.public_key'') (\<lambda>_.
     and_then (hint_shape hint) (\<lambda>_.
     if ih_kind hint = Spiffe then within (is_spiffe_id (ih_subject hint)) ''identity_hint.subject'' else Ok ()))))"

definition check_grammar :: "externals \<Rightarrow> manifest \<Rightarrow> manifest_verify_context \<Rightarrow> (manifest_error, unit) result" where
  "check_grammar E m ctx =
     (let endpoint = url_as_str (m_handshake_endpoint m); anchors = map url_as_str (m_accepted_trust_anchors m);
          pop = m_proof_of_possession m in
      and_then (within_opt (\<lambda>name. chars_count name \<le> 128) (m_display_name m) ''display_name'') (\<lambda>_.
      and_then (within (is_https_uri E endpoint \<or> mc_insecure_localhost ctx \<and> is_localhost_http E endpoint)
                  ''handshake_endpoint'') (\<lambda>_.
      and_then (within (list_all (is_uri E) anchors \<and> all_unique anchors) ''accepted_trust_anchors'') (\<lambda>_.
      and_then (within (is_capability_list (m_offered_capabilities m)) ''offered_capabilities'') (\<lambda>_.
      and_then (within_opt is_capability_list (m_required_peer_capabilities m) ''required_peer_capabilities'') (\<lambda>_.
      and_then (within_opt (\<lambda>types. list_all (\<lambda>t. t \<in> {''oidc'', ''pinned_key'', ''spiffe''}) types \<and> all_unique types)
                  (m_accepted_identity_types m) ''accepted_identity_types'') (\<lambda>_.
      and_then (within_opt (\<lambda>algs. list_all (\<lambda>a. a \<in> {''ed25519'', ''p256''}) algs \<and> all_unique algs)
                  (m_accepted_signature_algorithms m) ''accepted_signature_algorithms'') (\<lambda>_.
      and_then (within (length (mp_challenge pop) = 22 \<and> is_base64url (mp_challenge pop))
                  ''proof_of_possession.challenge'') (\<lambda>_.
      and_then (within (is_signature (mp_signature pop)) ''proof_of_possession.signature'') (\<lambda>_.
      and_then (within (0 \<le> sint (m_published_at m)) ''published_at'') (\<lambda>_.
      and_then (within (1 \<le> sint (m_expires_at m)) ''expires_at'') (\<lambda>_.
      and_then (within (is_signature (m_signature m)) ''signature'') (\<lambda>_.
      check_hint E (m_identity_hint m))))))))))))))"

subsection \<open>Verification\<close>

datatype verified_manifest = VerifiedManifest manifest

definition verify_manifest ::
  "externals \<Rightarrow> manifest \<Rightarrow> manifest_verify_context \<Rightarrow> (manifest_error, verified_manifest) result" where
  "verify_manifest E m ctx =
     (if m_version m \<noteq> PROTOCOL_VERSION then Err ManifestVersionUnknown
      else
        and_then (check_grammar E m ctx) (\<lambda>_.
        if is_in_the_past (m_expires_at m) (mc_now ctx) then Err ManifestExpired
        else
        and_then (map_err ManifestCrypto (vk_from_aid E (m_aid m))) (\<lambda>issuer_pubkey.
        and_then (map_err (\<lambda>_. ManifestPopFailed) (decode_strict E (mp_challenge (m_proof_of_possession m)))) (\<lambda>challenge_bytes.
        and_then (map_err (\<lambda>_. ManifestPopFailed) (signature_parse (mp_signature (m_proof_of_possession m)))) (\<lambda>pop_sig.
        and_then (map_err (\<lambda>_. ManifestPopFailed) (verify_jcs E issuer_pubkey (sha256 E challenge_bytes) pop_sig)) (\<lambda>_.
        and_then (manifest_signing_bytes E m) (\<lambda>canonical.
        and_then (map_err (\<lambda>_. ManifestSignatureInvalid) (signature_parse (m_signature m))) (\<lambda>outer_sig.
        and_then (map_err (\<lambda>_. ManifestSignatureInvalid) (verify_jcs E issuer_pubkey (sha256 E canonical) outer_sig)) (\<lambda>_.
        Ok (VerifiedManifest m))))))))))"

definition parse_manifest_wire :: "externals \<Rightarrow> checked_json \<Rightarrow> (manifest_error, manifest) result" where
  "parse_manifest_wire E checked =
     (let value = as_value checked in
      and_then
        (case json_get ''manifest'' value of
           Some inner \<Rightarrow>
             and_then (map_err (\<lambda>e. ManifestUnknownField (uf_field e))
                         (check_members ''ManifestEnvelope'' value [''manifest''])) (\<lambda>_. Ok inner)
         | None \<Rightarrow> Ok value) (\<lambda>body.
      and_then (case Option.bind (json_get ''version'' body) json_as_str of
                  Some v \<Rightarrow> ensure ManifestVersionUnknown (v = PROTOCOL_VERSION)
                | None \<Rightarrow> Ok ()) (\<lambda>_.
      and_then (map_err (\<lambda>e. ManifestUnknownField (uf_field e)) (check_members ''Manifest'' body MANIFEST_MEMBERS)) (\<lambda>_.
      map_err (\<lambda>e. case from_serde_error e of Some field \<Rightarrow> ManifestUnknownField field | None \<Rightarrow> ManifestMalformed None)
        (de_manifest E body)))))"

definition check_identity_type_compatibility :: "manifest \<Rightarrow> identity_kind \<Rightarrow> (manifest_error, unit) result" where
  "check_identity_type_compatibility peer ours =
     ensure (IncompatibleIdentityType ours)
       (case m_accepted_identity_types peer of
          None \<Rightarrow> ours = Oidc
        | Some ts \<Rightarrow> list_ex (\<lambda>t. t = kind_as_str ours) ts)"

subsection \<open>Resolution\<close>

text \<open>A \<open>ManifestResolver\<close> is its one method.\<close>

type_synonym manifest_resolver = "aid \<Rightarrow> manifest option"

definition designates :: "aid \<Rightarrow> aid \<Rightarrow> bool" where
  "designates manifest_aid aid \<longleftrightarrow>
     aid_algorithm manifest_aid = aid_algorithm aid \<and> aid_identifier manifest_aid = aid_identifier aid"

text \<open>\<open>Iterator::max_by_key\<close>: the last of several maxima.\<close>

fun max_by_published :: "manifest list \<Rightarrow> manifest option" where
  "max_by_published [] = None"
| "max_by_published (m # ms) =
     Some (fold (\<lambda>y best. if sint (m_published_at best) \<le> sint (m_published_at y) then y else best) ms m)"

definition resolve_from_list :: "manifest list \<Rightarrow> manifest_resolver" where
  "resolve_from_list ms aid = max_by_published (filter (\<lambda>m. designates (m_aid m) aid) ms)"

definition resolve_from_map :: "(aid \<rightharpoonup> manifest) \<Rightarrow> manifest_resolver" where
  "resolve_from_map ms aid = ms aid"

definition resolve_verified_manifest ::
  "externals \<Rightarrow> manifest_resolver \<Rightarrow> aid \<Rightarrow> manifest_verify_context \<Rightarrow> (manifest_error, manifest) result" where
  "resolve_verified_manifest E resolver aid ctx =
     and_then (ok_or ManifestNotFound (resolver aid)) (\<lambda>m.
     and_then (verify_manifest E m ctx) (\<lambda>_.
     if \<not> designates (m_aid m) aid then Err AidMismatch else Ok m))"

subsection \<open>The grammar, declaratively\<close>

definition opt_all :: "('a \<Rightarrow> bool) \<Rightarrow> 'a option \<Rightarrow> bool" where
  "opt_all P v = (case v of None \<Rightarrow> True | Some x \<Rightarrow> P x)"

lemma opt_all_simps [simp]: "opt_all P None" "opt_all P (Some x) = P x"
  by (simp_all add: opt_all_def)

definition hint_grammar :: "externals \<Rightarrow> identity_hint \<Rightarrow> bool" where
  "hint_grammar E h \<longleftrightarrow>
     ih_subject h \<noteq> [] \<and> opt_all (\<lambda>i. is_uri E (url_as_str i)) (ih_issuer h) \<and>
     opt_all (\<lambda>key. length key \<in> {43, 44} \<and> is_base64url key) (ih_public_key h) \<and>
     (case ih_kind h of
        Oidc \<Rightarrow> ih_issuer h \<noteq> None \<and> ih_public_key h = None
      | PinnedKey \<Rightarrow> ih_public_key h \<noteq> None
      | Spiffe \<Rightarrow> ih_issuer h = None \<and> ih_public_key h = None \<and> is_spiffe_id (ih_subject h))"

text \<open>The members whose grammar does not depend on a signature.\<close>

definition body_grammar :: "externals \<Rightarrow> bool \<Rightarrow> manifest \<Rightarrow> bool" where
  "body_grammar E insecure m \<longleftrightarrow>
     opt_all (\<lambda>name. chars_count name \<le> 128) (m_display_name m) \<and>
     (is_https_uri E (url_as_str (m_handshake_endpoint m)) \<or>
      insecure \<and> is_localhost_http E (url_as_str (m_handshake_endpoint m))) \<and>
     (\<forall>a\<in>set (m_accepted_trust_anchors m). is_uri E (url_as_str a)) \<and>
     distinct (map url_as_str (m_accepted_trust_anchors m)) \<and>
     is_capability_list (m_offered_capabilities m) \<and>
     opt_all is_capability_list (m_required_peer_capabilities m) \<and>
     opt_all (\<lambda>ts. set ts \<subseteq> {''oidc'', ''pinned_key'', ''spiffe''} \<and> distinct ts) (m_accepted_identity_types m) \<and>
     opt_all (\<lambda>as. set as \<subseteq> {''ed25519'', ''p256''} \<and> distinct as) (m_accepted_signature_algorithms m) \<and>
     0 \<le> sint (m_published_at m) \<and> 1 \<le> sint (m_expires_at m) \<and>
     hint_grammar E (m_identity_hint m)"

definition manifest_grammar :: "externals \<Rightarrow> bool \<Rightarrow> manifest \<Rightarrow> bool" where
  "manifest_grammar E insecure m \<longleftrightarrow>
     body_grammar E insecure m \<and>
     length (mp_challenge (m_proof_of_possession m)) = 22 \<and> is_base64url (mp_challenge (m_proof_of_possession m)) \<and>
     is_signature (mp_signature (m_proof_of_possession m)) \<and> is_signature (m_signature m)"

lemma all_unique_from_iff: "all_unique_from seen xs \<longleftrightarrow> distinct xs \<and> set xs \<inter> set seen = {}"
  by (induction xs arbitrary: seen) auto

lemma all_unique_iff [simp]: "all_unique xs \<longleftrightarrow> distinct xs"
  by (simp add: all_unique_def all_unique_from_iff)

lemma within_eq [simp]: "within b k = Ok () \<longleftrightarrow> b"
  by (simp add: within_def)

lemma within_opt_eq [simp]: "within_opt P v k = Ok () \<longleftrightarrow> opt_all P v"
  by (cases v) (simp_all add: within_opt_def)

lemma check_hint_Ok: "check_hint E h = Ok () \<longleftrightarrow> hint_grammar E h"
  by (cases "ih_kind h") (auto simp: check_hint_def hint_grammar_def hint_shape_def)

lemma check_grammar_Ok: "check_grammar E m ctx = Ok () \<longleftrightarrow> manifest_grammar E (mc_insecure_localhost ctx) m"
  by (auto simp: check_grammar_def Let_def manifest_grammar_def body_grammar_def check_hint_Ok list_all_iff subset_eq
      list.pred_map)

lemma is_base64url_byte_eq: "is_base64url s \<longleftrightarrow> list_all is_base64url_byte s"
  by (auto simp: is_base64url_def is_base64url_byte_def is_ascii_alphanumeric_def is_ascii_lowercase_def
      is_ascii_digit_def Let_def list_all_iff)

subsection \<open>Lemmas\<close>

text \<open>The signatures a verified Manifest carries, under the key its AID encodes.\<close>

definition manifest_signed :: "externals \<Rightarrow> manifest \<Rightarrow> bool" where
  "manifest_signed E m \<longleftrightarrow>
     (\<exists>vk challenge canonical pop_sig outer_sig.
        vk_from_aid E (m_aid m) = Ok vk \<and>
        decode_strict E (mp_challenge (m_proof_of_possession m)) = Ok challenge \<and>
        signature_parse (mp_signature (m_proof_of_possession m)) = Ok pop_sig \<and>
        verify_jcs E vk (sha256 E challenge) pop_sig = Ok () \<and>
        jcs_to_vec E (JObj (manifest_signing_view m)) = Some canonical \<and>
        signature_parse (m_signature m) = Ok outer_sig \<and>
        verify_jcs E vk (sha256 E canonical) outer_sig = Ok ())"

lemma verify_manifest_Ok:
  "verify_manifest E m ctx = Ok v \<longleftrightarrow>
     v = VerifiedManifest m \<and> m_version m = PROTOCOL_VERSION \<and>
     manifest_grammar E (mc_insecure_localhost ctx) m \<and> sint (mc_now ctx) \<le> sint (m_expires_at m) \<and>
     manifest_signed E m"
  by (auto simp: verify_manifest_def manifest_signed_def check_grammar_Ok manifest_signing_bytes_def canonicalize_def
      is_in_the_past_def)

lemma designates_vk: "designates a b \<Longrightarrow> vk_from_aid E a = vk_from_aid E b"
  by (cases "aid_algorithm b") (simp_all add: designates_def vk_from_aid_def try_to_ed25519_bytes_def try_to_p256_bytes_def)

lemma fold_max_published:
  fixes ms m
  defines "best \<equiv> fold (\<lambda>y best. if sint (m_published_at best) \<le> sint (m_published_at y) then y else best) ms m"
  shows "best \<in> set (m # ms) \<and> (\<forall>x\<in>set (m # ms). sint (m_published_at x) \<le> sint (m_published_at best))"
  unfolding best_def
proof (induction ms arbitrary: m)
  case (Cons y ms)
  show ?case using Cons.IH [of y] Cons.IH [of m] by (cases "sint (m_published_at m) \<le> sint (m_published_at y)") auto
qed simp

lemma max_by_published_Some:
  "max_by_published ms = Some m \<Longrightarrow> m \<in> set ms \<and> (\<forall>x\<in>set ms. sint (m_published_at x) \<le> sint (m_published_at m))"
  using fold_max_published [where m = "hd ms" and ms = "tl ms"] by (cases ms) auto

lemma max_by_published_None: "max_by_published ms = None \<longleftrightarrow> ms = []"
  by (cases ms) simp_all

text \<open>
  A source whose Manifests are published under the AID they are looked up by: the check
  against a Manifest of another key never fires, and what is returned was verified.
\<close>

locale manifest_source =
  fixes resolve :: manifest_resolver
  assumes designated: "resolve aid = Some m \<Longrightarrow> designates (m_aid m) aid"
begin

lemma resolve_verified_iff:
  "resolve_verified_manifest E resolve aid ctx = Ok m \<longleftrightarrow>
     resolve aid = Some m \<and> verify_manifest E m ctx = Ok (VerifiedManifest m)"
  using designated by (auto simp: resolve_verified_manifest_def verify_manifest_Ok)

lemma resolve_no_mismatch:
  "resolve_verified_manifest E resolve aid ctx = Err AidMismatch \<Longrightarrow>
     \<exists>m. resolve aid = Some m \<and> verify_manifest E m ctx = Err AidMismatch"
  using designated
  by (auto simp: resolve_verified_manifest_def and_then_eq_Inl ok_or_def split: option.splits if_splits)

end

interpretation published: manifest_source "resolve_from_list ms" for ms
  by unfold_locales (auto simp: resolve_from_list_def dest!: max_by_published_Some)

subsection \<open>Properties\<close>


text \<open>
  C19: resolving an AID from a set of published Manifests returns exactly a verified one: it
  is in the set, its AID names the requested key (so it was checked under the key that AID
  encodes), and no Manifest of the set that names that key is newer.
\<close>

theorem resolve_verified_newest:
  assumes "resolve_verified_manifest E (resolve_from_list ms) aid ctx = Ok m"
  shows "m \<in> set ms \<and> vk_from_aid E (m_aid m) = vk_from_aid E aid \<and>
    verify_manifest E m ctx = Ok (VerifiedManifest m) \<and>
    (\<forall>m'\<in>set ms. designates (m_aid m') aid \<longrightarrow> sint (m_published_at m') \<le> sint (m_published_at m))"
  using assms published.designated [of ms aid m] max_by_published_Some [of "filter (\<lambda>m. designates (m_aid m) aid) ms" m]
  by (auto simp: published.resolve_verified_iff resolve_from_list_def intro: designates_vk)

end
