(* ===== verification/Manifest_Build.thy ===== *)
theory Manifest_Build
  imports Manifest_Verify
begin

text \<open>
  Manifest issuance (\<open>manifest/builder.rs\<close>): the builder's state and setters, the draft, the
  proof of possession and the outer signature. The random challenge and the clock are
  arguments: \<open>None\<close> for the challenge is a failure of the random source.

  Shown here: a Manifest that was built from values inside the schema's grammar survives the
  wire, bare or in its envelope, and is accepted there until it expires, for every signing
  backend.
\<close>

definition DEFAULT_MANIFEST_TTL :: duration where "DEFAULT_MANIFEST_TTL = from_secs (24 * 3600)"

definition REVOCATION_LIST_URI_EXT :: string where "REVOCATION_LIST_URI_EXT = ''rfc-aitp-0008.revocation_list_uri''"

record manifest_builder =
  mb_signing_key :: signer
  mb_handshake_endpoint :: "raw_url option"
  mb_accepted_trust_anchors :: "raw_url list"
  mb_accepted_identity_types :: "string list option"
  mb_offered_capabilities :: "string list"
  mb_required_peer_capabilities :: "string list option"
  mb_identity_hint :: "identity_hint option"
  mb_ttl :: duration
  mb_display_name :: "string option"
  mb_extensions :: extensions_map
  mb_now_override :: "timestamp option"

definition manifest_builder_new :: "signer \<Rightarrow> manifest_builder" where
  "manifest_builder_new signing_key =
     \<lparr>mb_signing_key = signing_key, mb_handshake_endpoint = None, mb_accepted_trust_anchors = [],
      mb_accepted_identity_types = None, mb_offered_capabilities = [], mb_required_peer_capabilities = None,
      mb_identity_hint = None, mb_ttl = DEFAULT_MANIFEST_TTL, mb_display_name = None, mb_extensions = [],
      mb_now_override = None\<rparr>"

text \<open>\<open>get_or_insert_with(Vec::new).push(x)\<close>.\<close>

definition opt_push :: "'a list option \<Rightarrow> 'a \<Rightarrow> 'a list option" where
  "opt_push v x = Some ((case v of None \<Rightarrow> [] | Some xs \<Rightarrow> xs) @ [x])"

definition handshake_endpoint_raw :: "manifest_builder \<Rightarrow> raw_url \<Rightarrow> manifest_builder" where
  "handshake_endpoint_raw b url = b\<lparr>mb_handshake_endpoint := Some url\<rparr>"

definition set_identity_hint :: "manifest_builder \<Rightarrow> identity_hint \<Rightarrow> manifest_builder" where
  "set_identity_hint b hint = b\<lparr>mb_identity_hint := Some hint\<rparr>"

definition offer :: "manifest_builder \<Rightarrow> string \<Rightarrow> manifest_builder" where
  "offer b capability = b\<lparr>mb_offered_capabilities := mb_offered_capabilities b @ [capability]\<rparr>"

definition require :: "manifest_builder \<Rightarrow> string \<Rightarrow> manifest_builder" where
  "require b capability = b\<lparr>mb_required_peer_capabilities := opt_push (mb_required_peer_capabilities b) capability\<rparr>"

definition accept_trust_anchor_raw :: "manifest_builder \<Rightarrow> raw_url \<Rightarrow> manifest_builder" where
  "accept_trust_anchor_raw b issuer = b\<lparr>mb_accepted_trust_anchors := mb_accepted_trust_anchors b @ [issuer]\<rparr>"

definition accept_identity_type :: "manifest_builder \<Rightarrow> identity_kind \<Rightarrow> manifest_builder" where
  "accept_identity_type b kind =
     b\<lparr>mb_accepted_identity_types := opt_push (mb_accepted_identity_types b) (kind_as_str kind)\<rparr>"

definition accept_no_identity_types :: "manifest_builder \<Rightarrow> manifest_builder" where
  "accept_no_identity_types b = b\<lparr>mb_accepted_identity_types := Some []\<rparr>"

definition manifest_extension :: "manifest_builder \<Rightarrow> string \<Rightarrow> json \<Rightarrow> manifest_builder" where
  "manifest_extension b key value = b\<lparr>mb_extensions := ext_insert key value (mb_extensions b)\<rparr>"

definition revocation_list_uri :: "manifest_builder \<Rightarrow> string \<Rightarrow> manifest_builder" where
  "revocation_list_uri b url = manifest_extension b REVOCATION_LIST_URI_EXT (JStr url)"

definition validate_identity_hint :: "identity_hint \<Rightarrow> (manifest_error, unit) result" where
  "validate_identity_hint hint = hint_shape hint"

record manifest_draft =
  dr_pop_input :: bytes
  dr_manifest :: manifest

definition manifest_draft_of ::
  "externals \<Rightarrow> bytes option \<Rightarrow> timestamp \<Rightarrow> manifest_builder \<Rightarrow> (manifest_error, manifest_draft) result" where
  "manifest_draft_of E rng now b =
     and_then (ok_or (ManifestMissingField ''handshake_endpoint'') (mb_handshake_endpoint b)) (\<lambda>endpoint.
     and_then (ok_or (ManifestMissingField ''identity_hint'') (mb_identity_hint b)) (\<lambda>hint.
     and_then (validate_identity_hint hint) (\<lambda>_.
     and_then (ok_or ManifestRng rng) (\<lambda>challenge_bytes.
     let published_at = (case mb_now_override b of Some t \<Rightarrow> t | None \<Rightarrow> now) in
     Ok \<lparr>dr_pop_input = sha256 E challenge_bytes,
         dr_manifest =
           \<lparr>m_version = PROTOCOL_VERSION, m_aid = sg_aid (mb_signing_key b), m_display_name = mb_display_name b,
            m_identity_hint = hint, m_handshake_endpoint = endpoint,
            m_accepted_trust_anchors = mb_accepted_trust_anchors b,
            m_accepted_identity_types = mb_accepted_identity_types b, m_accepted_signature_algorithms = None,
            m_offered_capabilities = mb_offered_capabilities b,
            m_required_peer_capabilities = mb_required_peer_capabilities b,
            m_proof_of_possession = \<lparr>mp_challenge = encode E challenge_bytes, mp_signature = []\<rparr>,
            m_published_at = published_at, m_expires_at = saturating_add published_at (mb_ttl b),
            m_extensions = (if mb_extensions b = [] then None else Some (mb_extensions b)),
            m_signature = []\<rparr>\<rparr>))))"

definition with_pop :: "externals \<Rightarrow> manifest_draft \<Rightarrow> signature \<Rightarrow> (manifest_error, manifest \<times> bytes) result" where
  "with_pop E d pop =
     (let m = (dr_manifest d)\<lparr>m_proof_of_possession :=
                (m_proof_of_possession (dr_manifest d))\<lparr>mp_signature := sig_as_str pop\<rparr>\<rparr> in
      and_then (manifest_signing_bytes E m) (\<lambda>canonical. Ok (m, sha256 E canonical)))"

definition build_manifest ::
  "externals \<Rightarrow> bytes option \<Rightarrow> timestamp \<Rightarrow> manifest_builder \<Rightarrow> (manifest_error, manifest) result" where
  "build_manifest E rng now b =
     and_then (manifest_draft_of E rng now b) (\<lambda>d.
     and_then (map_err (\<lambda>e. ManifestCrypto (SignerFailed e)) (signer_sign_jcs E (mb_signing_key b) (dr_pop_input d))) (\<lambda>pop.
     and_then (with_pop E d pop) (\<lambda>(m, digest).
     and_then (map_err (\<lambda>e. ManifestCrypto (SignerFailed e)) (signer_sign_jcs E (mb_signing_key b) digest)) (\<lambda>sig.
     Ok (m\<lparr>m_signature := sig_as_str sig\<rparr>)))))"

subsection \<open>Lemmas\<close>

lemma signing_view_signature [simp]: "manifest_signing_view (m\<lparr>m_signature := s\<rparr>) = manifest_signing_view m"
  by (simp add: manifest_signing_view_def)

lemma body_grammar_signatures [simp]:
  "body_grammar E i (m\<lparr>m_signature := s\<rparr>) = body_grammar E i m"
  "body_grammar E i (m\<lparr>m_proof_of_possession := p\<rparr>) = body_grammar E i m"
  by (simp_all add: body_grammar_def)

lemma signature_from_raw_grammar:
  assumes "b64_laws E" "length raw = 64"
  shows "is_signature (sig_as_str (signature_from_raw E alg raw))"
proof -
  have "is_base64url (b64_encode E raw)" "length (b64_encode E raw) = 86"
    using assms by (simp_all add: b64_laws_def is_base64url_byte_eq)
  then show ?thesis
    using b64_no_tag [OF assms(1), of raw]
    by (cases alg) (simp_all add: is_signature_def signature_from_raw_def Let_def)
qed

text \<open>What every signing backend delivers, for the signatures of Manifests and their proofs.\<close>

lemma signer_sign_jcs_grammar:
  assumes "b64_laws E" "sig_laws E" "sha_laws E" "\<forall>k. sg_signing_key sg = Some k \<longrightarrow> sk_wf E k"
    and "signer_sign_jcs E sg (sha256 E x) = Ok sig"
  obtains vk where "vk_from_aid E (sg_aid sg) = Ok vk" "verify_jcs E vk (sha256 E x) sig = Ok ()"
    and "signature_parse (sig_as_str sig) = Ok sig" "is_signature (sig_as_str sig)"
proof -
  have len: "length (sha256 E x) = 32" using assms(3) by (simp add: sha_laws_def)
  obtain vk where vk: "vk_from_aid E (sg_aid sg) = Ok vk" "verify_jcs E vk (sha256 E x) sig = Ok ()"
    using signer_sign_jcs_sound [OF assms(1-5) len] by blast
  obtain raw where raw: "sig = signature_from_raw E (aid_algorithm (sg_aid sg)) raw"
    using assms(5) by (auto simp: signer_sign_jcs_def)
  with vk verify_jcs_raw_length [OF assms(1)] have "is_signature (sig_as_str sig)"
    by (simp add: signature_from_raw_grammar [OF assms(1)])
  with vk signer_sign_jcs_parses [OF assms(1-5) len] that show thesis by blast
qed

lemma build_manifest_Ok:
  assumes "build_manifest E rng now b = Ok m"
  obtains challenge pop canonical sig d where "rng = Some challenge" "manifest_draft_of E rng now b = Ok d"
    and "signer_sign_jcs E (mb_signing_key b) (sha256 E challenge) = Ok pop"
    and "mp_challenge (m_proof_of_possession m) = encode E challenge" "mp_signature (m_proof_of_possession m) = sig_as_str pop"
    and "jcs_to_vec E (JObj (manifest_signing_view m)) = Some canonical"
    and "signer_sign_jcs E (mb_signing_key b) (sha256 E canonical) = Ok sig" "m_signature m = sig_as_str sig"
    and "m = (dr_manifest d)\<lparr>m_proof_of_possession := m_proof_of_possession m, m_signature := m_signature m\<rparr>"
  using assms
  by (clarsimp simp: build_manifest_def with_pop_def manifest_signing_bytes_def canonicalize_def
      manifest_draft_of_def Let_def)

text \<open>The builder's input is inside the grammar: what is drafted, with any signatures, is.\<close>

definition builder_in_grammar :: "externals \<Rightarrow> bytes option \<Rightarrow> timestamp \<Rightarrow> manifest_builder \<Rightarrow> bool" where
  "builder_in_grammar E rng now b \<longleftrightarrow>
     (case manifest_draft_of E rng now b of Ok d \<Rightarrow> body_grammar E False (dr_manifest d) | Err _ \<Rightarrow> False)"

lemma built_manifest_accepted:
  assumes laws: "b64_laws E" "sig_laws E" "sha_laws E" "\<forall>k. sg_signing_key (mb_signing_key b) = Some k \<longrightarrow> sk_wf E k"
    and rng: "\<forall>bs. rng = Some bs \<longrightarrow> length bs = 16" and b: "build_manifest E rng now b = Ok m"
    and gr: "builder_in_grammar E rng now b" and t: "sint (mc_now ctx) \<le> sint (m_expires_at m)"
  shows "verify_manifest E m ctx = Ok (VerifiedManifest m)"
proof -
  obtain challenge pop canonical sig d where d: "rng = Some challenge" "manifest_draft_of E rng now b = Ok d"
    and pop: "signer_sign_jcs E (mb_signing_key b) (sha256 E challenge) = Ok pop"
    and ch: "mp_challenge (m_proof_of_possession m) = encode E challenge" "mp_signature (m_proof_of_possession m) = sig_as_str pop"
    and c: "jcs_to_vec E (JObj (manifest_signing_view m)) = Some canonical"
    and sig: "signer_sign_jcs E (mb_signing_key b) (sha256 E canonical) = Ok sig" "m_signature m = sig_as_str sig"
    and m: "m = (dr_manifest d)\<lparr>m_proof_of_possession := m_proof_of_possession m, m_signature := m_signature m\<rparr>"
    using b by (rule build_manifest_Ok)
  have dr: "m_version (dr_manifest d) = PROTOCOL_VERSION" "m_aid (dr_manifest d) = sg_aid (mb_signing_key b)"
    using d(2) by (auto simp: manifest_draft_of_def Let_def)
  have "m_version m = PROTOCOL_VERSION" "m_aid m = sg_aid (mb_signing_key b)"
    by (subst m; simp add: dr)+
  moreover obtain vk where vk: "vk_from_aid E (sg_aid (mb_signing_key b)) = Ok vk"
      "verify_jcs E vk (sha256 E challenge) pop = Ok ()" "signature_parse (sig_as_str pop) = Ok pop"
      "is_signature (sig_as_str pop)"
    using signer_sign_jcs_grammar [OF laws pop] by blast
  moreover have "verify_jcs E vk (sha256 E canonical) sig = Ok ()" "signature_parse (sig_as_str sig) = Ok sig"
      "is_signature (sig_as_str sig)"
    using signer_sign_jcs_grammar [OF laws sig(1)] vk(1) by (metis sum.inject(2))+
  moreover have "body_grammar E i m" for i
  proof -
    have "body_grammar E False (dr_manifest d)" using gr d(2) by (simp add: builder_in_grammar_def)
    then have "body_grammar E i (dr_manifest d)" by (auto simp: body_grammar_def)
    then show ?thesis by (subst m) simp
  qed
  moreover have "length (encode E challenge) = 22" "is_base64url (encode E challenge)"
    using laws(1) rng d(1) by (simp_all add: encode_def b64_laws_def is_base64url_byte_eq)
  ultimately show ?thesis
    using ch c sig(2) t decode_strict_encode [OF laws(1)]
    by (simp add: verify_manifest_Ok manifest_grammar_def manifest_signed_def)
qed

definition wf_manifest_builder :: "externals \<Rightarrow> manifest_builder \<Rightarrow> bool" where
  "wf_manifest_builder E b \<longleftrightarrow> wf_aid E (sg_aid (mb_signing_key b)) \<and> wf_ext (mb_extensions b)"

lemma build_manifest_fields:
  assumes "build_manifest E rng now b = Ok m"
  shows "m_version m = PROTOCOL_VERSION" "m_aid m = sg_aid (mb_signing_key b)"
    and "m_extensions m = (if mb_extensions b = [] then None else Some (mb_extensions b))"
    and "m_offered_capabilities m = mb_offered_capabilities b"
    and "m_expires_at m = saturating_add (case mb_now_override b of Some t \<Rightarrow> t | None \<Rightarrow> now) (mb_ttl b)"
  using assms
  by (auto simp: build_manifest_def with_pop_def manifest_signing_bytes_def manifest_draft_of_def Let_def)

lemma parse_manifest_wire_ser:
  assumes "wf_manifest E m" "m_version m = PROTOCOL_VERSION"
  shows "parse_manifest_wire E (CheckedJson (ser_manifest m)) = Ok m"
    and "parse_manifest_wire E (CheckedJson (ser_manifest_envelope m)) = Ok m"
proof -
  have doc: "ser_manifest m = JObj (manifest_doc m)" by (simp add: ser_manifest_def manifest_doc_def)
  have "map_of (manifest_doc m) ''manifest'' = None"
    using manifest_doc_keys [of m] by (auto simp: map_of_eq_None_iff MANIFEST_MEMBERS_def)
  moreover have "map_of (manifest_doc m) ''version'' = Some (JStr PROTOCOL_VERSION)"
    using assms(2) by (simp add: manifest_doc_def manifest_signing_view_def map_add_def)
  moreover have "check_members ''Manifest'' (JObj (manifest_doc m)) MANIFEST_MEMBERS = Ok ()"
    using manifest_doc_keys by (simp add: check_members_object)
  moreover have "check_members ''ManifestEnvelope'' (ser_manifest_envelope m) [''manifest''] = Ok ()"
    by (simp add: ser_manifest_envelope_def check_members_object)
  ultimately show "parse_manifest_wire E (CheckedJson (ser_manifest m)) = Ok m"
      "parse_manifest_wire E (CheckedJson (ser_manifest_envelope m)) = Ok m"
    using de_ser_manifest [OF assms(1)]
    by (simp_all add: parse_manifest_wire_def doc ser_manifest_envelope_def)
qed

subsection \<open>Properties\<close>

text \<open>
  C18: what the Manifest builder signs, with any signing backend, is what peers accept: if
  the configured values are inside the schema's grammar, the built Manifest parses back
  unchanged through the strict wire parser, bare or in the HTTP envelope, and verifies at
  every time up to its expiry.
\<close>

theorem built_manifest_verifies:
  assumes "b64_laws E" "sig_laws E" "sha_laws E" "\<forall>k. sg_signing_key (mb_signing_key b) = Some k \<longrightarrow> sk_wf E k"
    and "\<forall>bs. rng = Some bs \<longrightarrow> length bs = 16" "wf_manifest_builder E b" "builder_in_grammar E rng now b"
    and "build_manifest E rng now b = Ok m" "sint (mc_now ctx) \<le> sint (m_expires_at m)"
  shows "and_then (parse_manifest_wire E (CheckedJson (ser_manifest m))) (\<lambda>m'. verify_manifest E m' ctx) = Ok (VerifiedManifest m) \<and>
    and_then (parse_manifest_wire E (CheckedJson (ser_manifest_envelope m))) (\<lambda>m'. verify_manifest E m' ctx) = Ok (VerifiedManifest m)"
proof -
  have "wf_manifest E m"
    using assms(6) build_manifest_fields(2,3) [OF assms(8)] by (auto simp: wf_manifest_def wf_manifest_builder_def split: if_splits)
  with build_manifest_fields(1) [OF assms(8)] built_manifest_accepted [OF assms(1-5,8,7,9)]
  show ?thesis by (simp add: parse_manifest_wire_ser)
qed

end
