(* ===== verification/Delegation.thy ===== *)
theory Delegation
  imports Manifest_Build
begin

text \<open>
  Single-hop delegation (\<open>delegation/types.rs\<close>, \<open>delegation/builder.rs\<close>,
  \<open>delegation/verifier.rs\<close>): B, who holds a grant voucher of A, authorizes C towards A with a
  subset of its grants.

  Shown here: what A accepts, exactly; that delegated authority never exceeds the voucher; and
  that a delegation built against a voucher of A's own token builder is accepted by A as long
  as B's Manifest resolves.
\<close>

subsection \<open>Claims\<close>

record delegation_claims =
  dl_ver :: string
  dl_iss :: aid
  dl_sub :: aid
  dl_aud :: aid
  dl_scope :: "string list"
  dl_exp :: timestamp
  dl_cnf :: cnf
  dl_voucher :: "string option"
  dl_ext :: "extensions_map option"

definition DELEGATION_CLAIMS_MEMBERS :: "string list" where
  "DELEGATION_CLAIMS_MEMBERS =
     [''ver'', ''iss'', ''sub'', ''aud'', ''scope'', ''exp'', ''cnf'', ''voucher'', ''jti'', ''chain'', ''chain_hash'', ''ext'']"

record issued_delegation =
  idl_token :: string
  idl_claims :: delegation_claims

record verified_delegation =
  vd_token :: string
  vd_claims :: delegation_claims
  vd_voucher :: grant_voucher_claims
  vd_effective_grants :: "string list"

datatype delegation_error =
    DlAudienceMismatch
  | DlScopeExceeded
  | DlInvalidVoucher
  | DlSourceTctRevoked
  | DlRevocationUnavailable
  | DlInvalidSignature
  | DlKeyResolutionFailed aid manifest_error
  | DlExpired
  | DlPopFailed
  | DlCnfMalformed
  | DlVersionUnknown
  | DlClaimsMalformed
  | DlMultihopNotSupported
  | DlSelfDelegation
  | DlEmptyScope
  | DlMissingField string
  | DlCrypto crypto_error
  | DlUnknownField string
  | DlSafeSubsetEmpty

definition delegation_fields :: "externals \<Rightarrow> field_spec list" where
  "delegation_fields E =
     [(''ver'', Required, de_void de_string), (''iss'', Required, de_void (de_aid E)),
      (''sub'', Required, de_void (de_aid E)), (''aud'', Required, de_void (de_aid E)),
      (''scope'', Required, de_void (de_vec de_string)), (''exp'', Required, de_void de_i64),
      (''cnf'', Required, de_void de_cnf), (''voucher'', Optional, de_void_opt de_string),
      (''ext'', Optional, de_void_opt de_ext)]"

definition de_delegation_claims :: "externals \<Rightarrow> json \<Rightarrow> (serde_error, delegation_claims) result" where
  "de_delegation_claims E j =
     and_then (de_struct (delegation_fields E) j) (\<lambda>ms.
     and_then (de_field ms ''ver'' de_string) (\<lambda>ver.
     and_then (de_field ms ''iss'' (de_aid E)) (\<lambda>iss.
     and_then (de_field ms ''sub'' (de_aid E)) (\<lambda>sub.
     and_then (de_field ms ''aud'' (de_aid E)) (\<lambda>aud.
     and_then (de_field ms ''scope'' (de_vec de_string)) (\<lambda>scope.
     and_then (de_field ms ''exp'' de_i64) (\<lambda>exp.
     and_then (de_field ms ''cnf'' de_cnf) (\<lambda>cnf.
     and_then (de_opt_field ms ''voucher'' de_string) (\<lambda>voucher.
     and_then (de_opt_field ms ''ext'' de_ext) (\<lambda>ext.
     Ok \<lparr>dl_ver = ver, dl_iss = iss, dl_sub = sub, dl_aud = aud, dl_scope = scope, dl_exp = exp, dl_cnf = cnf,
         dl_voucher = voucher, dl_ext = ext\<rparr>))))))))))"

definition delegation_members :: "externals \<Rightarrow> delegation_claims \<Rightarrow> (string \<times> json) list" where
  "delegation_members E c =
     [(''ver'', JStr (dl_ver c)), (''iss'', ser_aid (dl_iss c)), (''sub'', ser_aid (dl_sub c)), (''aud'', ser_aid (dl_aud c)),
      (''scope'', ser_strings (dl_scope c)), (''exp'', ser_time (dl_exp c)),
      (''cnf'', JObj [(''jkt'', JStr (jkt (dl_cnf c)))])] @
     (case dl_voucher c of None \<Rightarrow> [] | Some v \<Rightarrow> [(''voucher'', JStr v)]) @ opt_member ''ext'' (dl_ext c)"

definition ser_delegation_claims :: "externals \<Rightarrow> delegation_claims \<Rightarrow> json" where
  "ser_delegation_claims E c = JObj (delegation_members E c)"

definition delegation_claims_error :: "serde_error \<Rightarrow> delegation_error" where
  "delegation_claims_error e = (case from_serde_error e of Some f \<Rightarrow> DlUnknownField f | None \<Rightarrow> DlClaimsMalformed)"

subsection \<open>Builder\<close>

definition DEFAULT_DELEGATION_TTL :: duration where "DEFAULT_DELEGATION_TTL = from_secs 3600"

record delegation_builder =
  db_issuer_key :: signer
  db_voucher_token :: string
  db_voucher :: grant_voucher_claims
  db_delegatee :: "aid option"
  db_scope :: "string list"
  db_ttl :: duration
  db_now_override :: "timestamp option"

definition rooted_in_voucher :: "externals \<Rightarrow> signer \<Rightarrow> string \<Rightarrow> (delegation_error, delegation_builder) result" where
  "rooted_in_voucher E issuer_key voucher =
     and_then (map_err DlCrypto (decode_payload_unverified E voucher)) (\<lambda>payload.
     and_then (map_err (\<lambda>_. DlClaimsMalformed) (reject_duplicate_keys E payload)) (\<lambda>_.
     and_then (case value_from_slice E payload of
                 Err _ \<Rightarrow> Ok ()
               | Ok peek_value \<Rightarrow>
                   map_err (\<lambda>e. DlUnknownField (uf_field e)) (check_members ''GrantVoucherClaims'' peek_value GRANT_VOUCHER_CLAIMS_MEMBERS)) (\<lambda>_.
     and_then (map_err delegation_claims_error (and_then (json_document E payload) (de_voucher_claims E))) (\<lambda>claims.
     and_then (ensure DlInvalidVoucher (gv_sub claims = sg_aid issuer_key)) (\<lambda>_.
     Ok \<lparr>db_issuer_key = issuer_key, db_voucher_token = voucher, db_voucher = claims, db_delegatee = None, db_scope = [],
         db_ttl = DEFAULT_DELEGATION_TTL, db_now_override = None\<rparr>)))))"

definition set_delegatee :: "delegation_builder \<Rightarrow> aid \<Rightarrow> delegation_builder" where
  "set_delegatee b a = b\<lparr>db_delegatee := Some a\<rparr>"

definition set_scope :: "delegation_builder \<Rightarrow> string list \<Rightarrow> delegation_builder" where
  "set_scope b scope = b\<lparr>db_scope := scope\<rparr>"

definition set_delegation_ttl :: "delegation_builder \<Rightarrow> duration \<Rightarrow> delegation_builder" where
  "set_delegation_ttl b ttl = b\<lparr>db_ttl := ttl\<rparr>"

definition set_delegation_now :: "delegation_builder \<Rightarrow> timestamp \<Rightarrow> delegation_builder" where
  "set_delegation_now b ts = b\<lparr>db_now_override := Some ts\<rparr>"

definition delegation_draft :: "externals \<Rightarrow> timestamp \<Rightarrow> delegation_builder \<Rightarrow> (delegation_error, delegation_claims) result" where
  "delegation_draft E clock b =
     and_then (ok_or (DlMissingField ''delegatee'') (db_delegatee b)) (\<lambda>delegatee.
     and_then (ensure DlEmptyScope (db_scope b \<noteq> [])) (\<lambda>_.
     let issued_by = sg_aid (db_issuer_key b) in
     and_then (ensure DlSelfDelegation (issued_by \<noteq> delegatee)) (\<lambda>_.
     let aud = gv_iss (db_voucher b); max_expiry = gv_exp (db_voucher b) in
     and_then (try_for_each (\<lambda>c. ensure DlScopeExceeded (c \<in> set (gv_grants (db_voucher b)))) (db_scope b)) (\<lambda>_.
     let now = (case db_now_override b of Some t \<Rightarrow> t | None \<Rightarrow> clock);
         proposed = saturating_add now (db_ttl b);
         exp = (if sint proposed < sint max_expiry then proposed else max_expiry) in
     and_then (map_err DlCrypto (vk_from_aid E delegatee)) (\<lambda>cnf_key.
     and_then (map_err DlCrypto (to_jwk_thumbprint_sha256 E cnf_key)) (\<lambda>t.
     Ok \<lparr>dl_ver = PROTOCOL_VERSION, dl_iss = issued_by, dl_sub = delegatee, dl_aud = aud, dl_scope = db_scope b,
         dl_exp = exp, dl_cnf = \<lparr>jkt = t\<rparr>, dl_voucher = Some (db_voucher_token b), dl_ext = None\<rparr>))))))"

definition build_delegation :: "externals \<Rightarrow> timestamp \<Rightarrow> delegation_builder \<Rightarrow> (delegation_error, issued_delegation) result" where
  "build_delegation E clock b =
     and_then (delegation_draft E clock b) (\<lambda>claims.
     and_then (map_err DlCrypto (sign_compact E (db_issuer_key b) TYP_DELEGATION (ser_delegation_claims E claims))) (\<lambda>token.
     Ok \<lparr>idl_token = token, idl_claims = claims\<rparr>))"

subsection \<open>Verifier\<close>

record delegation_verify_context =
  dvc_verifier :: aid
  dvc_now :: timestamp
  dvc_revocation :: revocation_source
  dvc_issuer_manifests :: "manifest_resolver option"
  dvc_insecure_localhost :: bool

definition delegation_context_new :: "aid \<Rightarrow> timestamp \<Rightarrow> revocation_source \<Rightarrow> delegation_verify_context" where
  "delegation_context_new verifier now revocation =
     \<lparr>dvc_verifier = verifier, dvc_now = now, dvc_revocation = revocation, dvc_issuer_manifests = None,
      dvc_insecure_localhost = False\<rparr>"

definition with_issuer_manifests :: "delegation_verify_context \<Rightarrow> manifest_resolver \<Rightarrow> delegation_verify_context" where
  "with_issuer_manifests ctx resolver = ctx\<lparr>dvc_issuer_manifests := Some resolver\<rparr>"

definition delegation_insecure_localhost :: "delegation_verify_context \<Rightarrow> delegation_verify_context" where
  "delegation_insecure_localhost ctx = ctx\<lparr>dvc_insecure_localhost := True\<rparr>"

definition delegation_peek_claims :: "externals \<Rightarrow> string \<Rightarrow> (delegation_error, delegation_claims) result" where
  "delegation_peek_claims E token =
     and_then (case peek_typ E token of
                 Some t \<Rightarrow> ensure (DlCrypto (TypMismatch TYP_DELEGATION t)) (t = TYP_DELEGATION)
               | None \<Rightarrow> Ok ()) (\<lambda>_.
     and_then (map_err DlCrypto (decode_payload_unverified E token)) (\<lambda>payload.
     and_then (map_err (\<lambda>_. DlClaimsMalformed) (reject_duplicate_keys E payload)) (\<lambda>_.
     and_then (case value_from_slice E payload of
                 Err _ \<Rightarrow> Ok ()
               | Ok peek_value \<Rightarrow>
                   and_then (map_err (\<lambda>e. DlUnknownField (uf_field e))
                               (check_members ''DelegationClaims'' peek_value DELEGATION_CLAIMS_MEMBERS)) (\<lambda>_.
                   and_then (ensure DlMultihopNotSupported (json_get ''chain'' peek_value = None)) (\<lambda>_.
                   try_for_each (\<lambda>member. ensure DlClaimsMalformed (json_get member peek_value = None)) [''jti'', ''chain_hash'']))) (\<lambda>_.
     map_err delegation_claims_error (and_then (json_document E payload) (de_delegation_claims E))))))"

definition verify_hop_jws :: "externals \<Rightarrow> string \<Rightarrow> delegation_verify_context \<Rightarrow> (delegation_error, delegation_claims) result" where
  "verify_hop_jws E token ctx =
     and_then (delegation_peek_claims E token) (\<lambda>claimed.
     let manifest_ctx = \<lparr>mc_now = dvc_now ctx, mc_insecure_localhost = dvc_insecure_localhost ctx\<rparr> in
     and_then (map_err (DlKeyResolutionFailed (dl_iss claimed))
                 (and_then (ok_or ManifestNotFound (dvc_issuer_manifests ctx)) (\<lambda>r.
                  resolve_verified_manifest E r (dl_iss claimed) manifest_ctx))) (\<lambda>m.
     and_then (map_err (\<lambda>e. case e of SignatureInvalid \<Rightarrow> DlInvalidSignature | other \<Rightarrow> DlCrypto other)
                 (verify_compact E (m_aid m) TYP_DELEGATION token)) (\<lambda>payload.
     and_then (map_err delegation_claims_error (and_then (json_document E payload) (de_delegation_claims E))) (\<lambda>claims.
     and_then (ensure DlVersionUnknown (dl_ver claims = PROTOCOL_VERSION)) (\<lambda>_.
     Ok claims)))))"

definition check_hop_claims :: "externals \<Rightarrow> delegation_claims \<Rightarrow> delegation_verify_context \<Rightarrow> (delegation_error, unit) result" where
  "check_hop_claims E claims ctx =
     (if dl_aud claims \<noteq> dvc_verifier ctx then Err DlAudienceMismatch
      else if dl_iss claims = dl_sub claims then Err DlSelfDelegation
      else if dl_scope claims = [] then Err DlEmptyScope
      else
      and_then (map_err DlCrypto (vk_from_aid E (dl_sub claims))) (\<lambda>sub_key.
      and_then (map_err DlCrypto (to_jwk_thumbprint_sha256 E sub_key)) (\<lambda>expected_jkt.
      ensure DlCnfMalformed (jkt (dl_cnf claims) = expected_jkt))))"

definition voucher_error :: "tct_error \<Rightarrow> delegation_error" where
  "voucher_error e =
     (case e of TctCrypto c \<Rightarrow> DlCrypto c | VersionUnknown \<Rightarrow> DlVersionUnknown | UnknownField f \<Rightarrow> DlUnknownField f
      | _ \<Rightarrow> DlInvalidVoucher)"

definition verify_root_voucher ::
  "externals \<Rightarrow> string \<Rightarrow> aid \<Rightarrow> delegation_verify_context \<Rightarrow> (delegation_error, grant_voucher_claims) result" where
  "verify_root_voucher E voucher_token expected_delegator ctx =
     and_then (map_err voucher_error (verify_voucher E voucher_token (dvc_verifier ctx))) (\<lambda>voucher.
     if gv_sub voucher \<noteq> expected_delegator then Err DlInvalidVoucher
     else if is_in_the_past (gv_exp voucher) (dvc_now ctx) then Err DlExpired
     else Ok voucher)"

definition delegation_revocation ::
  "revocation_source \<Rightarrow> revocation_query \<Rightarrow> string list \<Rightarrow> (delegation_error, string list) result" where
  "delegation_revocation source query scope =
     map_err (\<lambda>r. case r of RejRevoked \<Rightarrow> DlSourceTctRevoked
                            | RejUnavailable \<Rightarrow> DlRevocationUnavailable
                            | RejSafeSubsetEmpty \<Rightarrow> DlSafeSubsetEmpty)
       (apply_revocation source query scope)"

definition verify_single_hop :: "externals \<Rightarrow> string \<Rightarrow> delegation_verify_context \<Rightarrow> (delegation_error, verified_delegation) result" where
  "verify_single_hop E token ctx =
     and_then (verify_hop_jws E token ctx) (\<lambda>claims.
     if dl_aud claims \<noteq> dvc_verifier ctx then Err DlAudienceMismatch
     else if is_in_the_past (dl_exp claims) (dvc_now ctx) then Err DlExpired
     else
     and_then (ok_or DlInvalidVoucher (dl_voucher claims)) (\<lambda>voucher_token.
     and_then (verify_root_voucher E voucher_token (dl_iss claims) ctx) (\<lambda>voucher.
     and_then (ensure DlExpired (\<not> sint (gv_exp voucher) < sint (dl_exp claims))) (\<lambda>_.
     and_then (try_for_each (\<lambda>c. ensure DlScopeExceeded (c \<in> set (gv_grants voucher))) (dl_scope claims)) (\<lambda>_.
     and_then (check_hop_claims E claims ctx) (\<lambda>_.
     and_then (delegation_revocation (dvc_revocation ctx)
                 \<lparr>rq_issuer = dvc_verifier ctx, rq_jti = gv_src_jti voucher, rq_now = dvc_now ctx\<rparr> (dl_scope claims)) (\<lambda>effective.
     Ok \<lparr>vd_token = token, vd_claims = claims, vd_voucher = voucher, vd_effective_grants = effective\<rparr>)))))))"

definition verify_delegation :: "externals \<Rightarrow> string \<Rightarrow> delegation_verify_context \<Rightarrow> (delegation_error, verified_delegation) result" where
  "verify_delegation E token ctx = and_then (delegation_peek_claims E token) (\<lambda>_. verify_single_hop E token ctx)"

subsection \<open>Lemmas\<close>

text \<open>The unverified look at the header agrees with the verified one, when it sees a type at all.\<close>

lemma verify_compact_peek_typ:
  assumes "verify_compact E a ty token = Ok payload"
  shows "peek_typ E token \<in> {None, Some ty}"
proof -
  obtain h p s hb hj alg where t: "split_strict token = Ok (h, p, s)" "decode_strict E h = Ok hb"
    and hj: "json_document E hb = Ok hj" "de_jws_header hj = Ok \<lparr>hd_alg = alg, hd_typ = ty\<rparr>"
    using assms unfolding verify_compact_Ok by blast
  have hd: "hd (split_on CHR ''.'' token) = h"
    using t(1) by (auto simp: split_strict_def split: list.splits if_splits)
  show ?thesis
  proof (cases hj)
    case (JObj ms)
    have ok: "de_map jws_header_fields [] ms = Ok ()" and ty: "de_field ms ''typ'' de_string = Ok ty"
      using hj(2) by (auto simp: de_jws_header_def de_struct_def JObj)
    have uk: "unique_keys hj"
      using ok unfolding JObj de_map_iff
      by (fastforce simp: jws_header_fields_def list_all_iff de_void_def split: if_splits json.splits elim!: de_string.elims)
    have "map_of ms ''typ'' = Some (JStr ty)"
      using ty by (auto simp: de_field_def split: option.splits elim: de_string.elims)
    moreover have "value_from_slice E hb = Ok hj" using hj(1) uk by (simp add: value_from_slice_def to_value_unique)
    ultimately show ?thesis using t(2) by (simp add: peek_typ_def hd JObj)
  qed (use t(2) hj(1) in \<open>simp_all add: peek_typ_def hd value_from_slice_def\<close>)
qed

lemma de_map_keys: "de_map fs [] ms = Ok () \<Longrightarrow> fst ` set ms \<subseteq> fst ` set fs"
  unfolding de_map_iff by (force dest: map_of_SomeD)

lemma delegation_peek_after_verify:
  assumes v: "verify_compact E a TYP_DELEGATION token = Ok payload" and j: "json_document E payload = Ok j"
    and c: "de_delegation_claims E j = Ok c"
  shows "delegation_peek_claims E token = Ok c' \<longleftrightarrow> unique_keys j \<and> c' = c"
proof -
  obtain ms where ms: "j = JObj ms" using verify_compact_object [OF v j] by (cases j) auto
  have ok: "de_map (delegation_fields E) [] ms = Ok ()"
    using c by (auto simp: de_delegation_claims_def de_struct_def ms)
  have mem: "check_members obj j DELEGATION_CLAIMS_MEMBERS = Ok ()" for obj
    unfolding ms by (rule check_members_de_map [OF ok]) (simp add: delegation_fields_def DELEGATION_CLAIMS_MEMBERS_def)
  have absent: "map_of ms k = None" if "k \<in> {''chain'', ''jti'', ''chain_hash''}" for k
    using that de_map_keys [OF ok] by (auto simp: map_of_eq_None_iff delegation_fields_def)
  have ty: "(case peek_typ E token of
               Some t \<Rightarrow> ensure (DlCrypto (TypMismatch TYP_DELEGATION t)) (t = TYP_DELEGATION)
             | None \<Rightarrow> Ok ()) = Ok ()"
    using verify_compact_peek_typ [OF v] by auto
  from j obtain rest where nx: "json_next E payload = Some (j, rest)"
    by (auto simp: json_document_def split: option.splits if_splits)
  show ?thesis
  proof (cases "unique_keys j")
    case True
    have "value_from_slice E payload = Ok j" using j True by (simp add: value_from_slice_def to_value_unique)
    moreover have "reject_duplicate_keys E payload = Ok ()"
      using nx True by (simp add: reject_duplicate_keys_def dup_check_iff)
    ultimately show ?thesis
      using True ty mem absent signed_document_payload [OF v] j c
      by (auto simp: delegation_peek_claims_def ms)
  next
    case False
    then have "dup_check j \<noteq> Ok ()" by (simp add: dup_check_iff)
    then obtain e where "dup_check j = Err e" by (cases "dup_check j") auto
    then show ?thesis
      using False ty nx signed_document_payload [OF v] by (simp add: delegation_peek_claims_def reject_duplicate_keys_def)
  qed
qed

text \<open>The token is signed by the key that the issuer's Manifest designates.\<close>

definition delegation_signed :: "externals \<Rightarrow> delegation_verify_context \<Rightarrow> string \<Rightarrow> delegation_claims \<Rightarrow> bool" where
  "delegation_signed E ctx token c \<longleftrightarrow>
     (\<exists>r m j. dvc_issuer_manifests ctx = Some r \<and>
        resolve_verified_manifest E r (dl_iss c)
          \<lparr>mc_now = dvc_now ctx, mc_insecure_localhost = dvc_insecure_localhost ctx\<rparr> = Ok m \<and>
        signed_document E (m_aid m) TYP_DELEGATION token j \<and> unique_keys j \<and> de_delegation_claims E j = Ok c)"

lemma verify_hop_jws_Ok:
  "verify_hop_jws E token ctx = Ok c \<longleftrightarrow> delegation_signed E ctx token c \<and> dl_ver c = PROTOCOL_VERSION"
    (is "?l \<longleftrightarrow> ?r")
proof
  assume ?l
  then obtain claimed r m payload j where
    p: "delegation_peek_claims E token = Ok claimed" and r: "dvc_issuer_manifests ctx = Some r"
    and m: "resolve_verified_manifest E r (dl_iss claimed)
        \<lparr>mc_now = dvc_now ctx, mc_insecure_localhost = dvc_insecure_localhost ctx\<rparr> = Ok m"
    and v: "verify_compact E (m_aid m) TYP_DELEGATION token = Ok payload" "json_document E payload = Ok j"
    and c: "de_delegation_claims E j = Ok c" "dl_ver c = PROTOCOL_VERSION"
    by (auto simp: verify_hop_jws_def Let_def)
  from p have "unique_keys j" "claimed = c" unfolding delegation_peek_after_verify [OF v c(1)] by simp_all
  with r m v c show ?r unfolding delegation_signed_def signed_document_def by blast
next
  assume ?r
  then obtain r m payload j where r: "dvc_issuer_manifests ctx = Some r"
    and m: "resolve_verified_manifest E r (dl_iss c)
        \<lparr>mc_now = dvc_now ctx, mc_insecure_localhost = dvc_insecure_localhost ctx\<rparr> = Ok m"
    and v: "verify_compact E (m_aid m) TYP_DELEGATION token = Ok payload" "json_document E payload = Ok j"
    and c: "de_delegation_claims E j = Ok c" "dl_ver c = PROTOCOL_VERSION" "unique_keys j"
    unfolding delegation_signed_def signed_document_def by blast
  have "delegation_peek_claims E token = Ok c" using delegation_peek_after_verify [OF v c(1)] c(3) by simp
  with r m v c show ?l by (simp add: verify_hop_jws_def Let_def)
qed

lemma verify_hop_jws_peek: "verify_hop_jws E token ctx = Ok c \<Longrightarrow> \<exists>c'. delegation_peek_claims E token = Ok c'"
  by (auto simp: verify_hop_jws_def)

lemma delegation_revocation_Ok: "delegation_revocation src q s = Ok g \<longleftrightarrow> apply_revocation src q s = Ok g"
  by (simp add: delegation_revocation_def)

lemma check_hop_claims_Ok:
  "check_hop_claims E c ctx = Ok () \<longleftrightarrow>
     dl_aud c = dvc_verifier ctx \<and> dl_iss c \<noteq> dl_sub c \<and> dl_scope c \<noteq> [] \<and>
     (\<exists>vk. vk_from_aid E (dl_sub c) = Ok vk \<and> to_jwk_thumbprint_sha256 E vk = Ok (jkt (dl_cnf c)))"
  by (auto simp: check_hop_claims_def)

lemma verify_root_voucher_Ok:
  "verify_root_voucher E t b ctx = Ok v \<longleftrightarrow>
     verify_voucher E t (dvc_verifier ctx) = Ok v \<and> gv_sub v = b \<and> sint (dvc_now ctx) \<le> sint (gv_exp v)"
  by (cases "verify_voucher E t (dvc_verifier ctx)") (auto simp: verify_root_voucher_def is_in_the_past_def)

text \<open>A Manifest that designates an AID verifies what the AID's key signed.\<close>

lemma designates_verify_compact: "designates a b \<Longrightarrow> verify_compact E a ty token = verify_compact E b ty token"
proof -
  assume d: "designates a b"
  have alg: "aid_algorithm a = aid_algorithm b" using d by (simp add: designates_def)
  have vk: "vk_from_aid E a = vk_from_aid E b" by (rule designates_vk [OF d])
  show ?thesis unfolding verify_compact_def alg vk by (rule refl)
qed

lemma resolved_designates: "resolve_verified_manifest E r a ctx = Ok m \<Longrightarrow> designates (m_aid m) a"
  by (auto simp: resolve_verified_manifest_def if_Err_eq_Ok)

lemma de_ser_delegation_claims:
  assumes "wf_aid E (dl_iss c)" "wf_aid E (dl_sub c)" "wf_aid E (dl_aud c)" "dl_voucher c = Some v" "dl_ext c = None"
  shows "de_delegation_claims E (jcs_sort (ser_delegation_claims E c)) = Ok c"
proof -
  let ?ms = "map (\<lambda>kv. (fst kv, jcs_sort (snd kv))) (delegation_members E c)"
  have ms: "?ms = [(''ver'', JStr (dl_ver c)), (''iss'', ser_aid (dl_iss c)), (''sub'', ser_aid (dl_sub c)),
      (''aud'', ser_aid (dl_aud c)), (''scope'', ser_strings (dl_scope c)), (''exp'', ser_time (dl_exp c)),
      (''cnf'', JObj [(''jkt'', JStr (jkt (dl_cnf c)))]), (''voucher'', JStr v)]"
    using assms by (simp add: delegation_members_def opt_member_def)
  have leaf: "de_aid E (ser_aid (dl_iss c)) = Ok (dl_iss c)" "de_aid E (ser_aid (dl_sub c)) = Ok (dl_sub c)"
      "de_aid E (ser_aid (dl_aud c)) = Ok (dl_aud c)"
    using assms by (simp_all add: de_aid_ser)
  have ok: "de_map (delegation_fields E) [] ?ms = Ok ()"
    unfolding ms using leaf by (simp add: delegation_fields_def de_void_def de_void_opt_def)
  have d: "distinct (map fst ?ms)" using ok [unfolded de_map_iff] by blast
  show ?thesis
    unfolding de_delegation_claims_def ser_delegation_claims_def de_struct_jcs_sort [OF ok] and_then_simps de_field_sort [OF d]
    unfolding ms using leaf assms(4,5) by (simp add: de_field_def de_opt_field_def)
qed

lemma unique_keys_ser_delegation: "dl_ext c = None \<Longrightarrow> unique_keys (ser_delegation_claims E c)"
  by (auto simp: ser_delegation_claims_def delegation_members_def opt_member_def split: option.splits)

lemma delegation_draft_Ok:
  assumes "delegation_draft E clock b = Ok c"
  shows "dl_ver c = PROTOCOL_VERSION" "dl_iss c = sg_aid (db_issuer_key b)" "dl_aud c = gv_iss (db_voucher b)"
    and "db_delegatee b = Some (dl_sub c)" "dl_iss c \<noteq> dl_sub c" "dl_scope c = db_scope b" "dl_scope c \<noteq> []"
    and "set (dl_scope c) \<subseteq> set (gv_grants (db_voucher b))" "dl_voucher c = Some (db_voucher_token b)" "dl_ext c = None"
    and "sint (dl_exp c) = min (sint (saturating_add (case db_now_override b of Some t \<Rightarrow> t | None \<Rightarrow> clock) (db_ttl b)))
      (sint (gv_exp (db_voucher b)))"
    and "\<exists>vk. vk_from_aid E (dl_sub c) = Ok vk \<and> to_jwk_thumbprint_sha256 E vk = Ok (jkt (dl_cnf c))"
  using assms by (auto simp: delegation_draft_def Let_def try_for_each_eq_Inr)

lemma rooted_in_voucher_Ok:
  assumes "rooted_in_voucher E sg voucher = Ok b" "verify_voucher E voucher a = Ok vo"
  shows "db_voucher b = vo" "db_voucher_token b = voucher" "db_issuer_key b = sg" "gv_sub vo = sg_aid sg"
proof -
  obtain payload where v: "verify_compact E a TYP_GRANT_VOUCHER voucher = Ok payload"
      "and_then (json_document E payload) (de_voucher_claims E) = Ok vo"
    using assms(2) by (auto simp: verify_voucher_def)
  have "decode_payload_unverified E voucher = Ok payload" by (rule signed_document_payload [OF v(1)])
  with assms(1) v(2) have "db_voucher b = vo \<and> db_voucher_token b = voucher \<and> db_issuer_key b = sg \<and> gv_sub vo = sg_aid sg"
    unfolding rooted_in_voucher_def and_then_eq_Inr by auto
  then show "db_voucher b = vo" "db_voucher_token b = voucher" "db_issuer_key b = sg" "gv_sub vo = sg_aid sg" by simp_all
qed

lemma rooted_in_voucher_total:
  assumes "signed_document E a TYP_GRANT_VOUCHER voucher j" "unique_keys j" "de_voucher_claims E j = Ok vo" "gv_sub vo = sg_aid sg"
  shows "\<exists>b. rooted_in_voucher E sg voucher = Ok b"
proof -
  obtain payload where p: "verify_compact E a TYP_GRANT_VOUCHER voucher = Ok payload" "json_document E payload = Ok j"
    using assms(1) by (auto simp: signed_document_def)
  obtain ms where ms: "j = JObj ms" using verify_compact_object [OF p] by (cases j) auto
  have "de_map (voucher_fields E) [] ms = Ok ()"
    using assms(3) by (auto simp: de_voucher_claims_def de_struct_def ms)
  then have mem: "check_members obj j GRANT_VOUCHER_CLAIMS_MEMBERS = Ok ()" for obj
    unfolding ms by (rule check_members_de_map) (simp add: voucher_fields_def GRANT_VOUCHER_CLAIMS_MEMBERS_def)
  from p(2) obtain rest where nx: "json_next E payload = Some (j, rest)"
    by (auto simp: json_document_def split: option.splits if_splits)
  have "value_from_slice E payload = Ok j" using p(2) assms(2) by (simp add: value_from_slice_def to_value_unique)
  moreover have "reject_duplicate_keys E payload = Ok ()"
    using nx assms(2) by (simp add: reject_duplicate_keys_def dup_check_iff)
  ultimately show ?thesis
    using signed_document_payload [OF p(1)] p(2) assms(3,4) mem by (simp add: rooted_in_voucher_def)
qed

lemma verify_delegation_Ok:
  "verify_delegation E token ctx = Ok v \<longleftrightarrow>
     (\<exists>c t vo g. delegation_signed E ctx token c \<and> dl_ver c = PROTOCOL_VERSION \<and>
        dl_aud c = dvc_verifier ctx \<and> sint (dvc_now ctx) \<le> sint (dl_exp c) \<and>
        dl_voucher c = Some t \<and> verify_voucher E t (dvc_verifier ctx) = Ok vo \<and> gv_sub vo = dl_iss c \<and>
        sint (dl_exp c) \<le> sint (gv_exp vo) \<and> set (dl_scope c) \<subseteq> set (gv_grants vo) \<and>
        dl_iss c \<noteq> dl_sub c \<and> dl_scope c \<noteq> [] \<and>
        (\<exists>vk. vk_from_aid E (dl_sub c) = Ok vk \<and> to_jwk_thumbprint_sha256 E vk = Ok (jkt (dl_cnf c))) \<and>
        apply_revocation (dvc_revocation ctx)
          \<lparr>rq_issuer = dvc_verifier ctx, rq_jti = gv_src_jti vo, rq_now = dvc_now ctx\<rparr> (dl_scope c) = Ok g \<and>
        v = \<lparr>vd_token = token, vd_claims = c, vd_voucher = vo, vd_effective_grants = g\<rparr>)"
proof -
  have "verify_delegation E token ctx = Ok v \<longleftrightarrow> verify_single_hop E token ctx = Ok v"
    using verify_hop_jws_peek [of E token ctx] by (auto simp: verify_delegation_def verify_single_hop_def)
  also have "\<dots> \<longleftrightarrow> (\<exists>c t vo g. verify_hop_jws E token ctx = Ok c \<and> dl_aud c = dvc_verifier ctx \<and>
      sint (dvc_now ctx) \<le> sint (dl_exp c) \<and> dl_voucher c = Some t \<and> verify_root_voucher E t (dl_iss c) ctx = Ok vo \<and>
      sint (dl_exp c) \<le> sint (gv_exp vo) \<and> (\<forall>x\<in>set (dl_scope c). x \<in> set (gv_grants vo)) \<and>
      check_hop_claims E c ctx = Ok () \<and>
      apply_revocation (dvc_revocation ctx)
        \<lparr>rq_issuer = dvc_verifier ctx, rq_jti = gv_src_jti vo, rq_now = dvc_now ctx\<rparr> (dl_scope c) = Ok g \<and>
      v = \<lparr>vd_token = token, vd_claims = c, vd_voucher = vo, vd_effective_grants = g\<rparr>)"
    unfolding verify_single_hop_def and_then_eq_Inr if_Err_eq_Ok
    by (auto simp: is_in_the_past_def try_for_each_eq_Inr delegation_revocation_Ok)
  finally show ?thesis
    unfolding verify_hop_jws_Ok check_hop_claims_Ok verify_root_voucher_Ok by (auto simp: subset_iff)
qed

lemma built_delegation_accepted:
  assumes laws: "b64_laws E" "sig_laws E" "sha_laws E" "\<forall>k. sg_signing_key sg\<^sub>B = Some k \<longrightarrow> sk_wf E k"
    and header: "header_parses E (jose_alg (aid_algorithm (sg_aid sg\<^sub>B))) TYP_DELEGATION"
    and A: "issue_env E (tb_issuer_key tb) random" "wf_tct_builder E tb" "build E random clock tb = Ok issued"
      "it_voucher issued = Some voucher" "jcs_prints E (ser_voucher_claims E (voucher_of (it_claims issued))) payload"
    and B: "rooted_in_voucher E sg\<^sub>B voucher = Ok b\<^sub>0" "b = b\<^sub>0\<lparr>db_delegatee := Some c, db_scope := scope, db_ttl := ttl, db_now_override := t\<rparr>"
      "build_delegation E clock' b = Ok d" "wf_aid E (sg_aid sg\<^sub>B)" "wf_aid E c"
      "jcs_prints E (ser_delegation_claims E (idl_claims d)) payload'"
    and ctx: "dvc_verifier ctx = sg_aid (tb_issuer_key tb)" "sint (dvc_now ctx) \<le> sint (dl_exp (idl_claims d))"
      "dvc_issuer_manifests ctx = Some r"
      "resolve_verified_manifest E r (sg_aid sg\<^sub>B) \<lparr>mc_now = dvc_now ctx, mc_insecure_localhost = dvc_insecure_localhost ctx\<rparr> = Ok m"
      "dvc_revocation ctx = Check f"
      "f \<lparr>rq_issuer = dvc_verifier ctx, rq_jti = tct_jti (it_claims issued), rq_now = dvc_now ctx\<rparr> = Ok Clear"
  shows "verify_delegation E (idl_token d) ctx =
    Ok \<lparr>vd_token = idl_token d, vd_claims = idl_claims d, vd_voucher = voucher_of (it_claims issued), vd_effective_grants = scope\<rparr>"
proof -
  let ?vo = "voucher_of (it_claims issued)" and ?c = "idl_claims d"
  have vo: "verify_voucher E voucher (sg_aid (tb_issuer_key tb)) = Ok ?vo" by (rule build_voucher_verifies [OF A])
  note b0 = rooted_in_voucher_Ok [OF B(1) vo]
  obtain dr: "delegation_draft E clock' b = Ok ?c"
    and tok: "sign_compact E sg\<^sub>B TYP_DELEGATION (ser_delegation_claims E ?c) = Ok (idl_token d)"
    using B(2,3) b0(3) by (auto simp: build_delegation_def)
  note dc = delegation_draft_Ok [OF dr]
  have iss: "gv_iss ?vo = sg_aid (tb_issuer_key tb)" using vo by (auto simp: verify_voucher_def)
  have wfA: "wf_aid E (sg_aid (tb_issuer_key tb))" using A(1) by (simp add: issue_env_def)
  have c: "dl_iss ?c = sg_aid sg\<^sub>B" "dl_aud ?c = sg_aid (tb_issuer_key tb)" "dl_sub ?c = c" "dl_scope ?c = scope"
      "dl_voucher ?c = Some voucher" "set (dl_scope ?c) \<subseteq> set (gv_grants ?vo)" "sint (dl_exp ?c) \<le> sint (gv_exp ?vo)"
    using dc b0 B(2) iss by simp_all
  have "signed_document E (sg_aid sg\<^sub>B) TYP_DELEGATION (idl_token d) (jcs_sort (ser_delegation_claims E ?c))"
    using sign_compact_signed_document [OF laws header] B(6) unique_keys_ser_delegation [OF dc(10)] tok
    unfolding ser_delegation_claims_def by blast
  then have "signed_document E (m_aid m) TYP_DELEGATION (idl_token d) (jcs_sort (ser_delegation_claims E ?c))"
    unfolding signed_document_def designates_verify_compact [OF resolved_designates [OF ctx(4)]] .
  moreover have "de_delegation_claims E (jcs_sort (ser_delegation_claims E ?c)) = Ok ?c"
    by (rule de_ser_delegation_claims) (use c B(4,5) wfA dc in simp_all)
  ultimately have "delegation_signed E ctx (idl_token d) ?c"
    using ctx(3,4) unique_keys_jcs_sort [OF unique_keys_ser_delegation [OF dc(10)]] c(1)
    unfolding delegation_signed_def by metis
  moreover have "gv_src_jti ?vo = tct_jti (it_claims issued)" by (simp add: voucher_of_def)
  moreover have "apply_revocation (Check f)
      \<lparr>rq_issuer = dvc_verifier ctx, rq_jti = tct_jti (it_claims issued), rq_now = dvc_now ctx\<rparr> scope = Ok scope"
    using ctx(6) by (simp add: apply_revocation_def)
  ultimately show ?thesis
    unfolding verify_delegation_Ok
    by (intro exI [of _ ?c] exI [of _ voucher] exI [of _ ?vo] exI [of _ scope])
      (use dc(1,5,7,12) c vo ctx(1,2,5) b0(4) in simp)
qed

subsection \<open>Properties\<close>

text \<open>
  C13: A accepts a delegation exactly when: the key that the issuer's verified Manifest
  designates signed it, with strict claims of the supported version; it is addressed to A and
  not expired; its voucher is one that A itself issued to the delegator, still alive and not
  outlived by the delegation; the scope is not empty and within the voucher's grants; it is
  not a self-delegation and binds the delegatee's key; and the source token is not revoked.
\<close>

theorem verify_delegation_accepts_exactly:
  "verify_delegation E token ctx = Ok v \<longleftrightarrow>
     (\<exists>c t vo g. delegation_signed E ctx token c \<and> dl_ver c = PROTOCOL_VERSION \<and>
        dl_aud c = dvc_verifier ctx \<and> sint (dvc_now ctx) \<le> sint (dl_exp c) \<and>
        dl_voucher c = Some t \<and> verify_voucher E t (dvc_verifier ctx) = Ok vo \<and> gv_sub vo = dl_iss c \<and>
        sint (dl_exp c) \<le> sint (gv_exp vo) \<and> set (dl_scope c) \<subseteq> set (gv_grants vo) \<and>
        dl_iss c \<noteq> dl_sub c \<and> dl_scope c \<noteq> [] \<and>
        (\<exists>vk. vk_from_aid E (dl_sub c) = Ok vk \<and> to_jwk_thumbprint_sha256 E vk = Ok (jkt (dl_cnf c))) \<and>
        apply_revocation (dvc_revocation ctx)
          \<lparr>rq_issuer = dvc_verifier ctx, rq_jti = gv_src_jti vo, rq_now = dvc_now ctx\<rparr> (dl_scope c) = Ok g \<and>
        v = \<lparr>vd_token = token, vd_claims = c, vd_voucher = vo, vd_effective_grants = g\<rparr>)"
  by (rule verify_delegation_Ok)

text \<open>
  C9: delegated authority only shrinks. What an accepted delegation lets the delegatee
  exercise is a non-empty part of its scope, which is within the grants of a voucher that the
  verifier issued to the delegator; and the delegation is over no later than the voucher. With
  a lookup, the source token was looked up in the verifier's own list and was not revoked.
\<close>

theorem delegation_attenuates:
  assumes "verify_delegation E token ctx = Ok v"
  shows "vd_effective_grants v \<noteq> [] \<and> set (vd_effective_grants v) \<subseteq> set (dl_scope (vd_claims v)) \<and>
    set (dl_scope (vd_claims v)) \<subseteq> set (gv_grants (vd_voucher v)) \<and>
    gv_iss (vd_voucher v) = dvc_verifier ctx \<and> gv_sub (vd_voucher v) = dl_iss (vd_claims v) \<and>
    sint (dvc_now ctx) \<le> sint (dl_exp (vd_claims v)) \<and> sint (dl_exp (vd_claims v)) \<le> sint (gv_exp (vd_voucher v)) \<and>
    (\<forall>f. dvc_revocation ctx = Check f \<longrightarrow>
       f \<lparr>rq_issuer = dvc_verifier ctx, rq_jti = gv_src_jti (vd_voucher v), rq_now = dvc_now ctx\<rparr> \<noteq> Ok Revoked)"
proof -
  obtain c t vo g where c: "verify_voucher E t (dvc_verifier ctx) = Ok vo" "gv_sub vo = dl_iss c"
      "sint (dl_exp c) \<le> sint (gv_exp vo)" "sint (dvc_now ctx) \<le> sint (dl_exp c)" "set (dl_scope c) \<subseteq> set (gv_grants vo)"
      "dl_scope c \<noteq> []"
      "apply_revocation (dvc_revocation ctx)
        \<lparr>rq_issuer = dvc_verifier ctx, rq_jti = gv_src_jti vo, rq_now = dvc_now ctx\<rparr> (dl_scope c) = Ok g"
    and v: "v = \<lparr>vd_token = token, vd_claims = c, vd_voucher = vo, vd_effective_grants = g\<rparr>"
    using assms unfolding verify_delegation_Ok by blast
  have "gv_iss vo = dvc_verifier ctx" using c(1) by (auto simp: verify_voucher_def)
  moreover have "f \<lparr>rq_issuer = dvc_verifier ctx, rq_jti = gv_src_jti vo, rq_now = dvc_now ctx\<rparr> \<noteq> Ok Revoked"
    if "dvc_revocation ctx = Check f" for f
    using c(7) that by (auto simp: apply_revocation_def)
  ultimately show ?thesis
    using apply_revocation_subset [OF c(7)] c v by simp
qed

text \<open>
  C27: from A's token to C's authority: B, to whom A issued a token with a voucher, delegates
  to C with any signing backend; whatever the builder accepts, A accepts until the delegation
  expires, provided B's Manifest resolves and A's own list does not report the token.
\<close>

theorem built_delegation_verifies:
  assumes laws: "b64_laws E" "sig_laws E" "sha_laws E" "\<forall>k. sg_signing_key sg\<^sub>B = Some k \<longrightarrow> sk_wf E k"
    and header: "header_parses E (jose_alg (aid_algorithm (sg_aid sg\<^sub>B))) TYP_DELEGATION"
    and A: "issue_env E (tb_issuer_key tb) random" "wf_tct_builder E tb" "build E random clock tb = Ok issued"
      "it_voucher issued = Some voucher" "jcs_prints E (ser_voucher_claims E (voucher_of (it_claims issued))) payload"
    and B: "rooted_in_voucher E sg\<^sub>B voucher = Ok b\<^sub>0" "b = b\<^sub>0\<lparr>db_delegatee := Some c, db_scope := scope, db_ttl := ttl, db_now_override := t\<rparr>"
      "build_delegation E clock' b = Ok d" "wf_aid E (sg_aid sg\<^sub>B)" "wf_aid E c"
      "jcs_prints E (ser_delegation_claims E (idl_claims d)) payload'"
    and ctx: "dvc_verifier ctx = sg_aid (tb_issuer_key tb)" "sint (dvc_now ctx) \<le> sint (dl_exp (idl_claims d))"
      "dvc_issuer_manifests ctx = Some r"
      "resolve_verified_manifest E r (sg_aid sg\<^sub>B) \<lparr>mc_now = dvc_now ctx, mc_insecure_localhost = dvc_insecure_localhost ctx\<rparr> = Ok m"
      "dvc_revocation ctx = Check f"
      "f \<lparr>rq_issuer = dvc_verifier ctx, rq_jti = tct_jti (it_claims issued), rq_now = dvc_now ctx\<rparr> = Ok Clear"
  shows "verify_delegation E (idl_token d) ctx =
    Ok \<lparr>vd_token = idl_token d, vd_claims = idl_claims d, vd_voucher = voucher_of (it_claims issued), vd_effective_grants = scope\<rparr>"
  by (rule built_delegation_accepted [OF assms])

end
