(* ===== verification/Handshake_Pinned.thy ===== *)
theory Handshake_Pinned
  imports Handshake_Jwk
begin

text \<open>
  Handshake errors (\<open>handshake/error.rs\<close>), identity descriptors (\<open>handshake/identity.rs\<close>) and
  pinned-key identities (\<open>handshake/pinned_key.rs\<close>): the proof input, the trust stores, the
  trust-anchor entries, verification and signing.

  Shown here: the proof input determines sender, receiver, message id, timestamp and nonce,
  so a proof is never valid for another tuple; verification accepts exactly a trusted key
  that is the sender AID's own and signed that input; the honest proof is accepted.
\<close>

subsection \<open>Descriptors and errors\<close>

datatype svid_type = JwtSvid | X509Svid

record identity_descriptor =
  id_kind :: identity_kind
  id_issuer :: "raw_url option"
  id_subject :: string
  id_svid_type :: "svid_type option"
  id_proof :: string
  id_x5c :: "string list option"
  id_public_key :: "string option"
  id_extensions :: "extensions_map option"

definition descriptor_pinned_key :: "string \<Rightarrow> string \<Rightarrow> string \<Rightarrow> identity_descriptor" where
  "descriptor_pinned_key subject public_key proof =
     \<lparr>id_kind = PinnedKey, id_issuer = None, id_subject = subject, id_svid_type = None, id_proof = proof, id_x5c = None,
      id_public_key = Some public_key, id_extensions = None\<rparr>"

definition descriptor_oidc :: "raw_url \<Rightarrow> string \<Rightarrow> string \<Rightarrow> identity_descriptor" where
  "descriptor_oidc issuer subject proof =
     \<lparr>id_kind = Oidc, id_issuer = Some issuer, id_subject = subject, id_svid_type = None, id_proof = proof, id_x5c = None,
      id_public_key = None, id_extensions = None\<rparr>"

datatype identity_verify_error = Rejected | KeyUnavailable

datatype handshake_error =
    InvalidEnvelope
  | InvalidSignature
  | IncompatibleTrustAnchors
  | HsManifest manifest_error
  | HsIdentity
  | KeyResolutionFailed string
  | NonceMismatch
  | PeerMismatch
  | PopVerificationFailed
  | InsufficientGrants
  | GrantOverflow
  | HsTct tct_error
  | HsCrypto crypto_error
  | HsState
  | HsRng
  | PolicyViolation
  | HsCanonicalization
  | HsUnknownField string
  | HsIdentityVerifier identity_verify_error
  | GrantPolicyFailed

subsection \<open>Proof input\<close>

text \<open>The decimal text of an \<open>i64\<close>.\<close>

definition digit_char :: "nat \<Rightarrow> char" where
  "digit_char d = char_of (48 + d)"

fun nat_str :: "nat \<Rightarrow> string" where
  "nat_str n = (if n < 10 then [digit_char n] else nat_str (n div 10) @ [digit_char (n mod 10)])"

declare nat_str.simps [simp del]

definition i64_str :: "i64 \<Rightarrow> string" where
  "i64_str t = (if sint t < 0 then CHR ''-'' # nat_str (nat (- sint t)) else nat_str (nat (sint t)))"

definition NONCE_LEN :: nat where "NONCE_LEN = 16"

definition PINNED_KEY_PROOF_DOMAIN :: bytes where
  "PINNED_KEY_PROOF_DOMAIN = str_bytes ''aitp-pinned-key-v1'' @ [0]"

definition handshake_proof_input ::
  "externals \<Rightarrow> bytes \<Rightarrow> aid \<Rightarrow> aid \<Rightarrow> uuid \<Rightarrow> timestamp \<Rightarrow> string \<Rightarrow> (handshake_error, bytes) result" where
  "handshake_proof_input E domain sender_aid receiver_aid message_id timestamp pop_nonce =
     and_then (map_err (\<lambda>_. HsIdentity) (decode_strict E pop_nonce)) (\<lambda>pop_nonce_bytes.
     if length pop_nonce_bytes \<noteq> NONCE_LEN then Err HsIdentity
     else Ok (domain @ str_bytes (aid_as_str sender_aid) @ [0] @ str_bytes (aid_as_str receiver_aid) @ [0] @
              str_bytes (uuid_hyphenated E message_id) @ [0] @ str_bytes (i64_str timestamp) @ [0] @ pop_nonce_bytes))"

definition pinned_key_proof_input ::
  "externals \<Rightarrow> aid \<Rightarrow> aid \<Rightarrow> uuid \<Rightarrow> timestamp \<Rightarrow> string \<Rightarrow> (handshake_error, bytes) result" where
  "pinned_key_proof_input E = handshake_proof_input E PINNED_KEY_PROOF_DOMAIN"

subsection \<open>Trust stores\<close>

text \<open>A \<open>PinnedKeyStore\<close> is its one method.\<close>

type_synonym pinned_key_store = "verifying_key \<Rightarrow> bool"

definition no_pinned_keys :: pinned_key_store where
  "no_pinned_keys key = False"

text \<open>The keys of a \<open>HashSet\<close> are compared by algorithm and compressed bytes.\<close>

type_synonym static_pinned_key_store = "verifying_key list"

definition static_is_trusted :: "externals \<Rightarrow> static_pinned_key_store \<Rightarrow> pinned_key_store" where
  "static_is_trusted E trusted key \<longleftrightarrow> list_ex (\<lambda>k. vk_eq E k key) trusted"

definition static_insert :: "externals \<Rightarrow> verifying_key \<Rightarrow> static_pinned_key_store \<Rightarrow> bool \<times> static_pinned_key_store" where
  "static_insert E key trusted =
     (if static_is_trusted E trusted key then (False, trusted) else (True, key # trusted))"

definition static_remove :: "externals \<Rightarrow> verifying_key \<Rightarrow> static_pinned_key_store \<Rightarrow> bool \<times> static_pinned_key_store" where
  "static_remove E key trusted =
     (static_is_trusted E trusted key, filter (\<lambda>k. \<not> vk_eq E k key) trusted)"

definition static_new :: "externals \<Rightarrow> verifying_key list \<Rightarrow> static_pinned_key_store" where
  "static_new E keys = fold (\<lambda>k acc. snd (static_insert E k acc)) keys []"

fun try_map :: "('a \<Rightarrow> ('e, 'b) result) \<Rightarrow> 'a list \<Rightarrow> ('e, 'b list) result" where
  "try_map f [] = Ok []"
| "try_map f (x # xs) = and_then (f x) (\<lambda>y. and_then (try_map f xs) (\<lambda>ys. Ok (y # ys)))"

definition static_from_aids :: "externals \<Rightarrow> aid list \<Rightarrow> (handshake_error, static_pinned_key_store) result" where
  "static_from_aids E aids =
     and_then (map_err HsCrypto (try_map (vk_from_aid E) aids)) (\<lambda>keys. Ok (static_new E keys))"

record pinned_key_entry =
  pe_subject :: string
  pe_public_key :: string
  pe_algorithm :: "aid_algorithm option"
  pe_allowed_capabilities :: "string list option"

datatype pinned_key_entry_error =
  EntryLength nat | EntryAlgorithmMismatch aid_algorithm nat | EntryEncoding base64url_error | EntryKey crypto_error

definition pinned_entry_new :: "externals \<Rightarrow> string \<Rightarrow> verifying_key \<Rightarrow> pinned_key_entry" where
  "pinned_entry_new E subject key =
     \<lparr>pe_subject = subject, pe_public_key = encode E (to_compressed E key), pe_algorithm = Some (vk_algorithm key),
      pe_allowed_capabilities = None\<rparr>"

definition resolved_algorithm :: "pinned_key_entry \<Rightarrow> (pinned_key_entry_error, aid_algorithm) result" where
  "resolved_algorithm e =
     (let len = length (pe_public_key e) in
      and_then (if len = 43 then Ok Ed25519 else if len = 44 then Ok P256 else Err (EntryLength len)) (\<lambda>by_len.
      case pe_algorithm e of
        Some a \<Rightarrow> if a \<noteq> by_len then Err (EntryAlgorithmMismatch a len) else Ok by_len
      | None \<Rightarrow> Ok by_len))"

definition entry_verifying_key :: "externals \<Rightarrow> pinned_key_entry \<Rightarrow> (pinned_key_entry_error, verifying_key) result" where
  "entry_verifying_key E e =
     and_then (resolved_algorithm e) (\<lambda>_.
     and_then (map_err EntryEncoding (decode_strict E (pe_public_key e))) (\<lambda>bs.
     map_err EntryKey (from_compressed E bs)))"

definition static_from_entries :: "externals \<Rightarrow> pinned_key_entry list \<Rightarrow> (pinned_key_entry_error, static_pinned_key_store) result" where
  "static_from_entries E entries = and_then (try_map (entry_verifying_key E) entries) (\<lambda>keys. Ok (static_new E keys))"

subsection \<open>Verification and signing\<close>

datatype subject_binding = Unchecked | SenderAid

record pinned_key_verify_context =
  pk_sender_aid :: aid
  pk_receiver_aid :: aid
  pk_message_id :: uuid
  pk_timestamp :: timestamp
  pk_pop_nonce :: string
  pk_subject :: subject_binding

record verified_pinned_key =
  vp_algorithm :: aid_algorithm
  vp_key :: verifying_key
  vp_aid :: aid

definition resolve_pinned_key ::
  "externals \<Rightarrow> identity_descriptor \<Rightarrow> pinned_key_verify_context \<Rightarrow> pinned_key_store \<Rightarrow> (handshake_error, verified_pinned_key) result" where
  "resolve_pinned_key E descriptor ctx store =
     and_then (ensure HsIdentity (id_kind descriptor = PinnedKey)) (\<lambda>_.
     and_then (ensure HsIdentity (id_issuer descriptor = None)) (\<lambda>_.
     and_then (ensure HsIdentity (\<not> (pk_subject ctx = SenderAid \<and> id_subject descriptor \<noteq> aid_as_str (pk_sender_aid ctx)))) (\<lambda>_.
     let algorithm = aid_algorithm (pk_sender_aid ctx) in
     and_then (ok_or HsIdentity (id_public_key descriptor)) (\<lambda>public_key.
     and_then (map_err (\<lambda>_. HsIdentity) (decode_strict E public_key)) (\<lambda>pk_bytes.
     and_then (ensure HsIdentity (length pk_bytes = (case algorithm of Ed25519 \<Rightarrow> 32 | P256 \<Rightarrow> 33))) (\<lambda>_.
     and_then (ensure HsIdentity (\<not> (algorithm = P256 \<and> pk_bytes ! 0 \<notin> {0x02, 0x03}))) (\<lambda>_.
     and_then (map_err (\<lambda>_. HsCrypto CryptoPanic) (pubkey_compressed_bytes E (pk_sender_aid ctx))) (\<lambda>aid_bytes.
     and_then (ensure HsIdentity (pk_bytes = aid_bytes)) (\<lambda>_.
     and_then (map_err (\<lambda>_. HsIdentity) (from_compressed E pk_bytes)) (\<lambda>key.
     and_then (ensure HsIdentity (store key)) (\<lambda>_.
     Ok \<lparr>vp_algorithm = algorithm, vp_key = key, vp_aid = pk_sender_aid ctx\<rparr>)))))))))))"

definition check_pinned_key_proof ::
  "externals \<Rightarrow> identity_descriptor \<Rightarrow> pinned_key_verify_context \<Rightarrow> verified_pinned_key \<Rightarrow> (handshake_error, unit) result" where
  "check_pinned_key_proof E descriptor ctx key =
     and_then (pinned_key_proof_input E (pk_sender_aid ctx) (pk_receiver_aid ctx) (pk_message_id ctx) (pk_timestamp ctx)
                 (pk_pop_nonce ctx)) (\<lambda>input.
     and_then (map_err (\<lambda>_. HsIdentity) (signature_parse (id_proof descriptor))) (\<lambda>sig.
     map_err (\<lambda>_. HsIdentity) (verify_jcs E (vp_key key) (sha256 E input) sig)))"

definition verify_pinned_key ::
  "externals \<Rightarrow> identity_descriptor \<Rightarrow> pinned_key_verify_context \<Rightarrow> pinned_key_store \<Rightarrow> (handshake_error, verified_pinned_key) result" where
  "verify_pinned_key E descriptor ctx store =
     and_then (resolve_pinned_key E descriptor ctx store) (\<lambda>key.
     and_then (check_pinned_key_proof E descriptor ctx key) (\<lambda>_. Ok key))"

definition sign_pinned_key_proof ::
  "externals \<Rightarrow> signer \<Rightarrow> aid \<Rightarrow> aid \<Rightarrow> uuid \<Rightarrow> timestamp \<Rightarrow> string \<Rightarrow> (handshake_error, string) result" where
  "sign_pinned_key_proof E signing_key sender_aid receiver_aid message_id timestamp pop_nonce =
     and_then (pinned_key_proof_input E sender_aid receiver_aid message_id timestamp pop_nonce) (\<lambda>input.
     and_then (map_err (\<lambda>e. HsCrypto (SignerFailed e)) (signer_sign_jcs E signing_key (sha256 E input))) (\<lambda>sig.
     Ok (sig_as_str sig)))"

subsection \<open>The proof input is injective\<close>

definition nul_free :: "string \<Rightarrow> bool" where
  "nul_free s \<longleftrightarrow> (\<forall>c\<in>set s. (of_char c :: nat) \<noteq> 0)"

lemma nul_free_bytes: "nul_free s \<Longrightarrow> 0 \<notin> set (str_bytes s)"
proof -
  assume "nul_free s"
  moreover have "(of_char c :: u8) = 0 \<longleftrightarrow> (of_char c :: nat) = 0" for c
    by (simp add: word_unat_eq_iff unat_of_char_u8)
  ultimately show ?thesis by (auto simp: nul_free_def str_bytes_def)
qed

lemma base64url_nul_free: "list_all is_base64url_byte s \<Longrightarrow> nul_free s"
  by (auto simp: nul_free_def list_all_iff is_base64url_byte_def Let_def)

lemma nul_free_simps [simp]: "nul_free []" "nul_free (c # s) \<longleftrightarrow> (of_char c :: nat) \<noteq> 0 \<and> nul_free s"
    "nul_free (a @ b) \<longleftrightarrow> nul_free a \<and> nul_free b"
  by (auto simp: nul_free_def)

lemma wf_aid_nul_free:
  assumes "wf_aid E a"
  shows "nul_free (aid_as_str a)"
  using assms unfolding wf_aid_def
proof (cases rule: aid_parse_cases)
  case (tagged i)
  then show ?thesis
    by (auto simp: validate_ed25519_identifier_def aid_prefixes intro: base64url_nul_free split: if_splits)
next
  case (p256 i)
  then show ?thesis
    by (auto simp: validate_p256_identifier_def aid_prefixes intro: base64url_nul_free split: if_splits)
next
  case (legacy i)
  then show ?thesis
    by (auto simp: validate_ed25519_identifier_def aid_prefixes intro: base64url_nul_free split: if_splits)
qed

lemma v4_shape_nul_free: "v4_shape s \<Longrightarrow> nul_free s"
proof -
  assume v: "v4_shape s"
  have "(of_char (s ! i) :: nat) \<noteq> 0" if "i < length s" for i
  proof -
    have "(i, s ! i) \<in> set (zip [0..<length s] s)" using that by (force simp: set_zip)
    with v have "s ! i = CHR ''-'' \<or> lower_hex (s ! i)"
      by (fastforce simp: v4_shape_def list_all_iff split: if_splits)
    then show ?thesis by (auto simp: lower_hex_def Let_def)
  qed
  then show ?thesis by (auto simp: nul_free_def in_set_conv_nth)
qed

fun str_nat :: "string \<Rightarrow> nat" where
  "str_nat s = foldl (\<lambda>n c. 10 * n + (of_char c - 48)) 0 s"

declare str_nat.simps [simp del]

lemma of_digit_char: "d < 10 \<Longrightarrow> (of_char (digit_char d) :: nat) = 48 + d"
  by (simp add: digit_char_def of_char_of)

lemma str_nat_snoc: "str_nat (s @ [c]) = 10 * str_nat s + (of_char c - 48)"
  by (simp add: str_nat.simps)

lemma str_nat_nat_str: "str_nat (nat_str n) = n"
proof (induction n rule: nat_str.induct)
  case (1 n)
  show ?case
  proof (cases "n < 10")
    case True
    then show ?thesis using str_nat_snoc [of "[]" "digit_char n"] of_digit_char
      by (subst nat_str.simps) (simp add: str_nat.simps)
  next
    case False
    then have "str_nat (nat_str n) = 10 * (n div 10) + n mod 10"
      using 1 of_digit_char [of "n mod 10"] by (subst nat_str.simps) (simp add: str_nat_snoc)
    then show ?thesis by simp
  qed
qed

lemma nat_str_digits: "\<forall>c\<in>set (nat_str n). 48 \<le> (of_char c :: nat)"
proof (induction n rule: nat_str.induct)
  case (1 n)
  then show ?case
    using of_digit_char [of n] of_digit_char [of "n mod 10"] by (subst nat_str.simps) auto
qed

lemma nat_str_nonempty: "nat_str n \<noteq> []"
  by (subst nat_str.simps) simp

lemma i64_str_inject: "i64_str a = i64_str b \<longleftrightarrow> a = b"
proof
  assume eq: "i64_str a = i64_str b"
  have hd: "hd (nat_str n) \<noteq> CHR ''-''" for n
  proof
    assume "hd (nat_str n) = CHR ''-''"
    then have "CHR ''-'' \<in> set (nat_str n)" using nat_str_nonempty hd_in_set by metis
    with nat_str_digits [of n] show False by fastforce
  qed
  have sgn: "sint a < 0 \<longleftrightarrow> sint b < 0"
    using eq hd [of "nat (sint a)"] hd [of "nat (sint b)"] unfolding i64_str_def by (metis list.sel(1))
  have "nat_str m = nat_str n \<Longrightarrow> m = n" for m n by (metis str_nat_nat_str)
  then have "nat (if sint a < 0 then - sint a else sint a) = nat (if sint b < 0 then - sint b else sint b)"
    using eq sgn by (auto simp: i64_str_def split: if_splits)
  then have "sint a = sint b" using sgn by (auto split: if_splits)
  then show "a = b" by (rule i64_sint_eqI)
qed simp

lemma i64_str_nul_free: "nul_free (i64_str t)"
  using nat_str_digits by (fastforce simp: i64_str_def nul_free_def)

lemma handshake_proof_input_Ok:
  "handshake_proof_input E tag s r i t n = Ok input \<longleftrightarrow>
     (\<exists>bs. decode_strict E n = Ok bs \<and> length bs = 16 \<and>
       input = tag @ str_bytes (aid_as_str s) @ [0] @ str_bytes (aid_as_str r) @ [0] @
         str_bytes (uuid_hyphenated E i) @ [0] @ str_bytes (i64_str t) @ [0] @ bs)"
  by (auto simp: handshake_proof_input_def NONCE_LEN_def split: if_splits)

text \<open>Fields without NUL, each closed by one, read back one by one.\<close>

lemma nul_fields_inject:
  assumes "nul_free a" "nul_free b" "str_bytes a @ [0] @ x = str_bytes b @ [0] @ y"
  shows "a = b \<and> x = y"
  using append_sep_inject [OF nul_free_bytes [OF assms(1)] nul_free_bytes [OF assms(2)] assms(3)] by simp

lemma uuid_hyphenated_props:
  "uuid_laws E \<Longrightarrow> length i = 16 \<Longrightarrow> nul_free (uuid_hyphenated E i)"
  "uuid_laws E \<Longrightarrow> length i = 16 \<Longrightarrow> length j = 16 \<Longrightarrow> uuid_hyphenated E i = uuid_hyphenated E j \<Longrightarrow> i = j"
proof -
  show "uuid_laws E \<Longrightarrow> length i = 16 \<Longrightarrow> nul_free (uuid_hyphenated E i)"
    by (rule v4_shape_nul_free) (simp add: uuid_laws_def)
  assume "uuid_laws E" "length i = 16" "length j = 16" "uuid_hyphenated E i = uuid_hyphenated E j"
  then show "i = j" unfolding uuid_laws_def by (metis option.inject)
qed

lemma handshake_proof_input_inject:
  assumes laws: "uuid_laws E" and wf: "wf_aid E s" "wf_aid E r" "wf_aid E s'" "wf_aid E r'" "length i = 16" "length i' = 16"
    and eq: "handshake_proof_input E tag s r i t n = Ok input" "handshake_proof_input E tag s' r' i' t' n' = Ok input"
  shows "s = s' \<and> r = r' \<and> i = i' \<and> t = t' \<and> decode_strict E n = decode_strict E n'"
proof -
  obtain bs where bs: "decode_strict E n = Ok bs"
    and i1: "input = tag @ str_bytes (aid_as_str s) @ [0] @ str_bytes (aid_as_str r) @ [0] @
         str_bytes (uuid_hyphenated E i) @ [0] @ str_bytes (i64_str t) @ [0] @ bs"
    using eq(1) unfolding handshake_proof_input_Ok by blast
  obtain bs' where bs': "decode_strict E n' = Ok bs'"
    and i2: "input = tag @ str_bytes (aid_as_str s') @ [0] @ str_bytes (aid_as_str r') @ [0] @
         str_bytes (uuid_hyphenated E i') @ [0] @ str_bytes (i64_str t') @ [0] @ bs'"
    using eq(2) unfolding handshake_proof_input_Ok by blast
  have e0: "str_bytes (aid_as_str s) @ [0] @ str_bytes (aid_as_str r) @ [0] @
         str_bytes (uuid_hyphenated E i) @ [0] @ str_bytes (i64_str t) @ [0] @ bs =
       str_bytes (aid_as_str s') @ [0] @ str_bytes (aid_as_str r') @ [0] @
         str_bytes (uuid_hyphenated E i') @ [0] @ str_bytes (i64_str t') @ [0] @ bs'"
    using i1 i2 by simp
  note e1 = nul_fields_inject [OF wf_aid_nul_free [OF wf(1)] wf_aid_nul_free [OF wf(3)] e0]
  note e2 = nul_fields_inject [OF wf_aid_nul_free [OF wf(2)] wf_aid_nul_free [OF wf(4)] conjunct2 [OF e1]]
  note e3 = nul_fields_inject [OF uuid_hyphenated_props(1) [OF laws wf(5)] uuid_hyphenated_props(1) [OF laws wf(6)]
      conjunct2 [OF e2]]
  note e4 = nul_fields_inject [OF i64_str_nul_free i64_str_nul_free conjunct2 [OF e3]]
  have "a = b" if "aid_as_str a = aid_as_str b" for a b using that by (cases a; cases b) simp
  then show ?thesis
    using e1 e2 e3 e4 bs bs' uuid_hyphenated_props(2) [OF laws wf(5,6)] i64_str_inject by simp
qed

subsection \<open>Verification\<close>

lemma from_compressed_aid:
  assumes "wf_aid E a" "pubkey_compressed_bytes E a = Ok bs"
  shows "from_compressed E bs = Ok k \<longleftrightarrow> vk_from_aid E a = Ok k"
  using assms(2) wf_aid_pubkey [OF assms(1)]
  by (cases "aid_algorithm a")
    (auto simp: vk_from_aid_compressed from_compressed_def from_ed25519_bytes_def split: option.splits if_splits)

text \<open>The descriptor carries the sender's own key.\<close>

definition carries_aid_key :: "externals \<Rightarrow> identity_descriptor \<Rightarrow> aid \<Rightarrow> bool" where
  "carries_aid_key E d a \<longleftrightarrow>
     (\<exists>pk bs. id_public_key d = Some pk \<and> decode_strict E pk = Ok bs \<and> pubkey_compressed_bytes E a = Ok bs)"

lemma resolve_pinned_key_Ok:
  assumes "wf_aid E (pk_sender_aid ctx)"
  shows "resolve_pinned_key E d ctx store = Ok v \<longleftrightarrow>
    id_kind d = PinnedKey \<and> id_issuer d = None \<and>
    (pk_subject ctx = SenderAid \<longrightarrow> id_subject d = aid_as_str (pk_sender_aid ctx)) \<and>
    carries_aid_key E d (pk_sender_aid ctx) \<and>
    (\<exists>key. vk_from_aid E (pk_sender_aid ctx) = Ok key \<and> store key \<and>
      v = \<lparr>vp_algorithm = aid_algorithm (pk_sender_aid ctx), vp_key = key, vp_aid = pk_sender_aid ctx\<rparr>)"
    (is "?l = ?r")
proof
  assume ?l
  then show ?r
    using from_compressed_aid [OF assms]
    by (auto simp: resolve_pinned_key_def carries_aid_key_def Let_def)
next
  assume r: ?r
  then obtain pk bs key where pk: "id_public_key d = Some pk" "decode_strict E pk = Ok bs"
      "pubkey_compressed_bytes E (pk_sender_aid ctx) = Ok bs"
    and key: "vk_from_aid E (pk_sender_aid ctx) = Ok key" "store key"
      "v = \<lparr>vp_algorithm = aid_algorithm (pk_sender_aid ctx), vp_key = key, vp_aid = pk_sender_aid ctx\<rparr>"
    unfolding carries_aid_key_def by blast
  have len: "length bs = (case aid_algorithm (pk_sender_aid ctx) of Ed25519 \<Rightarrow> 32 | P256 \<Rightarrow> 33)"
      "aid_algorithm (pk_sender_aid ctx) = P256 \<longrightarrow> hd bs \<in> {2, 3}"
    using wf_aid_pubkey [OF assms] pk(3) by auto
  then have "\<not> (aid_algorithm (pk_sender_aid ctx) = P256 \<and> bs ! 0 \<notin> {0x02, 0x03})"
    by (cases bs) auto
  moreover have "from_compressed E bs = Ok key" using from_compressed_aid [OF assms pk(3)] key(1) by blast
  ultimately show ?l
    using r pk key(2,3) len(1) by (simp add: resolve_pinned_key_def Let_def)
qed

definition proof_holds :: "externals \<Rightarrow> identity_descriptor \<Rightarrow> pinned_key_verify_context \<Rightarrow> verifying_key \<Rightarrow> bool" where
  "proof_holds E d ctx key \<longleftrightarrow>
     (\<exists>input sig. pinned_key_proof_input E (pk_sender_aid ctx) (pk_receiver_aid ctx) (pk_message_id ctx)
        (pk_timestamp ctx) (pk_pop_nonce ctx) = Ok input \<and>
        signature_parse (id_proof d) = Ok sig \<and> verify_jcs E key (sha256 E input) sig = Ok ())"

lemma verify_pinned_key_Ok:
  assumes "wf_aid E (pk_sender_aid ctx)"
  shows "verify_pinned_key E d ctx store = Ok v \<longleftrightarrow>
    id_kind d = PinnedKey \<and> id_issuer d = None \<and>
    (pk_subject ctx = SenderAid \<longrightarrow> id_subject d = aid_as_str (pk_sender_aid ctx)) \<and>
    carries_aid_key E d (pk_sender_aid ctx) \<and>
    (\<exists>key. vk_from_aid E (pk_sender_aid ctx) = Ok key \<and> store key \<and> proof_holds E d ctx key \<and>
      v = \<lparr>vp_algorithm = aid_algorithm (pk_sender_aid ctx), vp_key = key, vp_aid = pk_sender_aid ctx\<rparr>)"
  by (auto simp: verify_pinned_key_def resolve_pinned_key_Ok [OF assms] check_pinned_key_proof_def proof_holds_def)

lemma sign_pinned_key_proof_holds:
  assumes "b64_laws E" "sig_laws E" "sha_laws E" "\<forall>k. sg_signing_key sg = Some k \<longrightarrow> sk_wf E k"
    and "sign_pinned_key_proof E sg s r i t n = Ok pr"
  shows "\<exists>key. vk_from_aid E (sg_aid sg) = Ok key \<and>
    proof_holds E (descriptor_pinned_key subj pk pr)
      \<lparr>pk_sender_aid = s, pk_receiver_aid = r, pk_message_id = i, pk_timestamp = t, pk_pop_nonce = n, pk_subject = b\<rparr> key"
proof -
  obtain input sig where i: "pinned_key_proof_input E s r i t n = Ok input" "pr = sig_as_str sig"
    and sig: "signer_sign_jcs E sg (sha256 E input) = Ok sig"
    using assms(5) by (auto simp: sign_pinned_key_proof_def)
  obtain vk where "vk_from_aid E (sg_aid sg) = Ok vk" "verify_jcs E vk (sha256 E input) sig = Ok ()"
      "signature_parse (sig_as_str sig) = Ok sig"
    using signer_sign_jcs_grammar [OF assms(1-4) sig] by blast
  with i show ?thesis by (auto simp: proof_holds_def descriptor_pinned_key_def)
qed

subsection \<open>Properties\<close>

text \<open>
  C22: the pinned-key proof input determines every value it binds. Two inputs are equal only
  for the same sender, receiver, message id, timestamp and decoded nonce, so a captured proof
  says nothing about any other envelope, peer or handshake.
\<close>

theorem pinned_key_proof_binds_tuple:
  assumes "uuid_laws E" "wf_aid E s" "wf_aid E r" "wf_aid E s'" "wf_aid E r'" "length i = 16" "length i' = 16"
    and "pinned_key_proof_input E s r i t n = Ok input" "pinned_key_proof_input E s' r' i' t' n' = Ok input"
  shows "s = s' \<and> r = r' \<and> i = i' \<and> t = t' \<and> decode_strict E n = decode_strict E n'"
  using handshake_proof_input_inject [OF assms(1-7)] assms(8,9) unfolding pinned_key_proof_input_def by blast

text \<open>
  C12: \<open>verify_pinned_key\<close> accepts exactly a \<open>pinned_key\<close> descriptor without issuer that carries
  the sender AID's own key, where that key is in the trust store and the proof is its
  signature over the input of this sender, receiver, message, timestamp and nonce; it
  returns the key the AID encodes, never one from the descriptor alone.
\<close>

theorem verify_pinned_key_accepts_exactly:
  assumes "wf_aid E (pk_sender_aid ctx)"
  shows "verify_pinned_key E d ctx store = Ok v \<longleftrightarrow>
    id_kind d = PinnedKey \<and> id_issuer d = None \<and>
    (pk_subject ctx = SenderAid \<longrightarrow> id_subject d = aid_as_str (pk_sender_aid ctx)) \<and>
    carries_aid_key E d (pk_sender_aid ctx) \<and>
    (\<exists>key input sig. vk_from_aid E (pk_sender_aid ctx) = Ok key \<and> store key \<and>
      pinned_key_proof_input E (pk_sender_aid ctx) (pk_receiver_aid ctx) (pk_message_id ctx) (pk_timestamp ctx)
        (pk_pop_nonce ctx) = Ok input \<and>
      signature_parse (id_proof d) = Ok sig \<and> verify_jcs E key (sha256 E input) sig = Ok () \<and>
      v = \<lparr>vp_algorithm = aid_algorithm (pk_sender_aid ctx), vp_key = key, vp_aid = pk_sender_aid ctx\<rparr>)"
  unfolding verify_pinned_key_Ok [OF assms] proof_holds_def by blast

end
