(* ===== verification/Handshake_Oidc.thy ===== *)
theory Handshake_Oidc
  imports Handshake_Pinned
begin

text \<open>
  OIDC identity proofs (\<open>handshake/identity_oidc.rs\<close>): the issuer's keys, the token's header
  and claims, and the check of a proof against the handshake it is bound to. The resolver
  of issuer keys is an argument: a function of the issuer's URL, which is itself a function
  of the issuer string.

  Shown here: verification accepts exactly a token of a trusted issuer, signed with one of
  its keys under an algorithm that fits it, whose claims name this issuer, subject, receiver,
  nonce and time, and which confirms the key of the sender's AID; an issuer whose keys
  cannot be resolved is reported apart from a defective proof.
\<close>

datatype resolve_error = NotTrusted | NetworkError | ResolveMalformed | NoPinnedKeys | SoftFailRequiresOutcome

type_synonym jwks_resolver = "string \<Rightarrow> (resolve_error, jwk_public_key list) result"

record oidc_verify_context =
  oc_expected_audience :: aid
  oc_expected_nonce :: string
  oc_trust_anchors :: "raw_url list"
  oc_jwks_resolver :: jwks_resolver
  oc_subject_aid :: aid
  oc_iat_tolerance :: duration
  oc_now :: timestamp

subsection \<open>Typed parts of the token\<close>

text \<open>
  Derived deserialization without \<open>deny_unknown_fields\<close>: a member outside the fields is
  skipped; everything else is as for the strict structs.
\<close>

fun de_map_open :: "field_spec list \<Rightarrow> string list \<Rightarrow> (string \<times> json) list \<Rightarrow> (serde_error, unit) result" where
  "de_map_open fs seen [] =
     (if list_all (\<lambda>(k, kind, _). kind = Required \<longrightarrow> k \<in> set seen) fs then Ok () else Err SerdeOther)"
| "de_map_open fs seen ((k, v) # ms) =
     (case map_of fs k of
        None \<Rightarrow> de_map_open fs seen ms
      | Some (_, de) \<Rightarrow>
          if k \<in> set seen then Err SerdeOther
          else and_then (de v) (\<lambda>_. de_map_open fs (k # seen) ms))"

definition de_struct_open :: "field_spec list \<Rightarrow> json \<Rightarrow> (serde_error, (string \<times> json) list) result" where
  "de_struct_open fs j =
     (case j of
        JObj ms \<Rightarrow> and_then (de_map_open fs [] ms) (\<lambda>_. Ok ms)
      | JArr xs \<Rightarrow> de_seq fs xs
      | _ \<Rightarrow> Err SerdeOther)"

record jwt_header =
  jh_alg :: string
  jh_kid :: "string option"

definition de_jwt_header :: "json \<Rightarrow> (serde_error, jwt_header) result" where
  "de_jwt_header j =
     and_then (de_struct_open [(''alg'', Required, de_void de_string), (''kid'', Defaulted, de_void_opt de_string)] j) (\<lambda>ms.
     and_then (de_field ms ''alg'' de_string) (\<lambda>alg.
     and_then (de_opt_field ms ''kid'' de_string) (\<lambda>kid.
     Ok \<lparr>jh_alg = alg, jh_kid = kid\<rparr>)))"

datatype aud = AudSingle string | AudMulti "string list"

fun aud_contains :: "aud \<Rightarrow> string \<Rightarrow> bool" where
  "aud_contains (AudSingle s) expected = (s = expected)"
| "aud_contains (AudMulti v) expected = list_ex (\<lambda>s. s = expected) v"

fun de_aud :: "json \<Rightarrow> (serde_error, aud) result" where
  "de_aud (JStr s) = Ok (AudSingle s)"
| "de_aud (JArr xs) = and_then (de_list de_string xs) (\<lambda>v. Ok (AudMulti v))"
| "de_aud _ = Err SerdeOther"

definition de_oidc_cnf :: "json \<Rightarrow> (serde_error, string) result" where
  "de_oidc_cnf j =
     and_then (de_struct_open [(''jkt'', Required, de_void de_string)] j) (\<lambda>ms. de_field ms ''jkt'' de_string)"

record oidc_claims =
  oi_iss :: string
  oi_sub :: string
  oi_aud :: aud
  oi_iat :: i64
  oi_exp :: i64
  oi_nonce :: "string option"
  oi_cnf :: "string option"

definition oidc_fields :: "field_spec list" where
  "oidc_fields =
     [(''iss'', Required, de_void de_string), (''sub'', Required, de_void de_string), (''aud'', Required, de_void de_aud),
      (''iat'', Required, de_void de_i64), (''exp'', Required, de_void de_i64),
      (''nonce'', Defaulted, de_void_opt de_string), (''cnf'', Defaulted, de_void_opt de_oidc_cnf)]"

definition de_oidc_claims :: "json \<Rightarrow> (serde_error, oidc_claims) result" where
  "de_oidc_claims j =
     and_then (de_struct_open oidc_fields j) (\<lambda>ms.
     and_then (de_field ms ''iss'' de_string) (\<lambda>iss.
     and_then (de_field ms ''sub'' de_string) (\<lambda>sub.
     and_then (de_field ms ''aud'' de_aud) (\<lambda>aud.
     and_then (de_field ms ''iat'' de_i64) (\<lambda>iat.
     and_then (de_field ms ''exp'' de_i64) (\<lambda>exp.
     and_then (de_opt_field ms ''nonce'' de_string) (\<lambda>nonce.
     and_then (de_opt_field ms ''cnf'' de_oidc_cnf) (\<lambda>cnf.
     Ok \<lparr>oi_iss = iss, oi_sub = sub, oi_aud = aud, oi_iat = iat, oi_exp = exp, oi_nonce = nonce, oi_cnf = cnf\<rparr>))))))))"

subsection \<open>Verification\<close>

text \<open>The key of the token: the one with its \<open>kid\<close>, or the only one when it names none.\<close>

definition select_jwk :: "jwt_header \<Rightarrow> jwk_public_key list \<Rightarrow> (handshake_error, jwk_public_key) result" where
  "select_jwk header candidates =
     (case find (\<lambda>k. jwk_kid k = jh_kid header) candidates of
        Some k \<Rightarrow> Ok k
      | None \<Rightarrow> if jh_kid header = None \<and> length candidates = 1 then Ok (candidates ! 0) else Err HsIdentity)"

definition jwt_segments :: "string \<Rightarrow> (handshake_error, string \<times> string \<times> string) result" where
  "jwt_segments token = (case split_on CHR ''.'' token of [h, p, s] \<Rightarrow> Ok (h, p, s) | _ \<Rightarrow> Err HsIdentity)"

definition oidc_claims_check :: "externals \<Rightarrow> identity_descriptor \<Rightarrow> raw_url \<Rightarrow> oidc_verify_context \<Rightarrow> oidc_claims \<Rightarrow> (handshake_error, unit) result" where
  "oidc_claims_check E d issuer ctx claims =
     and_then (ensure HsIdentity (oi_iss claims = url_as_str issuer)) (\<lambda>_.
     and_then (ensure HsIdentity (aud_contains (oi_aud claims) (aid_as_str (oc_expected_audience ctx)))) (\<lambda>_.
     and_then (ensure HsIdentity (oi_sub claims = id_subject d)) (\<lambda>_.
     and_then (ensure HsIdentity (\<not> sint (oi_exp claims) \<le> sint (oc_now ctx))) (\<lambda>_.
     and_then (ensure HsIdentity (is_within_tolerance_of (oi_iat claims) (oc_now ctx) (oc_iat_tolerance ctx))) (\<lambda>_.
     and_then (ok_or HsIdentity (oi_nonce claims)) (\<lambda>nonce.
     and_then (ensure HsIdentity (nonce = oc_expected_nonce ctx)) (\<lambda>_.
     and_then (ok_or HsIdentity (oi_cnf claims)) (\<lambda>claimed_jkt.
     and_then (map_err (\<lambda>_. HsIdentity) (vk_from_aid E (oc_subject_aid ctx))) (\<lambda>vk.
     and_then (map_err (\<lambda>_. HsIdentity) (to_jwk_thumbprint_sha256 E vk)) (\<lambda>expected_jkt.
     ensure HsIdentity (claimed_jkt = expected_jkt)))))))))))"

definition verify_oidc :: "externals \<Rightarrow> identity_descriptor \<Rightarrow> oidc_verify_context \<Rightarrow> (handshake_error, unit) result" where
  "verify_oidc E d ctx =
     and_then (ensure HsIdentity (id_public_key d = None)) (\<lambda>_.
     and_then (ok_or HsIdentity (id_issuer d)) (\<lambda>issuer.
     and_then (ensure IncompatibleTrustAnchors
                 (list_ex (\<lambda>a. url_as_str a = url_as_str issuer) (oc_trust_anchors ctx))) (\<lambda>_.
     and_then (jwt_segments (id_proof d)) (\<lambda>(header_b64, payload_b64, sig_b64).
     and_then (map_err (\<lambda>_. HsIdentity) (decode_strict E header_b64)) (\<lambda>header_bytes.
     and_then (map_err (\<lambda>_. HsIdentity) (and_then (json_document E header_bytes) de_jwt_header)) (\<lambda>header.
     and_then (ensure HsIdentity (url_parses E (url_as_str issuer))) (\<lambda>_.
     and_then (map_err (\<lambda>_. KeyResolutionFailed (url_as_str issuer)) (oc_jwks_resolver ctx (url_as_str issuer))) (\<lambda>candidates.
     and_then (ensure (KeyResolutionFailed (url_as_str issuer)) (candidates \<noteq> [])) (\<lambda>_.
     and_then (select_jwk header candidates) (\<lambda>key.
     and_then (map_err (\<lambda>_. HsIdentity) (decode_strict E sig_b64)) (\<lambda>sig_bytes.
     and_then (map_err (\<lambda>_. HsIdentity)
                 (verify_jws_signature E key (jh_alg header) (str_bytes (header_b64 @ ''.'' @ payload_b64)) sig_bytes)) (\<lambda>_.
     and_then (map_err (\<lambda>_. HsIdentity) (decode_strict E payload_b64)) (\<lambda>payload_bytes.
     and_then (map_err (\<lambda>_. HsIdentity) (and_then (json_document E payload_bytes) de_oidc_claims)) (\<lambda>claims.
     oidc_claims_check E d issuer ctx claims))))))))))))))"

subsection \<open>Lemmas\<close>

lemma jwt_segments_eq:
  "jwt_segments t = Ok (h, p, s) \<longleftrightarrow> split_on CHR ''.'' t = [h, p, s]"
  "jwt_segments t = Err e \<Longrightarrow> e = HsIdentity"
  by (auto simp: jwt_segments_def split: list.splits)

lemma select_jwk_member: "select_jwk h ks = Ok k \<Longrightarrow> k \<in> set ks \<and> (jh_kid h = jwk_kid k \<or> jh_kid h = None)"
  by (auto simp: select_jwk_def find_Some_iff split: option.splits if_splits)

lemma verify_jws_signature_alg:
  "verify_jws_signature E k alg m sig = Ok () \<Longrightarrow>
     \<exists>a. alg = jws_as_str a \<and> a \<in> material_algs (jwk_key k) \<and> (jwk_alg k = None \<or> jwk_alg k = Some a)"
  by (auto simp: verify_jws_signature_def jws_from_str_Ok fits_iff split: if_splits option.splits)

lemma oidc_claims_check_Ok:
  "oidc_claims_check E d issuer ctx c = Ok () \<longleftrightarrow>
     oi_iss c = url_as_str issuer \<and> aud_contains (oi_aud c) (aid_as_str (oc_expected_audience ctx)) \<and>
     oi_sub c = id_subject d \<and> sint (oc_now ctx) < sint (oi_exp c) \<and>
     is_within_tolerance_of (oi_iat c) (oc_now ctx) (oc_iat_tolerance ctx) \<and>
     oi_nonce c = Some (oc_expected_nonce ctx) \<and>
     (\<exists>vk jkt. vk_from_aid E (oc_subject_aid ctx) = Ok vk \<and> to_jwk_thumbprint_sha256 E vk = Ok jkt \<and> oi_cnf c = Some jkt)"
  by (auto simp: oidc_claims_check_def not_le)

text \<open>A token, split and decoded.\<close>

definition oidc_token :: "externals \<Rightarrow> string \<Rightarrow> jwt_header \<Rightarrow> oidc_claims \<Rightarrow> bytes \<Rightarrow> bytes \<Rightarrow> bool" where
  "oidc_token E token header claims signing_input sig \<longleftrightarrow>
     (\<exists>h p s hb pb hj pj. split_on CHR ''.'' token = [h, p, s] \<and> decode_strict E h = Ok hb \<and> decode_strict E p = Ok pb \<and>
        decode_strict E s = Ok sig \<and> json_document E hb = Ok hj \<and> json_document E pb = Ok pj \<and>
        de_jwt_header hj = Ok header \<and> de_oidc_claims pj = Ok claims \<and> signing_input = str_bytes (h @ ''.'' @ p))"

lemma verify_oidc_Ok:
  "verify_oidc E d ctx = Ok () \<longleftrightarrow>
     (\<exists>issuer header claims signing_input sig ks key.
        id_public_key d = None \<and> id_issuer d = Some issuer \<and> (\<exists>a\<in>set (oc_trust_anchors ctx). url_as_str a = url_as_str issuer) \<and>
        url_parses E (url_as_str issuer) \<and> oidc_token E (id_proof d) header claims signing_input sig \<and>
        oc_jwks_resolver ctx (url_as_str issuer) = Ok ks \<and> select_jwk header ks = Ok key \<and>
        verify_jws_signature E key (jh_alg header) signing_input sig = Ok () \<and>
        oidc_claims_check E d issuer ctx claims = Ok ())"
    (is "?l = ?r")
proof
  assume ?l
  then show ?r
    by (auto simp: verify_oidc_def oidc_token_def list_ex_iff jwt_segments_eq)
next
  assume ?r
  then obtain issuer header claims signing_input sig ks key where
    r: "id_public_key d = None" "id_issuer d = Some issuer" "(\<exists>a\<in>set (oc_trust_anchors ctx). url_as_str a = url_as_str issuer)"
      "url_parses E (url_as_str issuer)" "oidc_token E (id_proof d) header claims signing_input sig"
      "oc_jwks_resolver ctx (url_as_str issuer) = Ok ks" "select_jwk header ks = Ok key"
      "verify_jws_signature E key (jh_alg header) signing_input sig = Ok ()"
      "oidc_claims_check E d issuer ctx claims = Ok ()"
    by blast
  have "ks \<noteq> []" using select_jwk_member [OF r(7)] by auto
  moreover have "list_ex (\<lambda>a. url_as_str a = url_as_str issuer) (oc_trust_anchors ctx)" using r(3) by (auto simp: list_ex_iff)
  ultimately show ?l
    using r(1,2,4-9) by (auto simp: verify_oidc_def oidc_token_def jwt_segments_eq)
qed

subsection \<open>Properties\<close>


text \<open>
  C24: which failures are retryable. \<open>verify_oidc\<close> answers \<open>KEY_RESOLUTION_FAILED\<close> exactly when
  an otherwise parsable token of a trusted issuer meets a resolver that fails or knows no
  key; every defect of the proof itself is another error.
\<close>

theorem verify_oidc_key_resolution_failed:
  "verify_oidc E d ctx = Err (KeyResolutionFailed i) \<longleftrightarrow>
     (\<exists>issuer h p s hb header. id_public_key d = None \<and> id_issuer d = Some issuer \<and> i = url_as_str issuer \<and>
        (\<exists>a\<in>set (oc_trust_anchors ctx). url_as_str a = url_as_str issuer) \<and>
        split_on CHR ''.'' (id_proof d) = [h, p, s] \<and> decode_strict E h = Ok hb \<and>
        and_then (json_document E hb) de_jwt_header = Ok header \<and> url_parses E (url_as_str issuer) \<and>
        ((\<exists>e. oc_jwks_resolver ctx (url_as_str issuer) = Err e) \<or> oc_jwks_resolver ctx (url_as_str issuer) = Ok []))"
proof -
  have cl: "oidc_claims_check E d issuer ctx c \<noteq> Err (KeyResolutionFailed i)" for issuer c
    by (auto simp: oidc_claims_check_def and_then_eq_Inl map_err_eq_Inl ok_or_def split: option.splits)
  have sel: "select_jwk h ks \<noteq> Err (KeyResolutionFailed i)" for h ks
    by (auto simp: select_jwk_def split: option.splits if_splits)
  show ?thesis
    unfolding verify_oidc_def
    by (cases "id_issuer d")
      (auto simp: and_then_eq_Inl map_err_eq_Inl cl sel list_ex_iff jwt_segments_eq(1) dest: jwt_segments_eq(2))
qed

end
