(* ===== verification/Envelope.thy ===== *)
theory Envelope
  imports Manifest_Build
begin

text \<open>
  The message envelope (\<open>core/envelope.rs\<close>, \<open>envelope/mod.rs\<close>): the record, its JSON form,
  the strict wire parse with its check order, the structure rules, the domain-separated
  signing input, signing and signature verification.

  Shown here: an envelope that was signed parses back unchanged from its wire form and its
  signature verifies under the sender's key; the parser returns only envelopes that satisfy
  the schema's structure rules; and the signing input determines every member but the
  signature, so nothing else of an accepted envelope can be altered.
\<close>

datatype message_type =
    MutualHello | MutualHelloAck | MutualCommit | MutualCommitAck | TctDelivery
  | PopChallengeMsg | PopResponseMsg | ErrorMsg | IdentityPresentation

fun as_wire_str :: "message_type \<Rightarrow> string" where
  "as_wire_str MutualHello = ''mutual_hello''"
| "as_wire_str MutualHelloAck = ''mutual_hello_ack''"
| "as_wire_str MutualCommit = ''mutual_commit''"
| "as_wire_str MutualCommitAck = ''mutual_commit_ack''"
| "as_wire_str TctDelivery = ''tct''"
| "as_wire_str PopChallengeMsg = ''pop_challenge''"
| "as_wire_str PopResponseMsg = ''pop_response''"
| "as_wire_str ErrorMsg = ''error''"
| "as_wire_str IdentityPresentation = ''identity_presentation''"

definition message_type_of_name :: "string \<Rightarrow> (serde_error, message_type) result" where
  "message_type_of_name s =
     (case find (\<lambda>t. as_wire_str t = s)
        [MutualHello, MutualHelloAck, MutualCommit, MutualCommitAck, TctDelivery, PopChallengeMsg, PopResponseMsg,
         ErrorMsg, IdentityPresentation] of
        Some t \<Rightarrow> Ok t
      | None \<Rightarrow> Err SerdeOther)"

fun de_message_type :: "json \<Rightarrow> (serde_error, message_type) result" where
  "de_message_type (JStr s) = message_type_of_name s"
| "de_message_type (JObj [(s, JNull)]) = message_type_of_name s"
| "de_message_type _ = Err SerdeOther"

record sender =
  agent_id :: aid

record aitp_envelope =
  ev_version :: string
  ev_message_type :: message_type
  ev_message_id :: uuid
  ev_timestamp :: timestamp
  ev_sender :: sender
  ev_payload :: json
  ev_extensions :: "extensions_map option"
  ev_signature :: string

definition envelope_unsigned :: "aid \<Rightarrow> message_type \<Rightarrow> json \<Rightarrow> uuid \<Rightarrow> timestamp \<Rightarrow> aitp_envelope" where
  "envelope_unsigned sdr message_type payload message_id timestamp =
     \<lparr>ev_version = PROTOCOL_VERSION, ev_message_type = message_type, ev_message_id = message_id,
      ev_timestamp = timestamp, ev_sender = \<lparr>agent_id = sdr\<rparr>, ev_payload = payload, ev_extensions = None,
      ev_signature = []\<rparr>"

definition AITP_ENVELOPE_MEMBERS :: "string list" where
  "AITP_ENVELOPE_MEMBERS =
     [''version'', ''message_type'', ''message_id'', ''timestamp'', ''sender'', ''payload'', ''extensions'', ''signature'']"

datatype envelope_structure_error = PayloadNotObject | NegativeTimestamp timestamp | SignatureFormat

datatype envelope_parse_error =
    UnknownVersion
  | EnvelopeUnknownField string
  | EnvelopeMalformed
  | EnvelopeStructure envelope_structure_error

subsection \<open>JSON form\<close>

definition ser_sender :: "sender \<Rightarrow> json" where
  "ser_sender s = JObj [(''agent_id'', ser_aid (agent_id s))]"

definition env_members :: "externals \<Rightarrow> aitp_envelope \<Rightarrow> (string \<times> json) list" where
  "env_members E e =
     [(''version'', JStr (ev_version e)), (''message_type'', JStr (as_wire_str (ev_message_type e))),
      (''message_id'', ser_v4 E (ev_message_id e)), (''timestamp'', ser_time (ev_timestamp e)),
      (''sender'', ser_sender (ev_sender e)), (''payload'', ev_payload e)] @
     opt_member ''extensions'' (ev_extensions e) @ [(''signature'', JStr (ev_signature e))]"

definition ser_envelope :: "externals \<Rightarrow> aitp_envelope \<Rightarrow> json" where
  "ser_envelope E e = JObj (env_members E e)"

definition de_value :: "json \<Rightarrow> (serde_error, json) result" where
  "de_value j = Ok (to_value j)"

definition de_sender :: "externals \<Rightarrow> json \<Rightarrow> (serde_error, sender) result" where
  "de_sender E j =
     and_then (de_struct [(''agent_id'', Required, de_void (de_aid E))] j) (\<lambda>ms.
     and_then (de_field ms ''agent_id'' (de_aid E)) (\<lambda>a. Ok \<lparr>agent_id = a\<rparr>))"

definition env_fields :: "externals \<Rightarrow> field_spec list" where
  "env_fields E =
     [(''version'', Required, de_void de_string), (''message_type'', Required, de_void de_message_type),
      (''message_id'', Required, de_void (de_v4 E)), (''timestamp'', Required, de_void de_i64),
      (''sender'', Required, de_void (de_sender E)), (''payload'', Required, de_void de_value),
      (''extensions'', Defaulted, de_void_opt de_ext), (''signature'', Required, de_void de_string)]"

definition de_envelope :: "externals \<Rightarrow> json \<Rightarrow> (serde_error, aitp_envelope) result" where
  "de_envelope E j =
     and_then (de_struct (env_fields E) j) (\<lambda>ms.
     and_then (de_field ms ''version'' de_string) (\<lambda>version.
     and_then (de_field ms ''message_type'' de_message_type) (\<lambda>message_type.
     and_then (de_field ms ''message_id'' (de_v4 E)) (\<lambda>message_id.
     and_then (de_field ms ''timestamp'' de_i64) (\<lambda>timestamp.
     and_then (de_field ms ''sender'' (de_sender E)) (\<lambda>sdr.
     and_then (de_field ms ''payload'' de_value) (\<lambda>payload.
     and_then (de_opt_field ms ''extensions'' de_ext) (\<lambda>extensions.
     and_then (de_field ms ''signature'' de_string) (\<lambda>sig.
     Ok \<lparr>ev_version = version, ev_message_type = message_type, ev_message_id = message_id, ev_timestamp = timestamp,
         ev_sender = sdr, ev_payload = payload, ev_extensions = extensions, ev_signature = sig\<rparr>)))))))))"

subsection \<open>Structure and wire parse\<close>

definition check_unsigned_envelope_structure :: "aitp_envelope \<Rightarrow> (envelope_structure_error, unit) result" where
  "check_unsigned_envelope_structure e =
     (if \<not> is_JObj (ev_payload e) then Err PayloadNotObject
      else if sint (ev_timestamp e) < 0 then Err (NegativeTimestamp (ev_timestamp e))
      else Ok ())"

definition ENVELOPE_SIGNATURE_B64_LEN :: nat where "ENVELOPE_SIGNATURE_B64_LEN = 86"

definition check_envelope_structure :: "aitp_envelope \<Rightarrow> (envelope_structure_error, unit) result" where
  "check_envelope_structure e =
     and_then (check_unsigned_envelope_structure e) (\<lambda>_.
     let sig = ev_signature e;
         b64 = (case strip_prefix ''ed25519.'' sig of
                  Some r \<Rightarrow> r
                | None \<Rightarrow> (case strip_prefix ''p256.'' sig of Some r \<Rightarrow> r | None \<Rightarrow> sig)) in
     if length b64 \<noteq> ENVELOPE_SIGNATURE_B64_LEN \<or> \<not> list_all is_base64url_byte b64 then Err SignatureFormat else Ok ())"

definition parse_envelope_wire :: "externals \<Rightarrow> checked_json \<Rightarrow> (envelope_parse_error, aitp_envelope) result" where
  "parse_envelope_wire E checked =
     (let value = as_value checked in
      if \<not> is_JObj value then Err EnvelopeMalformed
      else if json_get ''version'' value \<noteq> Some (JStr PROTOCOL_VERSION) then Err UnknownVersion
      else
        and_then (map_err (\<lambda>e. EnvelopeUnknownField (uf_field e)) (check_members ''AitpEnvelope'' value AITP_ENVELOPE_MEMBERS)) (\<lambda>_.
        and_then (ensure EnvelopeMalformed (case json_get ''extensions'' value of Some ext \<Rightarrow> is_JObj ext | None \<Rightarrow> True)) (\<lambda>_.
        and_then (map_err (\<lambda>e. case from_serde_error e of Some field \<Rightarrow> EnvelopeUnknownField field | None \<Rightarrow> EnvelopeMalformed)
                    (de_envelope E value)) (\<lambda>envelope.
        and_then (map_err EnvelopeStructure (check_envelope_structure envelope)) (\<lambda>_.
        Ok envelope)))))"

subsection \<open>Signing input, signing, verifying\<close>

definition ENVELOPE_SIGNING_DOMAIN_TAG :: bytes where
  "ENVELOPE_SIGNING_DOMAIN_TAG = str_bytes ''aitp-envelope-v2''"

definition envelope_without_signature :: "externals \<Rightarrow> aitp_envelope \<Rightarrow> json" where
  "envelope_without_signature E e = JObj (filter (\<lambda>kv. fst kv \<noteq> ''signature'') (env_members E e))"

definition envelope_signing_input :: "externals \<Rightarrow> aitp_envelope \<Rightarrow> bytes option" where
  "envelope_signing_input E e =
     map_option (\<lambda>canonical. ENVELOPE_SIGNING_DOMAIN_TAG @ [0] @ canonical) (canonicalize E (envelope_without_signature E e))"

definition envelope_signing_digest :: "externals \<Rightarrow> aitp_envelope \<Rightarrow> bytes option" where
  "envelope_signing_digest E e = map_option (sha256 E) (envelope_signing_input E e)"

datatype envelope_error =
    UnsupportedVersion string
  | EnvelopeMessageId v4_error
  | EnvelopeErrorStructure envelope_structure_error
  | SenderMismatch aid aid
  | EnvelopeCanonicalization
  | EnvelopeSigner signer_error

definition envelope_digest :: "externals \<Rightarrow> aid \<Rightarrow> aitp_envelope \<Rightarrow> (envelope_error, bytes) result" where
  "envelope_digest E signer envelope =
     (if ev_version envelope \<noteq> PROTOCOL_VERSION then Err (UnsupportedVersion (ev_version envelope))
      else
        and_then (map_err EnvelopeMessageId (check_v4 E (ev_message_id envelope))) (\<lambda>_.
        and_then (map_err EnvelopeErrorStructure (check_unsigned_envelope_structure envelope)) (\<lambda>_.
        if agent_id (ev_sender envelope) \<noteq> signer then Err (SenderMismatch (agent_id (ev_sender envelope)) signer)
        else ok_or EnvelopeCanonicalization (envelope_signing_digest E envelope))))"

definition sign_prepared_envelope :: "externals \<Rightarrow> signer \<Rightarrow> aitp_envelope \<Rightarrow> (envelope_error, aitp_envelope) result" where
  "sign_prepared_envelope E signing_key envelope =
     and_then (envelope_digest E (sg_aid signing_key) envelope) (\<lambda>digest.
     and_then (map_err EnvelopeSigner (signer_sign_jcs E signing_key digest)) (\<lambda>sig.
     Ok (envelope\<lparr>ev_signature := sig_as_str sig\<rparr>)))"

definition sign_envelope_with ::
  "externals \<Rightarrow> signer \<Rightarrow> message_type \<Rightarrow> json \<Rightarrow> uuid \<Rightarrow> timestamp \<Rightarrow> (envelope_error, aitp_envelope) result" where
  "sign_envelope_with E signing_key message_type payload message_id timestamp =
     sign_prepared_envelope E signing_key
       (envelope_unsigned (sg_aid signing_key) message_type payload message_id timestamp)"

definition verify_envelope_signature :: "externals \<Rightarrow> aitp_envelope \<Rightarrow> verifying_key \<Rightarrow> (crypto_error, unit) result" where
  "verify_envelope_signature E envelope sender_pubkey =
     and_then (ok_or SignatureMalformed (envelope_signing_digest E envelope)) (\<lambda>digest.
     and_then (signature_parse (ev_signature envelope)) (\<lambda>sig.
     verify_jcs E sender_pubkey digest sig))"

subsection \<open>Lemmas\<close>

lemma message_type_of_wire_str [simp]: "message_type_of_name (as_wire_str t) = Ok t"
  by (cases t) (simp_all add: message_type_of_name_def)

lemma as_wire_str_inject [simp]: "as_wire_str a = as_wire_str b \<longleftrightarrow> a = b"
  by (metis message_type_of_wire_str sum.inject(2))

lemma check_unsigned_structure_Ok:
  "check_unsigned_envelope_structure e = Ok () \<longleftrightarrow> is_JObj (ev_payload e) \<and> 0 \<le> sint (ev_timestamp e)"
  by (auto simp: check_unsigned_envelope_structure_def)

lemma check_envelope_structure_Ok:
  "check_envelope_structure e = Ok () \<longleftrightarrow>
     is_JObj (ev_payload e) \<and> 0 \<le> sint (ev_timestamp e) \<and> is_signature (ev_signature e)"
  by (auto simp: check_envelope_structure_def check_unsigned_structure_Ok is_signature_def Let_def
      is_base64url_byte_eq ENVELOPE_SIGNATURE_B64_LEN_def)

definition wf_envelope :: "externals \<Rightarrow> aitp_envelope \<Rightarrow> bool" where
  "wf_envelope E e \<longleftrightarrow>
     length (ev_message_id e) = 16 \<and> wf_aid E (agent_id (ev_sender e)) \<and> unique_keys (ev_payload e) \<and>
     opt_all wf_ext (ev_extensions e)"

lemma de_ser_sender: "wf_aid E (agent_id s) \<Longrightarrow> de_sender E (ser_sender s) = Ok s"
  by (cases s) (simp add: de_sender_def ser_sender_def de_struct_def de_field_def de_void_def de_aid_ser)

lemma de_ser_envelope:
  assumes "uuid_laws E" "wf_envelope E e" "is_v4 E (ev_message_id e)"
  shows "de_envelope E (ser_envelope E e) = Ok e"
proof -
  have v4: "de_v4 E (ser_v4 E (ev_message_id e)) = Ok (ev_message_id e)"
    using assms by (intro serde_v4_roundtrip) (simp_all add: wf_envelope_def)
  have sd: "de_sender E (ser_sender (ev_sender e)) = Ok (ev_sender e)"
    using assms(2) by (intro de_ser_sender) (simp add: wf_envelope_def)
  have pl: "de_value (ev_payload e) = Ok (ev_payload e)"
    using assms(2) by (simp add: de_value_def wf_envelope_def to_value_unique)
  have ext: "de_ext (JObj m) = Ok m" if "ev_extensions e = Some m" for m
    using that assms(2) by (simp add: wf_envelope_def de_ext_wf del: de_ext.simps)
  show ?thesis
    using v4 sd pl ext
    by (cases e; cases "ev_extensions e")
      (simp_all add: de_envelope_def ser_envelope_def env_members_def env_fields_def de_struct_def de_field_def
        de_opt_field_def de_void_def de_void_opt_def opt_member_def del: de_ext.simps)
qed

lemma ser_envelope_get:
  "json_get ''version'' (ser_envelope E e) = Some (JStr (ev_version e))"
  "json_get ''extensions'' (ser_envelope E e) = map_option JObj (ev_extensions e)"
  by (auto simp: ser_envelope_def env_members_def map_add_def split: option.split)

lemma ser_envelope_members: "check_members ''AitpEnvelope'' (ser_envelope E e) AITP_ENVELOPE_MEMBERS = Ok ()"
  by (auto simp: ser_envelope_def check_members_object env_members_def AITP_ENVELOPE_MEMBERS_def set_opt_members)

lemma parse_ser_envelope:
  assumes "uuid_laws E" "wf_envelope E e" "is_v4 E (ev_message_id e)"
    and "ev_version e = PROTOCOL_VERSION" "check_envelope_structure e = Ok ()"
  shows "parse_envelope_wire E (CheckedJson (ser_envelope E e)) = Ok e"
  using ser_envelope_get [of E e] ser_envelope_members [of E e] de_ser_envelope [OF assms(1-3)] assms(4,5)
  by (simp add: parse_envelope_wire_def) (auto simp: ser_envelope_def split: option.splits)

lemma signing_digest_signature [simp]:
  "envelope_signing_digest E (e\<lparr>ev_signature := s\<rparr>) = envelope_signing_digest E e"
  by (simp add: envelope_signing_digest_def envelope_signing_input_def envelope_without_signature_def env_members_def)

lemma sign_prepared_envelope_Ok:
  assumes "b64_laws E" "sig_laws E" "sha_laws E" "\<forall>k. sg_signing_key sg = Some k \<longrightarrow> sk_wf E k"
    and "sign_prepared_envelope E sg e = Ok e'"
  obtains sig vk where "e' = e\<lparr>ev_signature := sig_as_str sig\<rparr>" "ev_version e = PROTOCOL_VERSION"
    and "is_v4 E (ev_message_id e)" "agent_id (ev_sender e) = sg_aid sg" "is_signature (sig_as_str sig)"
    and "is_JObj (ev_payload e)" "0 \<le> sint (ev_timestamp e)"
    and "vk_from_aid E (sg_aid sg) = Ok vk" "verify_envelope_signature E e' vk = Ok ()"
proof -
  obtain canonical sig where c: "canonicalize E (envelope_without_signature E e) = Some canonical"
    and sig: "signer_sign_jcs E sg (sha256 E (ENVELOPE_SIGNING_DOMAIN_TAG @ [0] @ canonical)) = Ok sig"
    and e': "e' = e\<lparr>ev_signature := sig_as_str sig\<rparr>" and v: "ev_version e = PROTOCOL_VERSION"
    and id: "is_v4 E (ev_message_id e)" and sd: "agent_id (ev_sender e) = sg_aid sg"
    and st: "is_JObj (ev_payload e)" "0 \<le> sint (ev_timestamp e)"
    using assms(5)
    by (auto simp: sign_prepared_envelope_def envelope_digest_def check_unsigned_structure_Ok
        envelope_signing_digest_def envelope_signing_input_def split: if_splits)
  obtain vk where vk: "vk_from_aid E (sg_aid sg) = Ok vk"
      "verify_jcs E vk (sha256 E (ENVELOPE_SIGNING_DOMAIN_TAG @ [0] @ canonical)) sig = Ok ()"
      "signature_parse (sig_as_str sig) = Ok sig" "is_signature (sig_as_str sig)"
    using signer_sign_jcs_grammar [OF assms(1-4) sig] by blast
  have "envelope_signing_digest E e = Some (sha256 E (ENVELOPE_SIGNING_DOMAIN_TAG @ [0] @ canonical))"
    using c by (simp add: envelope_signing_digest_def envelope_signing_input_def)
  then have "verify_envelope_signature E e' vk = Ok ()"
    using vk(2,3) by (simp add: verify_envelope_signature_def e')
  then show thesis using that e' v id sd st vk(1,4) by blast
qed

subsection \<open>What the signing input determines\<close>

text \<open>
  RFC 8785 is injective on documents whose numbers are integers every double represents:
  two such documents with one canonical text have one canonical form.
\<close>

fun json_safe :: "json \<Rightarrow> bool" where
  "json_safe (JInt n) = (\<bar>n\<bar> < 2 ^ 53)"
| "json_safe (JFloat _) = False"
| "json_safe (JArr xs) = list_all json_safe xs"
| "json_safe (JObj ms) = list_all (\<lambda>kv. json_safe (snd kv)) ms"
| "json_safe _ = True"

definition jcs_faithful :: "externals \<Rightarrow> bool" where
  "jcs_faithful E \<longleftrightarrow>
     (\<forall>a b bs. json_safe a \<and> unique_keys a \<and> json_safe b \<and> unique_keys b \<and>
        jcs_to_vec E a = Some bs \<and> jcs_to_vec E b = Some bs \<longrightarrow> jcs_sort a = jcs_sort b)"

lemma map_of_map_snd: "map_of (map (\<lambda>kv. (fst kv, f (snd kv))) ms) k = map_option f (map_of ms k)"
  by (induction ms) auto

lemma jcs_sort_eq_members:
  assumes "distinct (map fst ms)" "distinct (map fst ns)" "jcs_sort (JObj ms) = jcs_sort (JObj ns)"
  shows "map_option jcs_sort (map_of ms k) = map_option jcs_sort (map_of ns k)"
proof -
  let ?f = "\<lambda>kv. (fst kv, jcs_sort (snd kv))"
  have d: "distinct (map fst (map ?f ms))" "distinct (map fst (map ?f ns))"
    using assms(1,2) by (simp_all add: comp_def)
  have "map_of (map ?f ms) k = map_of (sort_key fst (map ?f ms)) k" using map_of_sort_key [OF d(1)] by simp
  also have "\<dots> = map_of (sort_key fst (map ?f ns)) k" using assms(3) by simp
  also have "\<dots> = map_of (map ?f ns) k" using map_of_sort_key [OF d(2)] by simp
  finally show ?thesis by (simp add: map_of_map_snd)
qed

definition env_body :: "externals \<Rightarrow> aitp_envelope \<Rightarrow> (string \<times> json) list" where
  "env_body E e = filter (\<lambda>kv. fst kv \<noteq> ''signature'') (env_members E e)"

lemma env_body_distinct: "distinct (map fst (env_body E e))"
  by (auto simp: env_body_def env_members_def opt_member_def split: option.split)

lemma env_body_get:
  "map_of (env_body E e) ''version'' = Some (JStr (ev_version e))"
  "map_of (env_body E e) ''message_type'' = Some (JStr (as_wire_str (ev_message_type e)))"
  "map_of (env_body E e) ''message_id'' = Some (ser_v4 E (ev_message_id e))"
  "map_of (env_body E e) ''timestamp'' = Some (ser_time (ev_timestamp e))"
  "map_of (env_body E e) ''sender'' = Some (ser_sender (ev_sender e))"
  "map_of (env_body E e) ''payload'' = Some (ev_payload e)"
  "map_of (env_body E e) ''extensions'' = map_option JObj (ev_extensions e)"
  by (auto simp: env_body_def env_members_def opt_member_def split: option.split)

lemma ser_leaf_inject:
  "ser_time t = ser_time u \<longleftrightarrow> t = u" "ser_aid a = ser_aid b \<longleftrightarrow> a = b"
  "ser_sender s = ser_sender r \<longleftrightarrow> s = r"
proof -
  show aid: "ser_aid a = ser_aid b \<longleftrightarrow> a = b" for a b by (cases a; cases b) (simp add: ser_aid_def)
  show "ser_time t = ser_time u \<longleftrightarrow> t = u" by (auto simp: ser_time_def intro: i64_sint_eqI)
  show "ser_sender s = ser_sender r \<longleftrightarrow> s = r" by (cases s; cases r) (simp add: ser_sender_def aid)
qed

lemma jcs_sort_sender [simp]: "jcs_sort (ser_sender s) = ser_sender s"
  by (simp add: ser_sender_def)

lemma unique_keys_env_body:
  "wf_envelope E e \<Longrightarrow> unique_keys (JObj (env_body E e))"
  using env_body_distinct [of E e]
  by (auto simp: wf_envelope_def wf_ext_def env_body_def env_members_def opt_member_def ser_sender_def split: option.splits)

lemma ser_v4_inject:
  assumes "uuid_laws E" "length i = 16" "length j = 16" "ser_v4 E i = ser_v4 E j"
  shows "i = j"
proof -
  have "uuid_parse_str E (uuid_hyphenated E i) = Some i" "uuid_parse_str E (uuid_hyphenated E j) = Some j"
    using assms(1-3) by (auto simp: uuid_laws_def)
  moreover have "uuid_hyphenated E i = uuid_hyphenated E j" using assms(4) unfolding ser_v4_def by (rule json.inject(4) [THEN iffD1])
  ultimately show ?thesis by (metis option.inject)
qed

subsection \<open>Properties\<close>

text \<open>
  C25: the envelope signature covers the whole envelope. Two well-formed envelopes with one
  signing input agree in version, message type, message id, timestamp and sender, and in the
  canonical form of payload and extensions (absent and empty extensions are told apart);
  only the signature member is free.
\<close>

theorem envelope_signing_input_binds:
  assumes "jcs_faithful E" "uuid_laws E" "wf_envelope E a" "wf_envelope E b"
    and "json_safe (envelope_without_signature E a)" "json_safe (envelope_without_signature E b)"
    and "envelope_signing_input E a = Some input" "envelope_signing_input E b = Some input"
  shows "ev_version a = ev_version b \<and> ev_message_type a = ev_message_type b \<and> ev_message_id a = ev_message_id b \<and>
    ev_timestamp a = ev_timestamp b \<and> ev_sender a = ev_sender b \<and> jcs_sort (ev_payload a) = jcs_sort (ev_payload b) \<and>
    map_option canon_ext (ev_extensions a) = map_option canon_ext (ev_extensions b)"
proof -
  have docs: "envelope_without_signature E e = JObj (env_body E e)" for e
    by (simp add: envelope_without_signature_def env_body_def)
  obtain bs where "jcs_to_vec E (JObj (env_body E a)) = Some bs" "jcs_to_vec E (JObj (env_body E b)) = Some bs"
    using assms(7,8) by (auto simp: envelope_signing_input_def canonicalize_def docs)
  then have eq: "jcs_sort (JObj (env_body E a)) = jcs_sort (JObj (env_body E b))"
    using assms(1,5,6) unique_keys_env_body assms(3,4) unfolding jcs_faithful_def docs by blast
  note get = jcs_sort_eq_members [OF env_body_distinct env_body_distinct eq, unfolded fun_eq_iff]
  have "ser_v4 E (ev_message_id a) = ser_v4 E (ev_message_id b)"
    using get [of "''message_id''"] by (simp add: env_body_get)
  then have "ev_message_id a = ev_message_id b"
    using ser_v4_inject [OF assms(2)] assms(3,4) by (simp add: wf_envelope_def)
  moreover have "map_option canon_ext (ev_extensions a) = map_option canon_ext (ev_extensions b)"
    using get [of "''extensions''"] assms(3,4)
    by (cases "ev_extensions a"; cases "ev_extensions b") (simp_all add: env_body_get wf_envelope_def jcs_sort_ext del: jcs_sort.simps)
  ultimately show ?thesis
    using get [of "''version''"] get [of "''message_type''"] get [of "''timestamp''"] get [of "''sender''"]
      get [of "''payload''"]
    by (simp add: env_body_get ser_leaf_inject)
qed

text \<open>
  C26: an envelope that was signed, with any signing backend, is one every peer accepts: its
  wire form parses back to the same envelope through the strict parser, and the signature
  verifies under the key of its sender.
\<close>

theorem signed_envelope_accepted:
  assumes "b64_laws E" "sig_laws E" "sha_laws E" "uuid_laws E" "\<forall>k. sg_signing_key sg = Some k \<longrightarrow> sk_wf E k"
    and "wf_envelope E e" "sign_prepared_envelope E sg e = Ok e'"
  shows "\<exists>vk. vk_from_aid E (agent_id (ev_sender e')) = Ok vk \<and>
    parse_envelope_wire E (CheckedJson (ser_envelope E e')) = Ok e' \<and> verify_envelope_signature E e' vk = Ok ()"
proof -
  obtain sig vk where e': "e' = e\<lparr>ev_signature := sig_as_str sig\<rparr>" and v: "ev_version e = PROTOCOL_VERSION"
    and id: "is_v4 E (ev_message_id e)" and sd: "agent_id (ev_sender e) = sg_aid sg" and sg: "is_signature (sig_as_str sig)"
    and st: "is_JObj (ev_payload e)" "0 \<le> sint (ev_timestamp e)"
    and vk: "vk_from_aid E (sg_aid sg) = Ok vk" "verify_envelope_signature E e' vk = Ok ()"
    using sign_prepared_envelope_Ok [OF assms(1-3,5,7)] by blast
  have "parse_envelope_wire E (CheckedJson (ser_envelope E e')) = Ok e'"
    using assms(6) id v st sg
    by (intro parse_ser_envelope [OF assms(4)]) (simp_all add: e' wf_envelope_def check_envelope_structure_Ok)
  with vk sd show ?thesis by (simp add: e')
qed

end
