(* ===== verification/Handshake.thy ===== *)
theory Handshake
  imports Handshake_Oidc Envelope
begin

text \<open>
  The mutual handshake (\<open>handshake/state_machine.rs\<close>, \<open>handshake/payloads.rs\<close>,
  \<open>handshake/identity_verifier.rs\<close>): the configuration of a peer, the identity it presents, the
  bootstrap verification of the other peer, grant policy, issuing and checking tokens, and
  the two state machines.

  A handler takes the state and returns its result with the next state. What the code draws
  at random (nonces, session and token identifiers) and the clock reading are arguments.
\<close>

subsection \<open>Payloads\<close>

record mutual_hello_payload =
  mh_identity :: identity_descriptor
  mh_manifest :: manifest
  mh_requested_grants :: "string list"
  mh_pop_nonce :: string
  mh_extensions :: "extensions_map option"

record mutual_hello_ack_payload =
  mha_identity :: identity_descriptor
  mha_manifest :: manifest
  mha_requested_grants :: "string list"
  mha_pop_nonce :: string
  mha_pop_nonce_echo :: string
  mha_extensions :: "extensions_map option"

record mutual_commit_payload =
  mc_tct :: string
  mc_grant_voucher :: "string option"
  mc_pop_signature :: string
  mc_pop_nonce_echo :: string
  mc_extensions :: "extensions_map option"

record mutual_commit_ack_payload =
  mca_tct :: string
  mca_grant_voucher :: "string option"
  mca_pop_signature :: string
  mca_pop_nonce_echo :: string
  mca_extensions :: "extensions_map option"

subsection \<open>Configuration\<close>

record identity_verify_context =
  iv_peer_manifest :: manifest
  iv_sender_aid :: aid
  iv_receiver_aid :: aid
  iv_message_id :: uuid
  iv_timestamp :: timestamp
  iv_pop_nonce :: string
  iv_now :: timestamp

record verified_identity =
  vi_kind :: identity_kind
  vi_subject :: string

record identity_verifier =
  handles :: "identity_kind \<Rightarrow> bool"
  iv_verify :: "identity_descriptor \<Rightarrow> identity_verify_context \<Rightarrow> (identity_verify_error, verified_identity) result"

record grant_policy_context =
  gp_peer_identity :: identity_descriptor
  gp_peer_aid :: aid
  gp_candidate_grants :: "string list"
  gp_now :: timestamp

type_synonym grant_policy = "grant_policy_context \<Rightarrow> (unit, string list) result"

record peer_config =
  pc_signing_key :: signer
  pc_manifest :: manifest
  pc_trust_anchors :: "raw_url list"
  pc_jwks_resolver :: jwks_resolver
  pc_pinned_key_store :: pinned_key_store
  pc_grant_policy :: "grant_policy option"
  pc_revocation :: revocation_source
  pc_identity_verifier :: "identity_verifier option"
  pc_now :: timestamp
  pc_insecure_localhost :: bool

definition peer_config_new ::
  "signer \<Rightarrow> manifest \<Rightarrow> jwks_resolver \<Rightarrow> pinned_key_store \<Rightarrow> revocation_source \<Rightarrow> timestamp \<Rightarrow> peer_config" where
  "peer_config_new signing_key m resolver store revocation now =
     \<lparr>pc_signing_key = signing_key, pc_manifest = m, pc_trust_anchors = [], pc_jwks_resolver = resolver,
      pc_pinned_key_store = store, pc_grant_policy = None, pc_revocation = revocation, pc_identity_verifier = None,
      pc_now = now, pc_insecure_localhost = False\<rparr>"

definition with_trust_anchors :: "raw_url list \<Rightarrow> peer_config \<Rightarrow> peer_config" where
  "with_trust_anchors trust_anchors cfg = cfg\<lparr>pc_trust_anchors := trust_anchors\<rparr>"

definition with_identity_verifier :: "identity_verifier \<Rightarrow> peer_config \<Rightarrow> peer_config" where
  "with_identity_verifier verifier cfg = cfg\<lparr>pc_identity_verifier := Some verifier\<rparr>"

definition with_grant_policy :: "grant_policy \<Rightarrow> peer_config \<Rightarrow> peer_config" where
  "with_grant_policy policy cfg = cfg\<lparr>pc_grant_policy := Some policy\<rparr>"

definition peer_with_insecure_localhost_dangerous :: "peer_config \<Rightarrow> peer_config" where
  "peer_with_insecure_localhost_dangerous cfg = cfg\<lparr>pc_insecure_localhost := True\<rparr>"

subsection \<open>Presented identities\<close>

text \<open>An issuer is the text of its \<open>url::Url\<close>.\<close>

datatype presented_identity =
    PresentPinnedKey string
  | PresentOidc string string string
  | PresentOidcMinter string string "string \<Rightarrow> (unit, string) result"

definition jwt_nonce_claim :: "externals \<Rightarrow> string \<Rightarrow> (handshake_error, string option) result" where
  "jwt_nonce_claim E jwt =
     and_then (jwt_segments jwt) (\<lambda>(_, payload, _).
     and_then (map_err (\<lambda>_. HsIdentity) (decode_strict E payload)) (\<lambda>decoded.
     and_then (map_err (\<lambda>_. HsIdentity) (value_from_slice E decoded)) (\<lambda>claims.
     Ok (Option.bind (json_get ''nonce'' claims) json_as_str))))"

definition oidc_checked :: "externals \<Rightarrow> string \<Rightarrow> string \<Rightarrow> string \<Rightarrow> string \<Rightarrow> (handshake_error, presented_identity) result" where
  "oidc_checked E proof_jwt pop_nonce issuer subject =
     and_then (jwt_nonce_claim E proof_jwt) (\<lambda>claim.
     if claim = Some pop_nonce then Ok (PresentOidc issuer subject proof_jwt) else Err HsIdentity)"

record identity_presentation_context =
  ip_sender_aid :: aid
  ip_receiver_aid :: aid
  ip_envelope_message_id :: uuid
  ip_envelope_timestamp :: timestamp
  ip_pop_nonce :: string

definition build_descriptor ::
  "externals \<Rightarrow> presented_identity \<Rightarrow> identity_presentation_context \<Rightarrow> signer \<Rightarrow> (handshake_error, identity_descriptor) result" where
  "build_descriptor E identity ctx signing_key =
     (case identity of
        PresentPinnedKey subject \<Rightarrow>
          and_then (map_err HsCrypto (vk_from_aid E (sg_aid signing_key))) (\<lambda>key.
          and_then (sign_pinned_key_proof E signing_key (ip_sender_aid ctx) (ip_receiver_aid ctx)
                      (ip_envelope_message_id ctx) (ip_envelope_timestamp ctx) (ip_pop_nonce ctx)) (\<lambda>proof.
          Ok (descriptor_pinned_key subject (encode E (to_compressed E key)) proof)))
      | PresentOidc issuer subject proof_jwt \<Rightarrow> Ok (descriptor_oidc (RawUrl issuer) subject proof_jwt)
      | PresentOidcMinter issuer subject mint_jwt \<Rightarrow>
          and_then (map_err (\<lambda>_. HsIdentity) (mint_jwt (ip_pop_nonce ctx))) (\<lambda>proof.
          Ok (descriptor_oidc (RawUrl issuer) subject proof)))"

definition fresh_nonce :: "externals \<Rightarrow> bytes option \<Rightarrow> (handshake_error, string) result" where
  "fresh_nonce E rng = and_then (ok_or HsRng rng) (\<lambda>buf. Ok (encode E buf))"

subsection \<open>Bootstrap\<close>

definition bootstrap_verify_peer ::
  "externals \<Rightarrow> aitp_envelope \<Rightarrow> manifest \<Rightarrow> identity_descriptor \<Rightarrow> string \<Rightarrow> peer_config \<Rightarrow> (handshake_error, verifying_key) result" where
  "bootstrap_verify_peer E envelope m identity pop_nonce cfg =
     and_then (ensure InvalidEnvelope (m_aid m = agent_id (ev_sender envelope))) (\<lambda>_.
     and_then (map_err HsManifest (verify_manifest E m
                 \<lparr>mc_now = pc_now cfg, mc_insecure_localhost = pc_insecure_localhost cfg\<rparr>)) (\<lambda>_.
     and_then (ensure HsIdentity (id_subject identity = ih_subject (m_identity_hint m))) (\<lambda>_.
     and_then (ensure HsIdentity (id_kind identity = ih_kind (m_identity_hint m))) (\<lambda>_.
     and_then (ensure HsIdentity (\<not> (id_kind identity \<noteq> Spiffe \<and> (id_svid_type identity \<noteq> None \<or> id_x5c identity \<noteq> None)))) (\<lambda>_.
     case id_kind identity of
       Oidc \<Rightarrow>
         and_then (ok_or HsIdentity (id_issuer identity)) (\<lambda>issuer.
         and_then (ensure HsIdentity (Some issuer = ih_issuer (m_identity_hint m))) (\<lambda>_.
         and_then (verify_oidc E identity
            \<lparr>oc_expected_audience = m_aid (pc_manifest cfg), oc_expected_nonce = pop_nonce,
             oc_trust_anchors = pc_trust_anchors cfg, oc_jwks_resolver = pc_jwks_resolver cfg,
             oc_subject_aid = m_aid m, oc_iat_tolerance = DEFAULT_TIMESTAMP_TOLERANCE, oc_now = pc_now cfg\<rparr>) (\<lambda>_.
         map_err HsCrypto (vk_from_aid E (m_aid m)))))
     | PinnedKey \<Rightarrow>
         and_then (verify_pinned_key E identity
            \<lparr>pk_sender_aid = m_aid m, pk_receiver_aid = m_aid (pc_manifest cfg), pk_message_id = ev_message_id envelope,
             pk_timestamp = ev_timestamp envelope, pk_pop_nonce = pop_nonce, pk_subject = Unchecked\<rparr>
            (pc_pinned_key_store cfg)) (\<lambda>verified.
         Ok (vp_key verified))
     | Spiffe \<Rightarrow>
         and_then (case pc_identity_verifier cfg of
                     Some v \<Rightarrow> if handles v Spiffe then Ok v else Err (HsManifest (IncompatibleIdentityType Spiffe))
                   | None \<Rightarrow> Err (HsManifest (IncompatibleIdentityType Spiffe))) (\<lambda>verifier.
         and_then (map_err HsIdentityVerifier (iv_verify verifier identity
            \<lparr>iv_peer_manifest = m, iv_sender_aid = m_aid m, iv_receiver_aid = m_aid (pc_manifest cfg),
             iv_message_id = ev_message_id envelope, iv_timestamp = ev_timestamp envelope, iv_pop_nonce = pop_nonce,
             iv_now = pc_now cfg\<rparr>)) (\<lambda>verified.
         and_then (ensure HsIdentity (vi_kind verified = Spiffe \<and> vi_subject verified = id_subject identity)) (\<lambda>_.
         map_err HsCrypto (vk_from_aid E (m_aid m))))))))))"

definition apply_peer_policy :: "identity_descriptor \<Rightarrow> peer_config \<Rightarrow> (handshake_error, unit) result" where
  "apply_peer_policy identity cfg =
     map_err HsManifest (check_identity_type_compatibility (pc_manifest cfg) (id_kind identity))"

definition sign_pop :: "externals \<Rightarrow> signer \<Rightarrow> string \<Rightarrow> (handshake_error, string) result" where
  "sign_pop E my_key peer_nonce =
     and_then (map_err (\<lambda>_. InvalidEnvelope) (decode_strict E peer_nonce)) (\<lambda>nonce_bytes.
     and_then (map_err (\<lambda>e. HsCrypto (SignerFailed e)) (signer_sign_jcs E my_key (sha256 E nonce_bytes))) (\<lambda>sig.
     Ok (sig_as_str sig)))"

definition verify_pop :: "externals \<Rightarrow> verifying_key \<Rightarrow> string \<Rightarrow> string \<Rightarrow> (handshake_error, unit) result" where
  "verify_pop E peer_pubkey my_nonce pop_signature =
     and_then (map_err (\<lambda>_. PopVerificationFailed) (decode_strict E my_nonce)) (\<lambda>nonce_bytes.
     and_then (map_err (\<lambda>_. PopVerificationFailed) (signature_parse pop_signature)) (\<lambda>sig.
     map_err (\<lambda>_. PopVerificationFailed) (verify_jcs E peer_pubkey (sha256 E nonce_bytes) sig)))"

subsection \<open>Issuing and checking tokens\<close>

definition policy_grants :: "peer_config \<Rightarrow> identity_descriptor \<Rightarrow> aid \<Rightarrow> string list \<Rightarrow> (handshake_error, string list) result" where
  "policy_grants cfg peer_identity peer_aid peer_requested =
     (let grants = filter (\<lambda>g. g \<in> set (m_offered_capabilities (pc_manifest cfg))) peer_requested in
      case pc_grant_policy cfg of
        None \<Rightarrow> Ok grants
      | Some policy \<Rightarrow>
          and_then (map_err (\<lambda>_. GrantPolicyFailed)
            (policy \<lparr>gp_peer_identity = peer_identity, gp_peer_aid = peer_aid, gp_candidate_grants = grants,
                     gp_now = pc_now cfg\<rparr>)) (\<lambda>permitted.
          Ok (filter (\<lambda>g. g \<in> set permitted) grants)))"

definition issue_ttl :: "peer_config \<Rightarrow> (handshake_error, u64) result" where
  "issue_ttl cfg =
     (let default_expires = saturating_add (pc_now cfg) DEFAULT_TCT_TTL;
          effective_expires = i64_min default_expires (m_expires_at (pc_manifest cfg));
          ttl = i64_saturating_sub effective_expires (pc_now cfg) in
      case u64_try_from_i64 ttl of
        Some t \<Rightarrow> if 1 \<le> unat t then Ok t else Err InvalidEnvelope
      | None \<Rightarrow> Err InvalidEnvelope)"

definition issue_tct_for_peer ::
  "externals \<Rightarrow> uuid \<Rightarrow> peer_config \<Rightarrow> identity_descriptor \<Rightarrow> aid \<Rightarrow> verifying_key \<Rightarrow> string list \<Rightarrow> (handshake_error, issued_tct) result" where
  "issue_tct_for_peer E random cfg peer_identity peer_aid peer_pubkey peer_requested =
     and_then (policy_grants cfg peer_identity peer_aid peer_requested) (\<lambda>grants.
     and_then (ensure PolicyViolation (grants \<noteq> [])) (\<lambda>_.
     and_then (issue_ttl cfg) (\<lambda>ttl.
     map_err HsTct (build E random (pc_now cfg)
       ((tct_builder_new (pc_signing_key cfg))
          \<lparr>tb_subject := Some peer_aid, tb_audience := Some peer_aid, tb_grants := grants, tb_ttl := from_secs ttl,
           tb_subject_pubkey := Some peer_pubkey, tb_now_override := Some (pc_now cfg)\<rparr>)))))"

definition voucher_mirrors :: "grant_voucher_claims \<Rightarrow> tct_claims \<Rightarrow> bool" where
  "voucher_mirrors v c \<longleftrightarrow>
     gv_sub v = tct_sub c \<and> gv_grants v = tct_grants c \<and> gv_iat v = tct_iat c \<and> gv_exp v = tct_exp c \<and>
     gv_src_jti v = tct_jti c"

definition received_context :: "peer_config \<Rightarrow> aid \<Rightarrow> timestamp option \<Rightarrow> (tct_verify_context_error, tct_verify_context) result" where
  "received_context cfg issuer manifest_expires =
     (let b = ctx_builder\<lparr>b_expected_audience := Some (m_aid (pc_manifest cfg)), b_issuer := Some issuer,
                          b_now := Some (pc_now cfg), b_revocation := Some (pc_revocation cfg)\<rparr> in
      ctx_build (case manifest_expires of
                   Some t \<Rightarrow> set_manifest_expires_at t b
                 | None \<Rightarrow> skip_manifest_expiry_cap_dangerous b))"

definition verify_received_tct ::
  "externals \<Rightarrow> string \<Rightarrow> string option \<Rightarrow> peer_config \<Rightarrow> aid \<Rightarrow> timestamp option \<Rightarrow> string list \<Rightarrow> (handshake_error, verified_tct) result" where
  "verify_received_tct E token grant_voucher cfg issuer manifest_expires issuer_offered =
     and_then (map_err (\<lambda>_. HsCrypto CryptoPanic) (received_context cfg issuer manifest_expires)) (\<lambda>ctx.
     and_then (map_err HsTct (verify_tct_before_revocation E token ctx)) (\<lambda>claims.
     and_then (case grant_voucher of
                 None \<Rightarrow> Ok ()
               | Some voucher_token \<Rightarrow>
                   and_then (map_err HsTct (verify_voucher E voucher_token issuer)) (\<lambda>voucher.
                   ensure (HsTct ClaimsMalformed) (voucher_mirrors voucher claims))) (\<lambda>_.
     and_then (ensure GrantOverflow (list_all (\<lambda>g. g \<in> set issuer_offered) (tct_grants claims))) (\<lambda>_.
     and_then (map_err (\<lambda>e. if e = SafeSubsetEmpty then PolicyViolation else HsTct e)
                 (check_revocation (ctx_revocation ctx) claims (pc_now cfg))) (\<lambda>effective_grants.
     and_then (case m_required_peer_capabilities (pc_manifest cfg) of
                 None \<Rightarrow> Ok ()
               | Some required_caps \<Rightarrow>
                   ensure InsufficientGrants (list_all (\<lambda>c. c \<in> set effective_grants) required_caps)) (\<lambda>_.
     Ok \<lparr>vt_token = token, vt_claims = claims, vt_effective_grants = effective_grants\<rparr>))))))"

record completed_handshake =
  ch_tct :: verified_tct
  ch_grant_voucher :: "string option"
  ch_effective_grants :: "string list"

definition manifest_revocation_uri :: "manifest \<Rightarrow> string option" where
  "manifest_revocation_uri m =
     Option.bind (m_extensions m) (\<lambda>ext. Option.bind (ext_get ext REVOCATION_LIST_URI_EXT) json_as_str)"


subsection \<open>Lemmas\<close>

text \<open>What the bootstrap establishes about the identity proof, per mechanism.\<close>

definition identity_proved ::
  "externals \<Rightarrow> aitp_envelope \<Rightarrow> manifest \<Rightarrow> identity_descriptor \<Rightarrow> string \<Rightarrow> peer_config \<Rightarrow> bool" where
  "identity_proved E envelope m identity pop_nonce cfg \<longleftrightarrow>
     (case id_kind identity of
        Oidc \<Rightarrow>
          id_issuer identity \<noteq> None \<and> id_issuer identity = ih_issuer (m_identity_hint m) \<and>
          verify_oidc E identity
            \<lparr>oc_expected_audience = m_aid (pc_manifest cfg), oc_expected_nonce = pop_nonce,
             oc_trust_anchors = pc_trust_anchors cfg, oc_jwks_resolver = pc_jwks_resolver cfg,
             oc_subject_aid = m_aid m, oc_iat_tolerance = DEFAULT_TIMESTAMP_TOLERANCE, oc_now = pc_now cfg\<rparr> = Ok ()
      | PinnedKey \<Rightarrow>
          is_ok (verify_pinned_key E identity
            \<lparr>pk_sender_aid = m_aid m, pk_receiver_aid = m_aid (pc_manifest cfg), pk_message_id = ev_message_id envelope,
             pk_timestamp = ev_timestamp envelope, pk_pop_nonce = pop_nonce, pk_subject = Unchecked\<rparr>
            (pc_pinned_key_store cfg))
      | Spiffe \<Rightarrow>
          (\<exists>v. pc_identity_verifier cfg = Some v \<and> handles v Spiffe \<and>
             iv_verify v identity
               \<lparr>iv_peer_manifest = m, iv_sender_aid = m_aid m, iv_receiver_aid = m_aid (pc_manifest cfg),
                iv_message_id = ev_message_id envelope, iv_timestamp = ev_timestamp envelope, iv_pop_nonce = pop_nonce,
                iv_now = pc_now cfg\<rparr> = Ok \<lparr>vi_kind = Spiffe, vi_subject = id_subject identity\<rparr>))"

lemma bootstrap_verify_peer_Ok:
  assumes "wf_aid E (m_aid m)"
  shows "bootstrap_verify_peer E envelope m identity pop_nonce cfg = Ok key \<longleftrightarrow>
    m_aid m = agent_id (ev_sender envelope) \<and>
    verify_manifest E m \<lparr>mc_now = pc_now cfg, mc_insecure_localhost = pc_insecure_localhost cfg\<rparr> = Ok (VerifiedManifest m) \<and>
    id_subject identity = ih_subject (m_identity_hint m) \<and> id_kind identity = ih_kind (m_identity_hint m) \<and>
    (id_kind identity \<noteq> Spiffe \<longrightarrow> id_svid_type identity = None \<and> id_x5c identity = None) \<and>
    identity_proved E envelope m identity pop_nonce cfg \<and> vk_from_aid E (m_aid m) = Ok key"
proof -
  let ?mctx = "\<lparr>mc_now = pc_now cfg, mc_insecure_localhost = pc_insecure_localhost cfg\<rparr>"
  have vm: "(\<exists>v. verify_manifest E m ?mctx = Ok v) \<longleftrightarrow> verify_manifest E m ?mctx = Ok (VerifiedManifest m)"
    by (simp add: verify_manifest_Ok)
  show ?thesis
  proof (cases "id_kind identity")
    case PinnedKey
    let ?ctx = "\<lparr>pk_sender_aid = m_aid m, pk_receiver_aid = m_aid (pc_manifest cfg), pk_message_id = ev_message_id envelope,
        pk_timestamp = ev_timestamp envelope, pk_pop_nonce = pop_nonce, pk_subject = Unchecked\<rparr>"
    have "wf_aid E (pk_sender_aid ?ctx)" using assms by simp
    then have pk: "(\<exists>v. verify_pinned_key E identity ?ctx store = Ok v \<and> vp_key v = key) \<longleftrightarrow>
        is_ok (verify_pinned_key E identity ?ctx store) \<and> vk_from_aid E (m_aid m) = Ok key" for store
      unfolding is_ok_iff by (auto simp: verify_pinned_key_Ok)
    from PinnedKey show ?thesis
      unfolding bootstrap_verify_peer_def identity_proved_def vm [symmetric]
      by (simp add: pk)
  next
    case Oidc
    then show ?thesis
      unfolding bootstrap_verify_peer_def identity_proved_def vm [symmetric]
      by (cases "id_issuer identity") (simp_all, blast?)
  next
    case Spiffe
    have vi: "(vi_kind v = Spiffe \<and> vi_subject v = s) \<longleftrightarrow> v = \<lparr>vi_kind = Spiffe, vi_subject = s\<rparr>" for v s
      by (cases v) auto
    from Spiffe show ?thesis
      unfolding bootstrap_verify_peer_def identity_proved_def vm [symmetric]
      by (cases "pc_identity_verifier cfg") (simp_all add: vi, blast?)
  qed
qed

lemma verify_pop_Ok:
  "verify_pop E key nonce s = Ok () \<longleftrightarrow>
     (\<exists>bs sig. decode_strict E nonce = Ok bs \<and> signature_parse s = Ok sig \<and> verify_jcs E key (sha256 E bs) sig = Ok ())"
  by (auto simp: verify_pop_def)

lemma sign_pop_verifies:
  assumes "b64_laws E" "sig_laws E" "sha_laws E" "\<forall>k. sg_signing_key sg = Some k \<longrightarrow> sk_wf E k"
    and "sign_pop E sg nonce = Ok s" "vk_from_aid E (sg_aid sg) = Ok key"
  shows "verify_pop E key nonce s = Ok ()"
proof -
  obtain bs sig where bs: "decode_strict E nonce = Ok bs" "s = sig_as_str sig"
    and sig: "signer_sign_jcs E sg (sha256 E bs) = Ok sig"
    using assms(5) by (auto simp: sign_pop_def)
  obtain vk where "vk_from_aid E (sg_aid sg) = Ok vk" "verify_jcs E vk (sha256 E bs) sig = Ok ()"
      "signature_parse (sig_as_str sig) = Ok sig"
    using signer_sign_jcs_grammar [OF assms(1-4) sig] by blast
  with assms(6) bs show ?thesis by (simp add: verify_pop_Ok)
qed

lemma issue_ttl_value:
  fixes cfg
  defines "eff \<equiv> min (min (sint (pc_now cfg) + 3600) (2 ^ 63 - 1)) (sint (m_expires_at (pc_manifest cfg)))"
  shows "issue_ttl cfg = Ok t \<longleftrightarrow> sint (pc_now cfg) < eff \<and> sint t = eff - sint (pc_now cfg)"
proof -
  let ?eff = "i64_min (saturating_add (pc_now cfg) DEFAULT_TCT_TTL) (m_expires_at (pc_manifest cfg))"
  let ?d = "i64_saturating_sub ?eff (pc_now cfg)"
  have e: "sint ?eff = eff"
    by (simp add: sint_i64_min sint_saturating_add sint_duration_secs DEFAULT_TCT_TTL_def eff_def)
  have d: "sint ?d = max (eff - sint (pc_now cfg)) (- (2 ^ 63))"
    unfolding sint_i64_saturating_sub e using sint_i64_bounds [of "pc_now cfg"]
    by (auto simp: clamp_i64_def eff_def)
  have ge: "1 \<le> unat ?d \<longleftrightarrow> 1 \<le> sint ?d" if "0 \<le> sint ?d"
    using unat_i64_nonneg [OF that] by linarith
  have "issue_ttl cfg = Ok t \<longleftrightarrow> 1 \<le> sint ?d \<and> t = ?d"
    using ge by (auto simp: issue_ttl_def Let_def u64_try_from_i64_def)
  also have "\<dots> \<longleftrightarrow> sint (pc_now cfg) < eff \<and> sint t = eff - sint (pc_now cfg)"
    using d by (auto intro: i64_sint_eqI)
  finally show ?thesis .
qed

lemma issue_ttl_expiry:
  assumes "issue_ttl cfg = Ok t"
  shows "sint (saturating_add (pc_now cfg) (from_secs t)) =
    min (min (sint (pc_now cfg) + 3600) (2 ^ 63 - 1)) (sint (m_expires_at (pc_manifest cfg)))"
proof -
  have t: "0 < sint t" "sint t \<le> 3600"
    "sint (pc_now cfg) + sint t = min (min (sint (pc_now cfg) + 3600) (2 ^ 63 - 1)) (sint (m_expires_at (pc_manifest cfg)))"
    using assms unfolding issue_ttl_value by auto
  have "uint t = sint t" using unat_i64_nonneg [of t] t(1) by simp
  with t show ?thesis by (simp add: sint_saturating_add sint_duration_secs)
qed

lemma policy_grants_Ok:
  "policy_grants cfg identity a requested = Ok grants \<Longrightarrow>
     set grants \<subseteq> set requested \<inter> set (m_offered_capabilities (pc_manifest cfg)) \<and>
     (\<forall>policy. pc_grant_policy cfg = Some policy \<longrightarrow>
        (\<exists>permitted. policy \<lparr>gp_peer_identity = identity, gp_peer_aid = a,
           gp_candidate_grants = filter (\<lambda>g. g \<in> set (m_offered_capabilities (pc_manifest cfg))) requested,
           gp_now = pc_now cfg\<rparr> = Ok permitted \<and> set grants \<subseteq> set permitted))"
  by (auto simp: policy_grants_def Let_def split: option.splits)

definition peer_tct_builder :: "peer_config \<Rightarrow> aid \<Rightarrow> verifying_key \<Rightarrow> string list \<Rightarrow> u64 \<Rightarrow> tct_builder" where
  "peer_tct_builder cfg peer_aid peer_pubkey grants ttl =
     (tct_builder_new (pc_signing_key cfg))
       \<lparr>tb_subject := Some peer_aid, tb_audience := Some peer_aid, tb_grants := grants, tb_ttl := from_secs ttl,
        tb_subject_pubkey := Some peer_pubkey, tb_now_override := Some (pc_now cfg)\<rparr>"

lemma peer_tct_builder_fields [simp]:
  "tb_issuer_key (peer_tct_builder cfg a k g t) = pc_signing_key cfg"
  "tb_subject (peer_tct_builder cfg a k g t) = Some a" "tb_attestation (peer_tct_builder cfg a k g t) = False"
  "tb_grants (peer_tct_builder cfg a k g t) = g" "tb_ttl (peer_tct_builder cfg a k g t) = from_secs t"
  "tb_subject_pubkey (peer_tct_builder cfg a k g t) = Some k" "tb_jti (peer_tct_builder cfg a k g t) = JtiRandom"
  "tb_now_override (peer_tct_builder cfg a k g t) = Some (pc_now cfg)" "tb_ext (peer_tct_builder cfg a k g t) = None"
  "tb_mint_voucher (peer_tct_builder cfg a k g t) = True" "tb_audience (peer_tct_builder cfg a k g t) = Some a"
  by (simp_all add: peer_tct_builder_def tct_builder_new_def)

lemma issue_tct_for_peer_Ok:
  "issue_tct_for_peer E random cfg identity a k requested = Ok issued \<longleftrightarrow>
     (\<exists>grants ttl. policy_grants cfg identity a requested = Ok grants \<and> grants \<noteq> [] \<and> issue_ttl cfg = Ok ttl \<and>
        build E random (pc_now cfg) (peer_tct_builder cfg a k grants ttl) = Ok issued)"
  by (auto simp: issue_tct_for_peer_def peer_tct_builder_def)

lemma issued_claims:
  assumes "issue_tct_for_peer E random cfg identity a k requested = Ok issued"
  shows "policy_grants cfg identity a requested = Ok (tct_grants (it_claims issued))"
    and "tct_grants (it_claims issued) \<noteq> []" "tct_iss (it_claims issued) = sg_aid (pc_signing_key cfg)"
    and "tct_sub (it_claims issued) = a" "tct_aud (it_claims issued) = a" "a \<noteq> sg_aid (pc_signing_key cfg)"
    and "tct_iat (it_claims issued) = pc_now cfg" "it_voucher issued \<noteq> None" "tct_ext (it_claims issued) = None"
    and "tct_jti (it_claims issued) = random"
    and "sint (tct_exp (it_claims issued)) =
      min (min (sint (pc_now cfg) + 3600) (2 ^ 63 - 1)) (sint (m_expires_at (pc_manifest cfg)))"
    and "sint (pc_now cfg) < sint (tct_exp (it_claims issued))"
proof -
  obtain grants ttl where g: "policy_grants cfg identity a requested = Ok grants" "grants \<noteq> []"
    and ttl: "issue_ttl cfg = Ok ttl" and b: "build E random (pc_now cfg) (peer_tct_builder cfg a k grants ttl) = Ok issued"
    using assms unfolding issue_tct_for_peer_Ok by blast
  obtain vo where dr: "draft E random (pc_now cfg) (peer_tct_builder cfg a k grants ttl) = Ok (it_claims issued, vo)"
    and vo: "vo = None \<longrightarrow> it_voucher issued = None" "\<forall>v. vo = Some v \<longrightarrow> it_voucher issued \<noteq> None"
    using b by (auto simp: build_def split: option.splits)
  note d = draft_Ok [OF dr, simplified]
  show "policy_grants cfg identity a requested = Ok (tct_grants (it_claims issued))" "tct_grants (it_claims issued) \<noteq> []"
    "tct_iss (it_claims issued) = sg_aid (pc_signing_key cfg)" "tct_sub (it_claims issued) = a"
    "tct_aud (it_claims issued) = a" "a \<noteq> sg_aid (pc_signing_key cfg)" "tct_iat (it_claims issued) = pc_now cfg"
    "tct_ext (it_claims issued) = None" "tct_jti (it_claims issued) = random"
    using d g by (auto simp: choose_jti_def)
  show "it_voucher issued \<noteq> None" using d vo by blast
  show e: "sint (tct_exp (it_claims issued)) =
      min (min (sint (pc_now cfg) + 3600) (2 ^ 63 - 1)) (sint (m_expires_at (pc_manifest cfg)))"
    using d issue_ttl_expiry [OF ttl] by simp
  show "sint (pc_now cfg) < sint (tct_exp (it_claims issued))" using ttl unfolding e issue_ttl_value by simp
qed

lemma received_context_eq:
  "received_context cfg issuer cap =
     Ok \<lparr>expected_audience = m_aid (pc_manifest cfg), ctx_issuer = issuer, ctx_now = pc_now cfg,
         issuer_manifest_expires_at = cap, ctx_revocation = pc_revocation cfg, clock_skew = from_secs 0\<rparr>"
  by (cases cap)
    (simp_all add: received_context_def ctx_builder_def ctx_build_def set_manifest_expires_at_def
      skip_manifest_expiry_cap_dangerous_def)

text \<open>A received token as the handshake accepts it.\<close>

definition received_tct_ok ::
  "externals \<Rightarrow> string \<Rightarrow> string option \<Rightarrow> peer_config \<Rightarrow> aid \<Rightarrow> timestamp option \<Rightarrow> string list \<Rightarrow> tct_claims \<Rightarrow> string list \<Rightarrow> bool" where
  "received_tct_ok E token grant_voucher cfg issuer cap offered c effective \<longleftrightarrow>
     tct_core_ok E \<lparr>cc_issuer = issuer, cc_now = pc_now cfg, cc_clock_skew = from_secs 0,
        cc_issuer_manifest_expires_at = cap\<rparr> token c \<and>
     tct_aud c = m_aid (pc_manifest cfg) \<and> tct_sub c = tct_aud c \<and> tct_iss c \<noteq> tct_sub c \<and>
     ATTESTATION_GRANT \<notin> set (tct_grants c) \<and>
     (\<forall>t. grant_voucher = Some t \<longrightarrow> (\<exists>v. verify_voucher E t issuer = Ok v \<and> voucher_mirrors v c)) \<and>
     set (tct_grants c) \<subseteq> set offered \<and>
     check_revocation (pc_revocation cfg) c (pc_now cfg) = Ok effective \<and>
     (\<forall>r. m_required_peer_capabilities (pc_manifest cfg) = Some r \<longrightarrow> set r \<subseteq> set effective)"

lemma verify_received_tct_Ok:
  "verify_received_tct E token grant_voucher cfg issuer cap offered = Ok v \<longleftrightarrow>
     (\<exists>c effective. received_tct_ok E token grant_voucher cfg issuer cap offered c effective \<and>
        v = \<lparr>vt_token = token, vt_claims = c, vt_effective_grants = effective\<rparr>)"
proof -
  have vo: "(case grant_voucher of
               None \<Rightarrow> Ok ()
             | Some t \<Rightarrow> and_then (map_err HsTct (verify_voucher E t issuer)) (\<lambda>voucher.
                 ensure (HsTct ClaimsMalformed) (voucher_mirrors voucher c))) = Ok () \<longleftrightarrow>
        (\<forall>t. grant_voucher = Some t \<longrightarrow> (\<exists>v. verify_voucher E t issuer = Ok v \<and> voucher_mirrors v c))" for c
    by (cases grant_voucher) simp_all
  have rq: "(case m_required_peer_capabilities (pc_manifest cfg) of
               None \<Rightarrow> Ok ()
             | Some r \<Rightarrow> ensure InsufficientGrants (list_all (\<lambda>c. c \<in> set eff) r)) = Ok () \<longleftrightarrow>
        (\<forall>r. m_required_peer_capabilities (pc_manifest cfg) = Some r \<longrightarrow> set r \<subseteq> set eff)" for eff
    by (cases "m_required_peer_capabilities (pc_manifest cfg)") (auto simp: list_all_iff)
  have "verify_received_tct E token grant_voucher cfg issuer cap offered = Ok v \<longleftrightarrow>
     (\<exists>c effective.
        verify_tct_before_revocation E token
          \<lparr>expected_audience = m_aid (pc_manifest cfg), ctx_issuer = issuer, ctx_now = pc_now cfg,
           issuer_manifest_expires_at = cap, ctx_revocation = pc_revocation cfg, clock_skew = from_secs 0\<rparr> = Ok c \<and>
        (\<forall>t. grant_voucher = Some t \<longrightarrow> (\<exists>v. verify_voucher E t issuer = Ok v \<and> voucher_mirrors v c)) \<and>
        set (tct_grants c) \<subseteq> set offered \<and> check_revocation (pc_revocation cfg) c (pc_now cfg) = Ok effective \<and>
        (\<forall>r. m_required_peer_capabilities (pc_manifest cfg) = Some r \<longrightarrow> set r \<subseteq> set effective) \<and>
        v = \<lparr>vt_token = token, vt_claims = c, vt_effective_grants = effective\<rparr>)"
    unfolding verify_received_tct_def received_context_eq vo [symmetric] rq [symmetric]
    by (auto simp: list_all_iff subset_iff)
  then show ?thesis
    by (simp add: received_tct_ok_def verify_tct_before_revocation_def core_verify_Ok grant_context_Ok)
qed

end
