(* ===== verification/Handshake_Machines.thy ===== *)
theory Handshake_Machines
  imports Handshake
begin

text \<open>
  The two state machines of the mutual handshake (\<open>Initiator\<close> and \<open>Responder\<close> of
  \<open>handshake/state_machine.rs\<close>): the handlers, the runs of each machine as a step relation, and
  what every reachable state and every completed handshake satisfies.

  A handler that fails before it writes the state leaves it as it is, as the \<open>?\<close> operator does in
  the code; the pair it returns always holds the state the caller is left with.
\<close>

subsection \<open>Initiator\<close>

record awaiting_hello_ack =
  ah_session_id :: uuid
  ah_my_pop_nonce :: string
  ah_intended_peer_aid :: aid

record awaiting_commit_ack =
  aca_session_id :: uuid
  aca_my_pop_nonce :: string
  aca_peer_aid :: aid
  aca_peer_pubkey :: verifying_key
  aca_peer_manifest_expires_at :: timestamp
  aca_peer_offered_capabilities :: "string list"
  aca_peer_revocation_list_uri :: "string option"

datatype initiator_state =
    AwaitingHelloAck awaiting_hello_ack
  | AwaitingCommitAck awaiting_commit_ack
  | IDone
  | IFailed

definition initiator_peer_revocation_list_uri :: "initiator_state \<Rightarrow> string option" where
  "initiator_peer_revocation_list_uri st =
     (case st of AwaitingCommitAck a \<Rightarrow> aca_peer_revocation_list_uri a | _ \<Rightarrow> None)"

definition initiator_peer_aid :: "initiator_state \<Rightarrow> aid option" where
  "initiator_peer_aid st = (case st of AwaitingCommitAck a \<Rightarrow> Some (aca_peer_aid a) | _ \<Rightarrow> None)"

definition initiator_start ::
  "externals \<Rightarrow> uuid \<Rightarrow> bytes option \<Rightarrow> peer_config \<Rightarrow> presented_identity \<Rightarrow> aid \<Rightarrow> uuid \<Rightarrow> timestamp \<Rightarrow>
   string list \<Rightarrow> (handshake_error, initiator_state \<times> mutual_hello_payload) result" where
  "initiator_start E session_id rng cfg identity peer_aid envelope_message_id envelope_timestamp requested_grants =
     and_then (fresh_nonce E rng) (\<lambda>pop_nonce.
     and_then (build_descriptor E identity
                 \<lparr>ip_sender_aid = sg_aid (pc_signing_key cfg), ip_receiver_aid = peer_aid,
                  ip_envelope_message_id = envelope_message_id, ip_envelope_timestamp = envelope_timestamp,
                  ip_pop_nonce = pop_nonce\<rparr> (pc_signing_key cfg)) (\<lambda>descriptor.
     Ok (AwaitingHelloAck \<lparr>ah_session_id = session_id, ah_my_pop_nonce = pop_nonce, ah_intended_peer_aid = peer_aid\<rparr>,
         \<lparr>mh_identity = descriptor, mh_manifest = pc_manifest cfg, mh_requested_grants = requested_grants,
          mh_pop_nonce = pop_nonce, mh_extensions = None\<rparr>)))"

definition on_hello_ack ::
  "externals \<Rightarrow> uuid \<Rightarrow> initiator_state \<Rightarrow> aitp_envelope \<Rightarrow> mutual_hello_ack_payload \<Rightarrow> peer_config \<Rightarrow>
   (handshake_error, mutual_commit_payload) result \<times> initiator_state" where
  "on_hello_ack E random st envelope ack cfg =
     (case st of
        AwaitingHelloAck a \<Rightarrow>
          if agent_id (ev_sender envelope) \<noteq> ah_intended_peer_aid a then (Err PeerMismatch, IFailed)
          else if m_aid (mha_manifest ack) \<noteq> ah_intended_peer_aid a then (Err InvalidEnvelope, IFailed)
          else if mha_pop_nonce_echo ack \<noteq> ah_my_pop_nonce a then (Err NonceMismatch, IFailed)
          else (case bootstrap_verify_peer E envelope (mha_manifest ack) (mha_identity ack) (mha_pop_nonce ack) cfg of
            Err e \<Rightarrow> (Err e, IFailed)
          | Ok peer_pubkey \<Rightarrow>
              (case apply_peer_policy (mha_identity ack) cfg of
                 Err e \<Rightarrow> (Err e, IFailed)
               | Ok _ \<Rightarrow>
                   (case issue_tct_for_peer E random cfg (mha_identity ack) (m_aid (mha_manifest ack)) peer_pubkey
                           (mha_requested_grants ack) of
                      Err e \<Rightarrow> (Err e, st)
                    | Ok issued \<Rightarrow>
                        (case sign_pop E (pc_signing_key cfg) (mha_pop_nonce ack) of
                           Err e \<Rightarrow> (Err e, st)
                         | Ok pop_signature \<Rightarrow>
                             (Ok \<lparr>mc_tct = it_token issued, mc_grant_voucher = it_voucher issued,
                                  mc_pop_signature = pop_signature, mc_pop_nonce_echo = mha_pop_nonce ack,
                                  mc_extensions = None\<rparr>,
                              AwaitingCommitAck
                                \<lparr>aca_session_id = ah_session_id a, aca_my_pop_nonce = ah_my_pop_nonce a,
                                 aca_peer_aid = m_aid (mha_manifest ack), aca_peer_pubkey = peer_pubkey,
                                 aca_peer_manifest_expires_at = m_expires_at (mha_manifest ack),
                                 aca_peer_offered_capabilities = m_offered_capabilities (mha_manifest ack),
                                 aca_peer_revocation_list_uri = manifest_revocation_uri (mha_manifest ack)\<rparr>)))))
      | _ \<Rightarrow> (Err HsState, st))"

definition on_commit_ack ::
  "externals \<Rightarrow> initiator_state \<Rightarrow> aitp_envelope \<Rightarrow> mutual_commit_ack_payload \<Rightarrow> peer_config \<Rightarrow>
   (handshake_error, completed_handshake) result \<times> initiator_state" where
  "on_commit_ack E st envelope ack cfg =
     (case st of
        AwaitingCommitAck a \<Rightarrow>
          if agent_id (ev_sender envelope) \<noteq> aca_peer_aid a then (Err InvalidEnvelope, IFailed)
          else if mca_pop_nonce_echo ack \<noteq> aca_my_pop_nonce a then (Err NonceMismatch, IFailed)
          else (case verify_pop E (aca_peer_pubkey a) (aca_my_pop_nonce a) (mca_pop_signature ack) of
            Err e \<Rightarrow> (Err e, st)
          | Ok _ \<Rightarrow>
              (case verify_received_tct E (mca_tct ack) (mca_grant_voucher ack) cfg (aca_peer_aid a)
                      (Some (aca_peer_manifest_expires_at a)) (aca_peer_offered_capabilities a) of
                 Err e \<Rightarrow> (Err e, st)
               | Ok verified \<Rightarrow>
                   (Ok \<lparr>ch_tct = verified, ch_grant_voucher = mca_grant_voucher ack,
                        ch_effective_grants = vt_effective_grants verified\<rparr>, IDone)))
      | _ \<Rightarrow> (Err HsState, st))"

subsection \<open>Responder\<close>

record awaiting_commit =
  ac_session_id :: uuid
  ac_my_pop_nonce :: string
  ac_peer_pop_nonce :: string
  ac_peer_aid :: aid
  ac_peer_pubkey :: verifying_key
  ac_peer_requested_grants :: "string list"
  ac_peer_identity :: identity_descriptor
  ac_peer_manifest_expires_at :: timestamp
  ac_peer_offered_capabilities :: "string list"
  ac_peer_revocation_list_uri :: "string option"

datatype responder_state = AwaitingCommit awaiting_commit | RDone | RFailed

definition responder_peer_revocation_list_uri :: "responder_state \<Rightarrow> string option" where
  "responder_peer_revocation_list_uri st =
     (case st of AwaitingCommit a \<Rightarrow> ac_peer_revocation_list_uri a | _ \<Rightarrow> None)"

definition responder_peer_aid :: "responder_state \<Rightarrow> aid option" where
  "responder_peer_aid st = (case st of AwaitingCommit a \<Rightarrow> Some (ac_peer_aid a) | _ \<Rightarrow> None)"

definition on_hello ::
  "externals \<Rightarrow> uuid \<Rightarrow> bytes option \<Rightarrow> aitp_envelope \<Rightarrow> mutual_hello_payload \<Rightarrow> presented_identity \<Rightarrow> uuid \<Rightarrow>
   timestamp \<Rightarrow> peer_config \<Rightarrow> string list \<Rightarrow> (handshake_error, responder_state \<times> mutual_hello_ack_payload) result" where
  "on_hello E session_id rng envelope hello my_identity ack_envelope_message_id ack_envelope_timestamp cfg
     my_requested_grants =
     and_then (bootstrap_verify_peer E envelope (mh_manifest hello) (mh_identity hello) (mh_pop_nonce hello) cfg) (\<lambda>peer_pubkey.
     and_then (apply_peer_policy (mh_identity hello) cfg) (\<lambda>_.
     and_then (fresh_nonce E rng) (\<lambda>my_pop_nonce.
     and_then (build_descriptor E my_identity
                 \<lparr>ip_sender_aid = sg_aid (pc_signing_key cfg), ip_receiver_aid = m_aid (mh_manifest hello),
                  ip_envelope_message_id = ack_envelope_message_id, ip_envelope_timestamp = ack_envelope_timestamp,
                  ip_pop_nonce = my_pop_nonce\<rparr> (pc_signing_key cfg)) (\<lambda>descriptor.
     Ok (AwaitingCommit
           \<lparr>ac_session_id = session_id, ac_my_pop_nonce = my_pop_nonce, ac_peer_pop_nonce = mh_pop_nonce hello,
            ac_peer_aid = m_aid (mh_manifest hello), ac_peer_pubkey = peer_pubkey,
            ac_peer_requested_grants = mh_requested_grants hello, ac_peer_identity = mh_identity hello,
            ac_peer_manifest_expires_at = m_expires_at (mh_manifest hello),
            ac_peer_offered_capabilities = m_offered_capabilities (mh_manifest hello),
            ac_peer_revocation_list_uri = manifest_revocation_uri (mh_manifest hello)\<rparr>,
         \<lparr>mha_identity = descriptor, mha_manifest = pc_manifest cfg, mha_requested_grants = my_requested_grants,
          mha_pop_nonce = my_pop_nonce, mha_pop_nonce_echo = mh_pop_nonce hello, mha_extensions = None\<rparr>)))))"

definition on_commit ::
  "externals \<Rightarrow> uuid \<Rightarrow> responder_state \<Rightarrow> aitp_envelope \<Rightarrow> mutual_commit_payload \<Rightarrow> peer_config \<Rightarrow>
   (handshake_error, mutual_commit_ack_payload \<times> completed_handshake) result \<times> responder_state" where
  "on_commit E random st envelope commit cfg =
     (case st of
        AwaitingCommit a \<Rightarrow>
          if agent_id (ev_sender envelope) \<noteq> ac_peer_aid a then (Err InvalidEnvelope, RFailed)
          else if mc_pop_nonce_echo commit \<noteq> ac_my_pop_nonce a then (Err NonceMismatch, RFailed)
          else (case verify_pop E (ac_peer_pubkey a) (ac_my_pop_nonce a) (mc_pop_signature commit) of
            Err e \<Rightarrow> (Err e, st)
          | Ok _ \<Rightarrow>
              (case verify_received_tct E (mc_tct commit) (mc_grant_voucher commit) cfg (ac_peer_aid a)
                      (Some (ac_peer_manifest_expires_at a)) (ac_peer_offered_capabilities a) of
                 Err e \<Rightarrow> (Err e, st)
               | Ok verified \<Rightarrow>
                   (case issue_tct_for_peer E random cfg (ac_peer_identity a) (ac_peer_aid a) (ac_peer_pubkey a)
                           (ac_peer_requested_grants a) of
                      Err e \<Rightarrow> (Err e, st)
                    | Ok issued \<Rightarrow>
                        (case sign_pop E (pc_signing_key cfg) (ac_peer_pop_nonce a) of
                           Err e \<Rightarrow> (Err e, st)
                         | Ok pop_signature \<Rightarrow>
                             (Ok (\<lparr>mca_tct = it_token issued, mca_grant_voucher = it_voucher issued,
                                   mca_pop_signature = pop_signature, mca_pop_nonce_echo = ac_peer_pop_nonce a,
                                   mca_extensions = None\<rparr>,
                                  \<lparr>ch_tct = verified, ch_grant_voucher = mc_grant_voucher commit,
                                   ch_effective_grants = vt_effective_grants verified\<rparr>), RDone)))))
      | _ \<Rightarrow> (Err HsState, st))"

subsection \<open>Runs\<close>

text \<open>
  The interface of a machine that is driven by events: a completing step closes it, and a
  closed machine refuses every further event without changing. Both handshake roles provide it.
\<close>

fun machine_run :: "('st \<Rightarrow> 'ev \<Rightarrow> 'out \<times> 'st) \<Rightarrow> 'st \<Rightarrow> 'ev list \<Rightarrow> 'out list \<times> 'st" where
  "machine_run step st [] = ([], st)"
| "machine_run step st (ev # evs) =
     (let (out, st') = step st ev; (outs, st'') = machine_run step st' evs in (out # outs, st''))"

locale one_shot_machine =
  fixes step :: "'st \<Rightarrow> 'ev \<Rightarrow> 'out \<times> 'st"
    and completes :: "'out \<Rightarrow> bool"
    and closed :: "'st \<Rightarrow> bool"
  assumes completing_closes: "completes (fst (step st ev)) \<Longrightarrow> closed (snd (step st ev))"
    and closed_refuses: "closed st \<Longrightarrow> \<not> completes (fst (step st ev))"
    and closed_stays: "closed st \<Longrightarrow> snd (step st ev) = st"
begin

lemma closed_run:
  assumes "closed st"
  shows "snd (machine_run step st evs) = st" and "filter completes (fst (machine_run step st evs)) = []"
  by (induction evs) (simp_all add: Let_def case_prod_beta assms closed_refuses closed_stays)

lemma completes_at_most_once: "length (filter completes (fst (machine_run step st evs))) \<le> 1"
proof (induction evs arbitrary: st)
  case (Cons ev evs)
  obtain out st' where s: "step st ev = (out, st')" by fastforce
  obtain outs st'' where r: "machine_run step st' evs = (outs, st'')" by fastforce
  show ?case
  proof (cases "completes out")
    case True
    then have "closed st'" using completing_closes [of st ev] s by simp
    then have "filter completes outs = []" using closed_run(2) [of st' evs] r by simp
    then show ?thesis using s r by simp
  next
    case False
    then show ?thesis using Cons.IH [of st'] s r by simp
  qed
qed simp

lemma completed_is_final:
  assumes "filter completes (fst (machine_run step st evs)) \<noteq> []"
  shows "closed (snd (machine_run step st evs))"
  using assms
proof (induction evs arbitrary: st)
  case (Cons ev evs)
  obtain out st' where s: "step st ev = (out, st')" by fastforce
  obtain outs st'' where r: "machine_run step st' evs = (outs, st'')" by fastforce
  show ?case
  proof (cases "completes out")
    case True
    then have "closed st'" using completing_closes [of st ev] s by simp
    then show ?thesis using closed_run(1) [of st' evs] s r by simp
  next
    case False
    then show ?thesis using Cons.IH [of st'] Cons.prems s r by simp
  qed
qed simp

end

datatype initiator_event =
    HelloAckReceived uuid aitp_envelope mutual_hello_ack_payload peer_config
  | CommitAckReceived aitp_envelope mutual_commit_ack_payload peer_config

datatype initiator_output =
    ISendCommit mutual_commit_payload
  | ICompleted completed_handshake
  | IRefused handshake_error

definition initiator_step :: "externals \<Rightarrow> initiator_state \<Rightarrow> initiator_event \<Rightarrow> initiator_output \<times> initiator_state" where
  "initiator_step E st ev =
     (case ev of
        HelloAckReceived random envelope ack cfg \<Rightarrow>
          (case on_hello_ack E random st envelope ack cfg of
             (Ok commit, st') \<Rightarrow> (ISendCommit commit, st')
           | (Err e, st') \<Rightarrow> (IRefused e, st'))
      | CommitAckReceived envelope ack cfg \<Rightarrow>
          (case on_commit_ack E st envelope ack cfg of
             (Ok ch, st') \<Rightarrow> (ICompleted ch, st')
           | (Err e, st') \<Rightarrow> (IRefused e, st')))"

datatype responder_event = CommitReceived uuid aitp_envelope mutual_commit_payload peer_config

datatype responder_output =
    RCompleted mutual_commit_ack_payload completed_handshake
  | RRefused handshake_error

definition responder_step :: "externals \<Rightarrow> responder_state \<Rightarrow> responder_event \<Rightarrow> responder_output \<times> responder_state" where
  "responder_step E st ev =
     (case ev of
        CommitReceived random envelope commit cfg \<Rightarrow>
          (case on_commit E random st envelope commit cfg of
             (Ok (ack, ch), st') \<Rightarrow> (RCompleted ack ch, st')
           | (Err e, st') \<Rightarrow> (RRefused e, st')))"

fun initiator_completes :: "initiator_output \<Rightarrow> bool" where
  "initiator_completes (ICompleted _) = True"
| "initiator_completes _ = False"

fun responder_completes :: "responder_output \<Rightarrow> bool" where
  "responder_completes (RCompleted _ _) = True"
| "responder_completes _ = False"

definition initiator_closed :: "initiator_state \<Rightarrow> bool" where
  "initiator_closed st \<longleftrightarrow> st = IDone \<or> st = IFailed"

definition responder_closed :: "responder_state \<Rightarrow> bool" where
  "responder_closed st \<longleftrightarrow> st = RDone \<or> st = RFailed"

lemma on_commit_ack_Ok:
  "on_commit_ack E st envelope ack cfg = (Ok ch, st') \<longleftrightarrow>
     st' = IDone \<and>
     (\<exists>a v. st = AwaitingCommitAck a \<and> agent_id (ev_sender envelope) = aca_peer_aid a \<and>
        mca_pop_nonce_echo ack = aca_my_pop_nonce a \<and>
        verify_pop E (aca_peer_pubkey a) (aca_my_pop_nonce a) (mca_pop_signature ack) = Ok () \<and>
        verify_received_tct E (mca_tct ack) (mca_grant_voucher ack) cfg (aca_peer_aid a)
          (Some (aca_peer_manifest_expires_at a)) (aca_peer_offered_capabilities a) = Ok v \<and>
        ch = \<lparr>ch_tct = v, ch_grant_voucher = mca_grant_voucher ack, ch_effective_grants = vt_effective_grants v\<rparr>)"
  by (auto simp: on_commit_ack_def split: initiator_state.splits if_splits sum.splits)

lemma on_commit_Ok:
  "on_commit E random st envelope commit cfg = (Ok (ack, ch), st') \<longleftrightarrow>
     st' = RDone \<and>
     (\<exists>a v issued s. st = AwaitingCommit a \<and> agent_id (ev_sender envelope) = ac_peer_aid a \<and>
        mc_pop_nonce_echo commit = ac_my_pop_nonce a \<and>
        verify_pop E (ac_peer_pubkey a) (ac_my_pop_nonce a) (mc_pop_signature commit) = Ok () \<and>
        verify_received_tct E (mc_tct commit) (mc_grant_voucher commit) cfg (ac_peer_aid a)
          (Some (ac_peer_manifest_expires_at a)) (ac_peer_offered_capabilities a) = Ok v \<and>
        issue_tct_for_peer E random cfg (ac_peer_identity a) (ac_peer_aid a) (ac_peer_pubkey a)
          (ac_peer_requested_grants a) = Ok issued \<and>
        sign_pop E (pc_signing_key cfg) (ac_peer_pop_nonce a) = Ok s \<and>
        ack = \<lparr>mca_tct = it_token issued, mca_grant_voucher = it_voucher issued, mca_pop_signature = s,
               mca_pop_nonce_echo = ac_peer_pop_nonce a, mca_extensions = None\<rparr> \<and>
        ch = \<lparr>ch_tct = v, ch_grant_voucher = mc_grant_voucher commit, ch_effective_grants = vt_effective_grants v\<rparr>)"
  by (auto simp: on_commit_def split: responder_state.splits if_splits sum.splits)

interpretation initiator: one_shot_machine "initiator_step E" initiator_completes initiator_closed for E
  by unfold_locales
    (auto simp: initiator_step_def initiator_closed_def on_hello_ack_def on_commit_ack_def
      split: initiator_event.splits prod.splits sum.splits initiator_state.splits if_splits)

interpretation responder: one_shot_machine "responder_step E" responder_completes responder_closed for E
  by unfold_locales
    (auto simp: responder_step_def responder_closed_def on_commit_def
      split: responder_event.splits prod.splits sum.splits responder_state.splits if_splits)

subsection \<open>Reachable states\<close>

inductive initiator_reaches :: "externals \<Rightarrow> initiator_state \<Rightarrow> initiator_state \<Rightarrow> bool" for E st\<^sub>0 where
  start: "initiator_reaches E st\<^sub>0 st\<^sub>0"
| step: "initiator_reaches E st\<^sub>0 st \<Longrightarrow> initiator_step E st ev = (out, st') \<Longrightarrow> initiator_reaches E st\<^sub>0 st'"

inductive responder_reaches :: "externals \<Rightarrow> responder_state \<Rightarrow> responder_state \<Rightarrow> bool" for E st\<^sub>0 where
  start: "responder_reaches E st\<^sub>0 st\<^sub>0"
| step: "responder_reaches E st\<^sub>0 st \<Longrightarrow> responder_step E st ev = (out, st') \<Longrightarrow> responder_reaches E st\<^sub>0 st'"

text \<open>The message that authenticated a peer: the identity proof, the Manifest and the policy all pass.\<close>

definition authenticated ::
  "externals \<Rightarrow> aid \<Rightarrow> aitp_envelope \<Rightarrow> manifest \<Rightarrow> identity_descriptor \<Rightarrow> string \<Rightarrow> peer_config \<Rightarrow> verifying_key \<Rightarrow> bool" where
  "authenticated E peer envelope m identity pop_nonce cfg key \<longleftrightarrow>
     agent_id (ev_sender envelope) = peer \<and> m_aid m = peer \<and> vk_from_aid E peer = Ok key \<and>
     verify_manifest E m \<lparr>mc_now = pc_now cfg, mc_insecure_localhost = pc_insecure_localhost cfg\<rparr> = Ok (VerifiedManifest m) \<and>
     id_subject identity = ih_subject (m_identity_hint m) \<and> id_kind identity = ih_kind (m_identity_hint m) \<and>
     identity_proved E envelope m identity pop_nonce cfg \<and>
     check_identity_type_compatibility (pc_manifest cfg) (id_kind identity) = Ok ()"

lemma authenticatedI:
  assumes "wf_aid E (m_aid m)" "bootstrap_verify_peer E envelope m identity pop_nonce cfg = Ok key"
    and "apply_peer_policy identity cfg = Ok ()"
  shows "authenticated E (m_aid m) envelope m identity pop_nonce cfg key"
  using assms(2,3) unfolding bootstrap_verify_peer_Ok [OF assms(1)]
  by (auto simp: authenticated_def apply_peer_policy_def)

definition initiator_inv :: "externals \<Rightarrow> aid \<Rightarrow> string \<Rightarrow> initiator_state \<Rightarrow> bool" where
  "initiator_inv E peer nonce st \<longleftrightarrow>
     (case st of
        AwaitingHelloAck a \<Rightarrow> ah_intended_peer_aid a = peer \<and> ah_my_pop_nonce a = nonce
      | AwaitingCommitAck a \<Rightarrow>
          aca_peer_aid a = peer \<and> aca_my_pop_nonce a = nonce \<and>
          (\<exists>envelope (ack :: mutual_hello_ack_payload) cfg. mha_pop_nonce_echo ack = nonce \<and>
             authenticated E peer envelope (mha_manifest ack) (mha_identity ack) (mha_pop_nonce ack) cfg (aca_peer_pubkey a) \<and>
             aca_peer_manifest_expires_at a = m_expires_at (mha_manifest ack) \<and>
             aca_peer_offered_capabilities a = m_offered_capabilities (mha_manifest ack))
      | IDone \<Rightarrow> True
      | IFailed \<Rightarrow> True)"

lemma on_hello_ack_inv:
  assumes "wf_aid E peer" "initiator_inv E peer nonce st" "on_hello_ack E random st envelope ack cfg = (r, st')"
  shows "initiator_inv E peer nonce st'"
proof (cases st)
  case (AwaitingHelloAck a)
  show ?thesis
  proof (cases "st' = st \<or> st' = IFailed")
    case True
    then show ?thesis using assms(2) by (auto simp: initiator_inv_def)
  next
    case False
    then obtain key where *: "m_aid (mha_manifest ack) = peer" "mha_pop_nonce_echo ack = nonce"
      "bootstrap_verify_peer E envelope (mha_manifest ack) (mha_identity ack) (mha_pop_nonce ack) cfg = Ok key"
      "apply_peer_policy (mha_identity ack) cfg = Ok ()"
      and st': "st' = AwaitingCommitAck
          \<lparr>aca_session_id = ah_session_id a, aca_my_pop_nonce = nonce,
           aca_peer_aid = peer, aca_peer_pubkey = key,
           aca_peer_manifest_expires_at = m_expires_at (mha_manifest ack),
           aca_peer_offered_capabilities = m_offered_capabilities (mha_manifest ack),
           aca_peer_revocation_list_uri = manifest_revocation_uri (mha_manifest ack)\<rparr>"
      using assms(2,3) AwaitingHelloAck
      by (auto simp: on_hello_ack_def initiator_inv_def split: if_splits sum.splits)
    have "authenticated E peer envelope (mha_manifest ack) (mha_identity ack) (mha_pop_nonce ack) cfg key"
      using authenticatedI [OF _ *(3,4)] assms(1) *(1) by simp
    then show ?thesis using *(2) by (auto simp: initiator_inv_def st')
  qed
qed (use assms in \<open>auto simp: on_hello_ack_def\<close>)

lemma on_commit_ack_inv:
  assumes "initiator_inv E peer nonce st" "on_commit_ack E st envelope ack cfg = (r, st')"
  shows "initiator_inv E peer nonce st'"
proof -
  have "st' = st \<or> st' = IFailed \<or> st' = IDone"
    using assms(2) by (auto simp: on_commit_ack_def split: initiator_state.splits if_splits sum.splits)
  with assms(1) show ?thesis by (auto simp: initiator_inv_def)
qed

lemma initiator_step_inv:
  assumes "wf_aid E peer" "initiator_inv E peer nonce st" "initiator_step E st ev = (out, st')"
  shows "initiator_inv E peer nonce st'"
  using assms(3) on_hello_ack_inv [OF assms(1,2)] on_commit_ack_inv [OF assms(2)]
  by (auto simp: initiator_step_def split: initiator_event.splits prod.splits sum.splits)

lemma initiator_reaches_inv:
  assumes "initiator_reaches E st\<^sub>0 st" "wf_aid E peer" "initiator_inv E peer nonce st\<^sub>0"
  shows "initiator_inv E peer nonce st"
  using assms(1) by induction (use assms initiator_step_inv in blast)+

lemma responder_step_state:
  "responder_step E st ev = (out, st') \<Longrightarrow> st' = st \<or> st' = RDone \<or> st' = RFailed"
  by (auto simp: responder_step_def on_commit_def
      split: responder_event.splits prod.splits sum.splits responder_state.splits if_splits)

lemma responder_reaches_state: "responder_reaches E st\<^sub>0 st \<Longrightarrow> st = st\<^sub>0 \<or> st = RDone \<or> st = RFailed"
  by (induction rule: responder_reaches.induct) (use responder_step_state in blast)+

lemma initiator_start_inv:
  "initiator_start E session_id rng cfg identity peer message_id timestamp requested = Ok (st, hello) \<Longrightarrow>
     initiator_inv E peer (mh_pop_nonce hello) st"
  by (auto simp: initiator_start_def initiator_inv_def)

lemma on_hello_Ok:
  assumes "wf_aid E (m_aid (mh_manifest hello))"
    and "on_hello E session_id rng envelope hello identity ack_id ack_time cfg requested = Ok (st, ack)"
  obtains key a where "st = AwaitingCommit a"
    and "authenticated E (m_aid (mh_manifest hello)) envelope (mh_manifest hello) (mh_identity hello) (mh_pop_nonce hello) cfg key"
    and "mha_pop_nonce_echo ack = mh_pop_nonce hello" "fresh_nonce E rng = Ok (mha_pop_nonce ack)"
    and "ac_my_pop_nonce a = mha_pop_nonce ack" "ac_peer_pop_nonce a = mh_pop_nonce hello"
    and "ac_peer_aid a = m_aid (mh_manifest hello)" "ac_peer_pubkey a = key"
    and "ac_peer_requested_grants a = mh_requested_grants hello" "ac_peer_identity a = mh_identity hello"
    and "ac_peer_manifest_expires_at a = m_expires_at (mh_manifest hello)"
    and "ac_peer_offered_capabilities a = m_offered_capabilities (mh_manifest hello)"
proof -
  obtain key where k: "bootstrap_verify_peer E envelope (mh_manifest hello) (mh_identity hello) (mh_pop_nonce hello) cfg = Ok key"
    and p: "apply_peer_policy (mh_identity hello) cfg = Ok ()"
    using assms(2) by (auto simp: on_hello_def)
  note auth = authenticatedI [OF assms(1) k p]
  from assms(2) k p that [OF _ auth] show thesis by (auto simp: on_hello_def)
qed

subsection \<open>Properties\<close>


text \<open>What a responder that completed knows of the peer: its HELLO was authenticated, and it proved its key and issued a token.\<close>

definition completed_with_hello ::
  "externals \<Rightarrow> aitp_envelope \<Rightarrow> mutual_hello_payload \<Rightarrow> peer_config \<Rightarrow> string \<Rightarrow> uuid \<Rightarrow> mutual_commit_payload \<Rightarrow> peer_config \<Rightarrow>
   mutual_commit_ack_payload \<Rightarrow> completed_handshake \<Rightarrow> bool" where
  "completed_with_hello E hello_envelope hello hello_cfg my_nonce random commit cfg ack ch \<longleftrightarrow>
    (\<exists>key issued.
       authenticated E (m_aid (mh_manifest hello)) hello_envelope (mh_manifest hello) (mh_identity hello)
         (mh_pop_nonce hello) hello_cfg key \<and>
       verify_pop E key my_nonce (mc_pop_signature commit) = Ok () \<and>
       received_tct_ok E (mc_tct commit) (mc_grant_voucher commit) cfg (m_aid (mh_manifest hello))
         (Some (m_expires_at (mh_manifest hello))) (m_offered_capabilities (mh_manifest hello)) (vt_claims (ch_tct ch))
         (ch_effective_grants ch) \<and>
       issue_tct_for_peer E random cfg (mh_identity hello) (m_aid (mh_manifest hello)) key (mh_requested_grants hello) = Ok issued \<and>
       mca_tct ack = it_token issued \<and> tct_sub (it_claims issued) = m_aid (mh_manifest hello) \<and>
       set (tct_grants (it_claims issued)) \<subseteq> set (mh_requested_grants hello) \<inter> set (m_offered_capabilities (pc_manifest cfg)))"

lemma responder_completion:
  assumes "wf_aid E (m_aid (mh_manifest hello))"
    and "on_hello E session_id rng hello_envelope hello identity ack_id ack_time hello_cfg requested = Ok (st\<^sub>0, hello_ack)"
    and "responder_reaches E st\<^sub>0 st" "on_commit E random st envelope commit cfg = (Ok (ack, ch), st')"
  shows "st' = RDone \<and> agent_id (ev_sender envelope) = m_aid (mh_manifest hello) \<and>
    fresh_nonce E rng = Ok (mha_pop_nonce hello_ack) \<and> mca_pop_nonce_echo ack = mh_pop_nonce hello \<and>
    completed_with_hello E hello_envelope hello hello_cfg (mha_pop_nonce hello_ack) random commit cfg ack ch"
proof -
  obtain key a where a: "st\<^sub>0 = AwaitingCommit a"
    and auth: "authenticated E (m_aid (mh_manifest hello)) hello_envelope (mh_manifest hello) (mh_identity hello)
        (mh_pop_nonce hello) hello_cfg key"
    and f: "fresh_nonce E rng = Ok (mha_pop_nonce hello_ack)"
      "ac_my_pop_nonce a = mha_pop_nonce hello_ack" "ac_peer_pop_nonce a = mh_pop_nonce hello"
      "ac_peer_aid a = m_aid (mh_manifest hello)" "ac_peer_pubkey a = key"
      "ac_peer_requested_grants a = mh_requested_grants hello" "ac_peer_identity a = mh_identity hello"
      "ac_peer_manifest_expires_at a = m_expires_at (mh_manifest hello)"
      "ac_peer_offered_capabilities a = m_offered_capabilities (mh_manifest hello)"
    by (rule on_hello_Ok [OF assms(1,2)])
  have st: "st = AwaitingCommit a"
    using responder_reaches_state [OF assms(3)] assms(4) a by (auto simp: on_commit_Ok)
  with assms(4) f obtain v issued where 1: "st' = RDone" "agent_id (ev_sender envelope) = m_aid (mh_manifest hello)"
      "verify_pop E key (mha_pop_nonce hello_ack) (mc_pop_signature commit) = Ok ()"
    and 2: "verify_received_tct E (mc_tct commit) (mc_grant_voucher commit) cfg (m_aid (mh_manifest hello))
         (Some (m_expires_at (mh_manifest hello))) (m_offered_capabilities (mh_manifest hello)) = Ok v"
      "ch_tct ch = v" "ch_effective_grants ch = vt_effective_grants v"
    and 3: "issue_tct_for_peer E random cfg (mh_identity hello) (m_aid (mh_manifest hello)) key (mh_requested_grants hello) = Ok issued"
      "mca_tct ack = it_token issued" "mca_pop_nonce_echo ack = mh_pop_nonce hello"
    by (auto simp: on_commit_Ok)
  have "set (tct_grants (it_claims issued)) \<subseteq> set (mh_requested_grants hello) \<inter> set (m_offered_capabilities (pc_manifest cfg))"
    using policy_grants_Ok [OF issued_claims(1) [OF 3(1)]] by blast
  with 1 2 3 auth f(1) issued_claims(4) [OF 3(1)] show ?thesis
    unfolding verify_received_tct_Ok completed_with_hello_def by auto
qed

text \<open>
  C5: the responder's side of the same guarantee: when a COMMIT completes it, in any reachable
  state, its HELLO had authenticated the sender, whose key signed the responder's own fresh
  nonce and who issued the token; and the token the responder hands out in return is for that
  peer, within what it asked for and what the responder offers and its policy permits.
\<close>

theorem responder_completes_with_authenticated_peer:
  assumes "wf_aid E (m_aid (mh_manifest hello))"
    and "on_hello E session_id rng hello_envelope hello identity ack_id ack_time hello_cfg requested = Ok (st\<^sub>0, hello_ack)"
    and "responder_reaches E st\<^sub>0 st" "on_commit E random st envelope commit cfg = (Ok (ack, ch), st')"
  shows "st' = RDone \<and> agent_id (ev_sender envelope) = m_aid (mh_manifest hello) \<and>
    fresh_nonce E rng = Ok (mha_pop_nonce hello_ack) \<and> mca_pop_nonce_echo ack = mh_pop_nonce hello \<and>
    (\<exists>key issued.
       authenticated E (m_aid (mh_manifest hello)) hello_envelope (mh_manifest hello) (mh_identity hello)
         (mh_pop_nonce hello) hello_cfg key \<and>
       verify_pop E key (mha_pop_nonce hello_ack) (mc_pop_signature commit) = Ok () \<and>
       received_tct_ok E (mc_tct commit) (mc_grant_voucher commit) cfg (m_aid (mh_manifest hello))
         (Some (m_expires_at (mh_manifest hello))) (m_offered_capabilities (mh_manifest hello)) (vt_claims (ch_tct ch))
         (ch_effective_grants ch) \<and>
       issue_tct_for_peer E random cfg (mh_identity hello) (m_aid (mh_manifest hello)) key (mh_requested_grants hello) = Ok issued \<and>
       mca_tct ack = it_token issued \<and> tct_sub (it_claims issued) = m_aid (mh_manifest hello) \<and>
       set (tct_grants (it_claims issued)) \<subseteq> set (mh_requested_grants hello) \<inter> set (m_offered_capabilities (pc_manifest cfg)))"
  using responder_completion [OF assms] unfolding completed_with_hello_def .

text \<open>
  C21: each side completes at most once, and for good. In every sequence of messages delivered
  to a machine, at most one completes it; a machine that completed is closed at the end of the
  sequence, and it refuses everything that still arrives.
\<close>

theorem handshake_completes_at_most_once:
  "length (filter initiator_completes (fst (machine_run (initiator_step E) i ievs))) \<le> 1 \<and>
   length (filter responder_completes (fst (machine_run (responder_step E) r revs))) \<le> 1 \<and>
   (filter initiator_completes (fst (machine_run (initiator_step E) i ievs)) = [] \<or>
      initiator_closed (snd (machine_run (initiator_step E) i ievs))) \<and>
   (filter responder_completes (fst (machine_run (responder_step E) r revs)) = [] \<or>
      responder_closed (snd (machine_run (responder_step E) r revs)))"
  using initiator.completes_at_most_once responder.completes_at_most_once
    initiator.completed_is_final responder.completed_is_final by blast

text \<open>
  C11: what a peer may be granted. A token issued in the handshake grants a non-empty subset of
  what the peer asked for, of what this peer offers and, with a policy, of what it permits; it
  lives at most an hour, never past this peer's own Manifest, and never less than a second.
\<close>

theorem issued_tct_bounds:
  assumes "issue_tct_for_peer E random cfg identity a k requested = Ok issued"
  shows "tct_grants (it_claims issued) \<noteq> [] \<and>
    set (tct_grants (it_claims issued)) \<subseteq> set requested \<inter> set (m_offered_capabilities (pc_manifest cfg)) \<and>
    (case pc_grant_policy cfg of
       None \<Rightarrow> True
     | Some policy \<Rightarrow> \<exists>permitted. policy \<lparr>gp_peer_identity = identity, gp_peer_aid = a,
           gp_candidate_grants = filter (\<lambda>g. g \<in> set (m_offered_capabilities (pc_manifest cfg))) requested,
           gp_now = pc_now cfg\<rparr> = Ok permitted \<and> set (tct_grants (it_claims issued)) \<subseteq> set permitted) \<and>
    tct_iat (it_claims issued) = pc_now cfg \<and> sint (pc_now cfg) < sint (tct_exp (it_claims issued)) \<and>
    sint (tct_exp (it_claims issued)) \<le> sint (pc_now cfg) + 3600 \<and>
    sint (tct_exp (it_claims issued)) \<le> sint (m_expires_at (pc_manifest cfg))"
  using policy_grants_Ok [OF issued_claims(1) [OF assms]] issued_claims(2,7,11,12) [OF assms]
  by (auto split: option.splits)

end
