(* ===== verification/Handshake_Live.thy ===== *)
theory Handshake_Live
  imports Handshake_Machines
begin

text \<open>
  The mutual handshake between two honest peers: with in-process keys, Manifests that verify,
  each other's keys pinned and offers that meet the other's needs, the four messages always
  go through and both sides hold a token.
\<close>

text \<open>The canonical form of a document without floats and large integers is read back as that document.\<close>

definition jcs_reads :: "externals \<Rightarrow> bool" where
  "jcs_reads E \<longleftrightarrow> (\<forall>j. json_safe j \<and> unique_keys j \<longrightarrow> (\<exists>bs. jcs_prints E j bs))"

text \<open>The uncompressed SEC1 form of a P-256 key has 65 bytes and starts with 4.\<close>

definition sec1_laws :: "externals \<Rightarrow> bool" where
  "sec1_laws E \<longleftrightarrow>
     (\<forall>seed k. p256_public E seed = Some k \<longrightarrow> length (p256_to_sec1 E False k) = 65 \<and> hd (p256_to_sec1 E False k) = 4)"

definition honest_peer :: "externals \<Rightarrow> peer_config \<Rightarrow> signing_key \<Rightarrow> string \<Rightarrow> bool" where
  "honest_peer E cfg k subject \<longleftrightarrow>
     sk_wf E k \<and> pc_signing_key cfg = key_signer E k \<and> m_aid (pc_manifest cfg) = sk_aid k \<and>
     ih_kind (m_identity_hint (pc_manifest cfg)) = PinnedKey \<and> ih_subject (m_identity_hint (pc_manifest cfg)) = subject \<and>
     header_parses E (jose_alg (aid_algorithm (sk_aid k))) TYP_TCT \<and>
     header_parses E (jose_alg (aid_algorithm (sk_aid k))) TYP_GRANT_VOUCHER \<and> pc_grant_policy cfg = None"

definition trusts :: "externals \<Rightarrow> peer_config \<Rightarrow> peer_config \<Rightarrow> bool" where
  "trusts E cfg peer \<longleftrightarrow>
     verify_manifest E (pc_manifest peer) \<lparr>mc_now = pc_now cfg, mc_insecure_localhost = pc_insecure_localhost cfg\<rparr> =
       Ok (VerifiedManifest (pc_manifest peer)) \<and>
     check_identity_type_compatibility (pc_manifest cfg) PinnedKey = Ok () \<and>
     (\<forall>key. vk_from_aid E (m_aid (pc_manifest peer)) = Ok key \<longrightarrow> pc_pinned_key_store cfg key) \<and>
     (\<forall>c. tct_iss c = m_aid (pc_manifest peer) \<longrightarrow> check_revocation (pc_revocation cfg) c (pc_now cfg) = Ok (tct_grants c))"

definition granted :: "peer_config \<Rightarrow> string list \<Rightarrow> string list" where
  "granted cfg requested = filter (\<lambda>g. g \<in> set (m_offered_capabilities (pc_manifest cfg))) requested"

definition grantable :: "peer_config \<Rightarrow> peer_config \<Rightarrow> string list \<Rightarrow> bool" where
  "grantable cfg peer requested \<longleftrightarrow>
     granted cfg requested \<noteq> [] \<and> (\<forall>g\<in>set (granted cfg requested). \<not> has_whitespace g) \<and>
     ATTESTATION_GRANT \<notin> set (granted cfg requested) \<and>
     (\<forall>r. m_required_peer_capabilities (pc_manifest peer) = Some r \<longrightarrow> set r \<subseteq> set (granted cfg requested))"

subsection \<open>Lemmas\<close>

lemma sk_compressed:
  assumes "b64_laws E" "sig_laws E" "sk_wf E k"
  shows "pubkey_compressed_bytes E (sk_aid k) = Ok (to_compressed E (sk_verifying_key E k))" "vk_wf E (sk_verifying_key E k)"
proof -
  from assms(3) have "pubkey_compressed_bytes E (sk_aid k) = Ok (to_compressed E (sk_verifying_key E k)) \<and> vk_wf E (sk_verifying_key E k)"
  proof (cases rule: sk_wf_cases)
    case (ed seed)
    with assms(2) from_ed25519_props [OF assms(1), of "ed25519_public E seed"] show ?thesis
      by (simp add: sk_aid_def sk_verifying_key_def sig_laws_def to_compressed_def vk_wf_def)
  next
    case (p256 seed pk)
    with assms(2) from_p256_props [OF assms(1), of "p256_to_sec1 E True pk"] show ?thesis
      by (simp add: sk_aid_def sk_verifying_key_def sig_laws_def to_compressed_def vk_wf_def)
  qed
  then show "pubkey_compressed_bytes E (sk_aid k) = Ok (to_compressed E (sk_verifying_key E k))" "vk_wf E (sk_verifying_key E k)"
    by simp_all
qed

lemma key_signer_simps [simp]: "sg_aid (key_signer E k) = sk_aid k" "sg_signing_key (key_signer E k) = Some k"
  by (simp_all add: key_signer_def)

lemma present_pinned_key:
  assumes laws: "b64_laws E" "sig_laws E" "sha_laws E" and k: "sk_wf E k"
    and n: "decode_strict E nonce = Ok bs" "length bs = 16" and store: "store (sk_verifying_key E k)"
  shows "\<exists>d. build_descriptor E (PresentPinnedKey s)
      \<lparr>ip_sender_aid = sk_aid k, ip_receiver_aid = r, ip_envelope_message_id = i, ip_envelope_timestamp = t, ip_pop_nonce = nonce\<rparr>
      (key_signer E k) = Ok d \<and>
    id_kind d = PinnedKey \<and> id_subject d = s \<and> id_svid_type d = None \<and> id_x5c d = None \<and>
    is_ok (verify_pinned_key E d
      \<lparr>pk_sender_aid = sk_aid k, pk_receiver_aid = r, pk_message_id = i, pk_timestamp = t, pk_pop_nonce = nonce, pk_subject = Unchecked\<rparr> store)"
proof -
  let ?vk = "sk_verifying_key E k"
  let ?ctx = "\<lparr>pk_sender_aid = sk_aid k, pk_receiver_aid = r, pk_message_id = i, pk_timestamp = t, pk_pop_nonce = nonce, pk_subject = Unchecked\<rparr>"
  note vk = vk_from_sk_aid [OF laws(1,2) k]
  obtain pr where pr: "sign_pinned_key_proof E (key_signer E k) (sk_aid k) r i t nonce = Ok pr"
    using n key_signer_jcs [OF laws(1,2) k]
    by (auto simp: sign_pinned_key_proof_def pinned_key_proof_input_def handshake_proof_input_def NONCE_LEN_def)
  let ?d = "descriptor_pinned_key s (encode E (to_compressed E ?vk)) pr"
  have "build_descriptor E (PresentPinnedKey s)
      \<lparr>ip_sender_aid = sk_aid k, ip_receiver_aid = r, ip_envelope_message_id = i, ip_envelope_timestamp = t, ip_pop_nonce = nonce\<rparr>
      (key_signer E k) = Ok ?d"
    using vk pr by (simp add: build_descriptor_def)
  moreover have "verify_pinned_key E ?d ?ctx store =
      Ok \<lparr>vp_algorithm = aid_algorithm (sk_aid k), vp_key = ?vk, vp_aid = sk_aid k\<rparr>"
  proof -
    have wf: "wf_aid E (pk_sender_aid ?ctx)" using sk_aid_wf [OF laws(1,2) k] by simp
    have "proof_holds E ?d ?ctx ?vk"
      using sign_pinned_key_proof_holds [OF laws _ pr] k vk by auto
    moreover have "carries_aid_key E ?d (sk_aid k)"
      using sk_compressed(1) [OF laws(1,2) k] decode_strict_encode [OF laws(1)]
      by (simp add: carries_aid_key_def descriptor_pinned_key_def)
    ultimately show ?thesis
      unfolding verify_pinned_key_Ok [OF wf] using vk store by (simp add: descriptor_pinned_key_def)
  qed
  ultimately show ?thesis by (auto simp: descriptor_pinned_key_def)
qed

lemma bootstrap_honest:
  assumes laws: "b64_laws E" "sig_laws E" and h: "honest_peer E peer k s" and t: "trusts E cfg peer"
    and env: "agent_id (ev_sender envelope) = sk_aid k"
    and d: "id_kind d = PinnedKey" "id_subject d = s" "id_svid_type d = None" "id_x5c d = None"
    and pk: "is_ok (verify_pinned_key E d
      \<lparr>pk_sender_aid = sk_aid k, pk_receiver_aid = m_aid (pc_manifest cfg), pk_message_id = ev_message_id envelope,
       pk_timestamp = ev_timestamp envelope, pk_pop_nonce = nonce, pk_subject = Unchecked\<rparr> (pc_pinned_key_store cfg))"
  shows "bootstrap_verify_peer E envelope (pc_manifest peer) d nonce cfg = Ok (sk_verifying_key E k)"
    and "apply_peer_policy d cfg = Ok ()"
proof -
  have k: "sk_wf E k" "m_aid (pc_manifest peer) = sk_aid k" using h by (simp_all add: honest_peer_def)
  have wf: "wf_aid E (m_aid (pc_manifest peer))" using sk_aid_wf [OF laws k(1)] k(2) by simp
  show "bootstrap_verify_peer E envelope (pc_manifest peer) d nonce cfg = Ok (sk_verifying_key E k)"
    unfolding bootstrap_verify_peer_Ok [OF wf]
    using vk_from_sk_aid [OF laws k(1)] h t env d pk k(2) by (simp add: honest_peer_def trusts_def identity_proved_def)
  show "apply_peer_policy d cfg = Ok ()" using t d(1) by (simp add: apply_peer_policy_def trusts_def)
qed

text \<open>The identity an honest peer presents passes the bootstrap of a peer that trusts it.\<close>

lemma hello_honest:
  assumes laws: "b64_laws E" "sig_laws E" "sha_laws E" and h: "honest_peer E peer k s" and t: "trusts E cfg peer"
    and env: "agent_id (ev_sender envelope) = sk_aid k" and n: "length nonce = 16"
  shows "\<exists>d. build_descriptor E (PresentPinnedKey s)
      \<lparr>ip_sender_aid = sk_aid k, ip_receiver_aid = m_aid (pc_manifest cfg), ip_envelope_message_id = ev_message_id envelope,
       ip_envelope_timestamp = ev_timestamp envelope, ip_pop_nonce = encode E nonce\<rparr> (key_signer E k) = Ok d \<and>
    bootstrap_verify_peer E envelope (pc_manifest peer) d (encode E nonce) cfg = Ok (sk_verifying_key E k) \<and>
    apply_peer_policy d cfg = Ok ()"
proof -
  have k: "sk_wf E k" "m_aid (pc_manifest peer) = sk_aid k" using h by (simp_all add: honest_peer_def)
  have "pc_pinned_key_store cfg (sk_verifying_key E k)"
    using t vk_from_sk_aid [OF laws(1,2) k(1)] k(2) by (simp add: trusts_def)
  from present_pinned_key [where store = "pc_pinned_key_store cfg", OF laws k(1) decode_strict_encode [OF laws(1)] n this]
    bootstrap_honest [OF laws(1,2) h t env]
  show ?thesis by metis
qed

lemma sign_pop_honest:
  assumes "b64_laws E" "sig_laws E" "sha_laws E" "sk_wf E k" "decode_strict E nonce = Ok bs"
  shows "\<exists>s. sign_pop E (key_signer E k) nonce = Ok s \<and> verify_pop E (sk_verifying_key E k) nonce s = Ok ()"
proof -
  obtain s where s: "sign_pop E (key_signer E k) nonce = Ok s"
    using key_signer_jcs [OF assms(1,2,4)] assms(5) by (simp add: sign_pop_def)
  have "verify_pop E (sk_verifying_key E k) nonce s = Ok ()"
    by (rule sign_pop_verifies [OF assms(1-3) _ s]) (use vk_from_sk_aid [OF assms(1,2,4)] assms(4) in simp_all)
  with s show ?thesis by blast
qed

lemma sk_thumbprint: "sec1_laws E \<Longrightarrow> sk_wf E k \<Longrightarrow> \<exists>t. to_jwk_thumbprint_sha256 E (sk_verifying_key E k) = Ok t"
  by (cases rule: sk_wf_cases, assumption)
    (auto simp: to_jwk_thumbprint_sha256_def sk_verifying_key_def sec1_laws_def Let_def)

lemma draft_honest:
  assumes "b64_laws E" "sig_laws E" "sec1_laws E" "sk_wf E k'" "sk_aid k \<noteq> sk_aid k'"
    and "pc_signing_key cfg = key_signer E k"
    and "grants \<noteq> []" "\<forall>g\<in>set grants. \<not> has_whitespace g" "ATTESTATION_GRANT \<notin> set grants"
  shows "\<exists>c. draft E random now (peer_tct_builder cfg (sk_aid k') (sk_verifying_key E k') grants ttl) = Ok (c, Some (voucher_of c))"
proof -
  obtain t where t: "to_jwk_thumbprint_sha256 E (sk_verifying_key E k') = Ok t"
    using sk_thumbprint [OF assms(3,4)] by blast
  have tg: "try_for_each check_grant grants = Ok ()"
    using assms(8) by (simp add: try_for_each_eq_Inr check_grant_def)
  show ?thesis
    using assms(5-9) sk_compressed(1) [OF assms(1,2,4)] t tg
    by (auto simp: draft_def attestation_overrides_def choose_jti_def voucher_of_def Let_def)
qed

lemma claims_safe:
  assumes "\<bar>sint (tct_iat c)\<bar> < 2 ^ 53" "\<bar>sint (tct_exp c)\<bar> < 2 ^ 53" "tct_ext c = None"
  shows "json_safe (ser_tct_claims E c)" "json_safe (ser_voucher_claims E (voucher_of c))"
  using assms
  by (simp_all add: ser_tct_claims_def tct_members_def ser_voucher_claims_def voucher_members_def voucher_of_def
      opt_member_def ser_v4_def ser_aid_def ser_time_def ser_strings_def list_all_iff)

lemma issue_ttl_total:
  assumes "sint (pc_now cfg) < sint (m_expires_at (pc_manifest cfg))" "\<bar>sint (pc_now cfg)\<bar> + 3600 < 2 ^ 53"
  obtains ttl where "issue_ttl cfg = Ok ttl"
proof -
  let ?e = "min (min (sint (pc_now cfg) + 3600) (2 ^ 63 - 1)) (sint (m_expires_at (pc_manifest cfg)))"
  have "sint (word_of_int (?e - sint (pc_now cfg)) :: i64) = ?e - sint (pc_now cfg)"
    by (rule sint_word_of_int_i64) (use assms in auto)
  then show thesis using assms by (intro that) (auto simp: issue_ttl_value)
qed

lemma build_honest:
  assumes laws: "b64_laws E" "sig_laws E" "uuid_laws E" "sec1_laws E" "jcs_reads E"
    and env: "issue_env E (key_signer E k) random" and k: "sk_wf E k" "sk_wf E k'" "sk_aid k \<noteq> sk_aid k'"
    and cfg: "pc_signing_key cfg = key_signer E k"
    and grants: "grants \<noteq> []" "\<forall>g\<in>set grants. \<not> has_whitespace g" "ATTESTATION_GRANT \<notin> set grants"
    and now: "\<bar>sint (pc_now cfg)\<bar> + 3600 < 2 ^ 53" "issue_ttl cfg = Ok ttl"
  obtains c token voucher p q
  where "wf_tct_builder E (peer_tct_builder cfg (sk_aid k') (sk_verifying_key E k') grants ttl)"
    and "build E random (pc_now cfg) (peer_tct_builder cfg (sk_aid k') (sk_verifying_key E k') grants ttl) =
      Ok \<lparr>it_token = token, it_claims = c, it_voucher = Some voucher\<rparr>"
    and "jcs_prints E (ser_tct_claims E c) p" "jcs_prints E (ser_voucher_claims E (voucher_of c)) q"
proof -
  let ?b = "peer_tct_builder cfg (sk_aid k') (sk_verifying_key E k') grants ttl"
  have env': "issue_env E (tb_issuer_key ?b) random" using env cfg by simp
  have wfb: "wf_tct_builder E ?b"
    using sk_aid_wf [OF laws(1,2) k(2)] sk_compressed(2) [OF laws(1,2) k(2)] by (simp add: wf_tct_builder_def)
  obtain c where dr: "draft E random (pc_now cfg) ?b = Ok (c, Some (voucher_of c))"
    using draft_honest [OF laws(1,2,4) k(2,3) cfg grants] by blast
  note dc = draft_Ok [OF dr, simplified]
  have "sint t \<le> 3600 \<and> 0 < sint t" if "issue_ttl cfg = Ok t" for t using that unfolding issue_ttl_value by auto
  then have "0 < sint ttl" "sint ttl \<le> 3600" using now(2) by blast+
  moreover have "uint ttl = sint ttl" using unat_i64_nonneg [of ttl] \<open>0 < sint ttl\<close> by simp
  ultimately have safe: "\<bar>sint (tct_iat c)\<bar> < 2 ^ 53" "\<bar>sint (tct_exp c)\<bar> < 2 ^ 53"
    using dc now(1) by (auto simp: sint_saturating_add sint_duration_secs)
  have ext: "tct_ext c = None" using dc by simp
  have wfc: "wf_tct_claims E c" by (rule draft_wf [OF env' wfb dr])
  have wfv: "wf_voucher_claims E (voucher_of c)"
    using wfc by (simp add: voucher_of_def wf_tct_claims_def wf_voucher_claims_def)
  obtain p where p: "jcs_prints E (ser_tct_claims E c) p"
    using laws(5) claims_safe(1) [OF safe ext] unique_keys_ser_tct [OF wfc] unfolding jcs_reads_def by blast
  obtain q where q: "jcs_prints E (ser_voucher_claims E (voucher_of c)) q"
    using laws(5) claims_safe(2) [OF safe ext] unique_keys_ser_voucher [OF wfv] unfolding jcs_reads_def by blast
  obtain t1 where "sign_compact E (key_signer E k) TYP_TCT (ser_tct_claims E c) = Ok t1"
    using sign_compact_total [OF laws(1,2) k(1) _ typ_plain] p unfolding jcs_prints_def by blast
  moreover have "\<not> list_ex (\<lambda>b. b = 0x22 \<or> b = 0x5c \<or> b < 0x20) (str_bytes TYP_GRANT_VOUCHER)"
    by (simp add: jws_typs str_bytes_def)
  then obtain t2 where "sign_compact E (key_signer E k) TYP_GRANT_VOUCHER (ser_voucher_claims E (voucher_of c)) = Ok t2"
    using sign_compact_total [OF laws(1,2) k(1)] q unfolding jcs_prints_def by blast
  ultimately show thesis using that [OF wfb _ p q] dr cfg by (simp add: build_def)
qed

text \<open>A token that an honest peer issues to the other is one the other accepts.\<close>

lemma issue_honest:
  assumes laws: "b64_laws E" "sig_laws E" "sha_laws E" "uuid_laws E" "sec1_laws E" "jcs_reads E"
    and h: "honest_peer E cfg k s" and h': "honest_peer E peer k' s'" and t: "trusts E peer cfg"
    and ne: "sk_aid k \<noteq> sk_aid k'" and g: "grantable cfg peer requested"
    and now: "pc_now peer = pc_now cfg" "sint (pc_now cfg) < sint (m_expires_at (pc_manifest cfg))"
      "\<bar>sint (pc_now cfg)\<bar> + 3600 < 2 ^ 53"
    and rnd: "is_v4 E random" "length random = 16"
  shows "\<exists>issued c. issue_tct_for_peer E random cfg d (sk_aid k') (sk_verifying_key E k') requested = Ok issued \<and>
    received_tct_ok E (it_token issued) (it_voucher issued) peer (sk_aid k) (Some (m_expires_at (pc_manifest cfg)))
      (m_offered_capabilities (pc_manifest cfg)) c (granted cfg requested)"
proof -
  have k: "sk_wf E k" "pc_signing_key cfg = key_signer E k" "m_aid (pc_manifest cfg) = sk_aid k" "pc_grant_policy cfg = None"
    and k': "sk_wf E k'" "m_aid (pc_manifest peer) = sk_aid k'"
    using h h' by (simp_all add: honest_peer_def)
  have g': "granted cfg requested \<noteq> []" "\<forall>g\<in>set (granted cfg requested). \<not> has_whitespace g"
      "ATTESTATION_GRANT \<notin> set (granted cfg requested)"
    using g by (simp_all add: grantable_def)
  have pg: "policy_grants cfg d (sk_aid k') requested = Ok (granted cfg requested)"
    using k(4) by (simp add: policy_grants_def granted_def)
  have env: "issue_env E (key_signer E k) random"
    using laws h rnd sk_aid_wf [OF laws(1,2) k(1)] by (simp add: issue_env_def honest_peer_def)
  obtain ttl where ttl: "issue_ttl cfg = Ok ttl" using issue_ttl_total [OF now(2,3)] by blast
  let ?b = "peer_tct_builder cfg (sk_aid k') (sk_verifying_key E k') (granted cfg requested) ttl"
  obtain c token voucher p q where wfb: "wf_tct_builder E ?b"
    and b: "build E random (pc_now cfg) ?b = Ok \<lparr>it_token = token, it_claims = c, it_voucher = Some voucher\<rparr>"
    and p: "jcs_prints E (ser_tct_claims E c) p" and q: "jcs_prints E (ser_voucher_claims E (voucher_of c)) q"
    by (rule build_honest [OF laws(1,2,4-6) env k(1) k'(1) ne k(2) g' now(3) ttl])
  have issue: "issue_tct_for_peer E random cfg d (sk_aid k') (sk_verifying_key E k') requested =
      Ok \<lparr>it_token = token, it_claims = c, it_voucher = Some voucher\<rparr>"
    using pg g'(1) ttl b unfolding issue_tct_for_peer_Ok by blast
  note ic = issued_claims [OF issue, simplified]
  have env': "issue_env E (tb_issuer_key ?b) random" using env k(2) by simp
  have "tct_core_ok E \<lparr>cc_issuer = sk_aid k, cc_now = pc_now cfg, cc_clock_skew = from_secs 0,
      cc_issuer_manifest_expires_at = Some (m_expires_at (pc_manifest cfg))\<rparr> token (canon_tct c)"
    using build_tct_core_ok [OF env' wfb b, of p "pc_now cfg" "from_secs 0" "Some (m_expires_at (pc_manifest cfg))"]
      p ic(7,11,12) now k(2) sint_duration_secs_nonneg [of "from_secs 0"] by simp
  moreover have "canon_tct c = c" using ic by (simp add: canon_tct_def)
  moreover have "verify_voucher E voucher (sk_aid k) = Ok (voucher_of c)"
    using build_voucher_verifies [OF env' wfb b, of voucher q] q k(2) by simp
  moreover have "tct_grants c = granted cfg requested" using ic(1) pg by simp
  moreover have "set (granted cfg requested) \<subseteq> set (m_offered_capabilities (pc_manifest cfg))" by (auto simp: granted_def)
  ultimately have "received_tct_ok E token (Some voucher) peer (sk_aid k) (Some (m_expires_at (pc_manifest cfg)))
      (m_offered_capabilities (pc_manifest cfg)) c (granted cfg requested)"
    using ic(3-5) k(2,3) k'(2) g g'(3) t ne now(1)
    by (simp add: received_tct_ok_def voucher_mirrors_def voucher_of_def trusts_def grantable_def)
  with issue show ?thesis by (metis issued_tct.select_convs(1,3))
qed

text \<open>The four messages between two honest peers.\<close>

lemma honest_run:
  assumes laws: "b64_laws E" "sig_laws E" "sha_laws E" "uuid_laws E" "sec1_laws E" "jcs_reads E"
    and honest: "honest_peer E cfg\<^sub>I k\<^sub>I s\<^sub>I" "honest_peer E cfg\<^sub>R k\<^sub>R s\<^sub>R" "sk_aid k\<^sub>I \<noteq> sk_aid k\<^sub>R"
    and trust: "trusts E cfg\<^sub>I cfg\<^sub>R" "trusts E cfg\<^sub>R cfg\<^sub>I"
    and grants: "grantable cfg\<^sub>I cfg\<^sub>R req\<^sub>R" "grantable cfg\<^sub>R cfg\<^sub>I req\<^sub>I"
    and clock: "pc_now cfg\<^sub>I = now" "pc_now cfg\<^sub>R = now" "\<bar>sint now\<bar> + 3600 < 2 ^ 53"
      "sint now < sint (m_expires_at (pc_manifest cfg\<^sub>I))" "sint now < sint (m_expires_at (pc_manifest cfg\<^sub>R))"
    and random: "length nonce\<^sub>I = 16" "length nonce\<^sub>R = 16" "is_v4 E jti\<^sub>I" "length jti\<^sub>I = 16" "is_v4 E jti\<^sub>R" "length jti\<^sub>R = 16"
    and envelopes: "agent_id (ev_sender e\<^sub>1) = sk_aid k\<^sub>I" "agent_id (ev_sender e\<^sub>2) = sk_aid k\<^sub>R"
      "agent_id (ev_sender e\<^sub>3) = sk_aid k\<^sub>I" "agent_id (ev_sender e\<^sub>4) = sk_aid k\<^sub>R"
  shows "\<exists>st\<^sub>I hello st\<^sub>R hello_ack commit st\<^sub>I' commit_ack ch\<^sub>R ch\<^sub>I.
    initiator_start E sid\<^sub>I (Some nonce\<^sub>I) cfg\<^sub>I (PresentPinnedKey s\<^sub>I) (sk_aid k\<^sub>R) (ev_message_id e\<^sub>1) (ev_timestamp e\<^sub>1) req\<^sub>I =
      Ok (st\<^sub>I, hello) \<and>
    on_hello E sid\<^sub>R (Some nonce\<^sub>R) e\<^sub>1 hello (PresentPinnedKey s\<^sub>R) (ev_message_id e\<^sub>2) (ev_timestamp e\<^sub>2) cfg\<^sub>R req\<^sub>R =
      Ok (st\<^sub>R, hello_ack) \<and>
    on_hello_ack E jti\<^sub>I st\<^sub>I e\<^sub>2 hello_ack cfg\<^sub>I = (Ok commit, st\<^sub>I') \<and>
    on_commit E jti\<^sub>R st\<^sub>R e\<^sub>3 commit cfg\<^sub>R = (Ok (commit_ack, ch\<^sub>R), RDone) \<and>
    on_commit_ack E st\<^sub>I' e\<^sub>4 commit_ack cfg\<^sub>I = (Ok ch\<^sub>I, IDone) \<and>
    ch_effective_grants ch\<^sub>R = granted cfg\<^sub>I req\<^sub>R \<and> ch_effective_grants ch\<^sub>I = granted cfg\<^sub>R req\<^sub>I"
proof -
  have kI: "sk_wf E k\<^sub>I" "pc_signing_key cfg\<^sub>I = key_signer E k\<^sub>I" "m_aid (pc_manifest cfg\<^sub>I) = sk_aid k\<^sub>I"
    and kR: "sk_wf E k\<^sub>R" "pc_signing_key cfg\<^sub>R = key_signer E k\<^sub>R" "m_aid (pc_manifest cfg\<^sub>R) = sk_aid k\<^sub>R"
    using honest by (simp_all add: honest_peer_def)
  let ?nI = "encode E nonce\<^sub>I" and ?nR = "encode E nonce\<^sub>R"
  note dI = decode_strict_encode [OF laws(1), of nonce\<^sub>I] and dR = decode_strict_encode [OF laws(1), of nonce\<^sub>R]
  obtain idI where idI: "build_descriptor E (PresentPinnedKey s\<^sub>I)
      \<lparr>ip_sender_aid = sk_aid k\<^sub>I, ip_receiver_aid = sk_aid k\<^sub>R, ip_envelope_message_id = ev_message_id e\<^sub>1,
       ip_envelope_timestamp = ev_timestamp e\<^sub>1, ip_pop_nonce = ?nI\<rparr> (key_signer E k\<^sub>I) = Ok idI"
      "bootstrap_verify_peer E e\<^sub>1 (pc_manifest cfg\<^sub>I) idI ?nI cfg\<^sub>R = Ok (sk_verifying_key E k\<^sub>I)"
      "apply_peer_policy idI cfg\<^sub>R = Ok ()"
    using hello_honest [OF laws(1-3) honest(1) trust(2) envelopes(1) random(1)] kR(3) by auto
  obtain idR where idR: "build_descriptor E (PresentPinnedKey s\<^sub>R)
      \<lparr>ip_sender_aid = sk_aid k\<^sub>R, ip_receiver_aid = sk_aid k\<^sub>I, ip_envelope_message_id = ev_message_id e\<^sub>2,
       ip_envelope_timestamp = ev_timestamp e\<^sub>2, ip_pop_nonce = ?nR\<rparr> (key_signer E k\<^sub>R) = Ok idR"
      "bootstrap_verify_peer E e\<^sub>2 (pc_manifest cfg\<^sub>R) idR ?nR cfg\<^sub>I = Ok (sk_verifying_key E k\<^sub>R)"
      "apply_peer_policy idR cfg\<^sub>I = Ok ()"
    using hello_honest [OF laws(1-3) honest(2) trust(1) envelopes(2) random(2)] kI(3) by auto
  obtain tI cI where tI: "issue_tct_for_peer E jti\<^sub>I cfg\<^sub>I idR (sk_aid k\<^sub>R) (sk_verifying_key E k\<^sub>R) req\<^sub>R = Ok tI"
      "received_tct_ok E (it_token tI) (it_voucher tI) cfg\<^sub>R (sk_aid k\<^sub>I) (Some (m_expires_at (pc_manifest cfg\<^sub>I)))
        (m_offered_capabilities (pc_manifest cfg\<^sub>I)) cI (granted cfg\<^sub>I req\<^sub>R)"
    using issue_honest [OF laws honest(1,2) trust(2) honest(3) grants(1)] clock random by metis
  obtain tR cR where tR: "issue_tct_for_peer E jti\<^sub>R cfg\<^sub>R idI (sk_aid k\<^sub>I) (sk_verifying_key E k\<^sub>I) req\<^sub>I = Ok tR"
      "received_tct_ok E (it_token tR) (it_voucher tR) cfg\<^sub>I (sk_aid k\<^sub>R) (Some (m_expires_at (pc_manifest cfg\<^sub>R)))
        (m_offered_capabilities (pc_manifest cfg\<^sub>R)) cR (granted cfg\<^sub>R req\<^sub>I)"
    using issue_honest [OF laws honest(2,1) trust(1) honest(3) [symmetric] grants(2)] clock random by metis
  obtain sI where sI: "sign_pop E (key_signer E k\<^sub>I) ?nR = Ok sI" "verify_pop E (sk_verifying_key E k\<^sub>I) ?nR sI = Ok ()"
    using sign_pop_honest [OF laws(1-3) kI(1) dR] by blast
  obtain sR where sR: "sign_pop E (key_signer E k\<^sub>R) ?nI = Ok sR" "verify_pop E (sk_verifying_key E k\<^sub>R) ?nI sR = Ok ()"
    using sign_pop_honest [OF laws(1-3) kR(1) dI] by blast
  have vI: "verify_received_tct E (it_token tI) (it_voucher tI) cfg\<^sub>R (sk_aid k\<^sub>I) (Some (m_expires_at (pc_manifest cfg\<^sub>I)))
        (m_offered_capabilities (pc_manifest cfg\<^sub>I)) = Ok \<lparr>vt_token = it_token tI, vt_claims = cI, vt_effective_grants = granted cfg\<^sub>I req\<^sub>R\<rparr>"
    and vR: "verify_received_tct E (it_token tR) (it_voucher tR) cfg\<^sub>I (sk_aid k\<^sub>R) (Some (m_expires_at (pc_manifest cfg\<^sub>R)))
        (m_offered_capabilities (pc_manifest cfg\<^sub>R)) = Ok \<lparr>vt_token = it_token tR, vt_claims = cR, vt_effective_grants = granted cfg\<^sub>R req\<^sub>I\<rparr>"
    using tI(2) tR(2) unfolding verify_received_tct_Ok by blast+
  show ?thesis
    using kI kR idI idR tI(1) tR(1) sI sR vI vR envelopes
    by (simp add: initiator_start_def on_hello_def on_hello_ack_def on_commit_def on_commit_ack_def fresh_nonce_def)
qed

subsection \<open>Properties\<close>


end
