(* ===== verification/Tct_Revocation.thy ===== *)
theory Tct_Revocation
  imports Tct_Build
begin

text \<open>
  Signed revocation snapshots (\<open>tct/revocation.rs\<close>): the list, its canonical signing
  input, signing, the strict wire parse and verification.

  Shown here: a snapshot is accepted exactly when it is of the supported version, current,
  from the expected issuer, lists only v4 identifiers, and carries a signature of the
  issuer's key over the canonical form of the inner body; a snapshot that was signed is
  accepted by the issuer's verifiers, and survives its own wire format.
\<close>

record revocation_entry =
  re_jti :: uuid
  re_revoked_at :: timestamp
  re_reason :: "string option"

record revocation_list =
  rl_version :: string
  rl_issuer :: aid
  rl_published_at :: timestamp
  rl_expires_at :: timestamp
  rl_entries :: "revocation_entry list"
  rl_extensions :: "extensions_map option"

record revocation_list_envelope =
  rle_revocation_list :: revocation_list
  rle_signature :: string

definition revocation_list_new :: "aid \<Rightarrow> timestamp \<Rightarrow> timestamp \<Rightarrow> revocation_entry list \<Rightarrow> revocation_list" where
  "revocation_list_new issuer published_at expires_at entries =
     \<lparr>rl_version = PROTOCOL_VERSION, rl_issuer = issuer, rl_published_at = published_at,
      rl_expires_at = expires_at, rl_entries = entries, rl_extensions = None\<rparr>"

definition REVOCATION_LIST_MEMBERS :: "string list" where
  "REVOCATION_LIST_MEMBERS = [''version'', ''issuer'', ''published_at'', ''expires_at'', ''entries'', ''extensions'']"

definition REVOCATION_ENVELOPE_MEMBERS :: "string list" where
  "REVOCATION_ENVELOPE_MEMBERS = [''revocation_list'', ''signature'']"

subsection \<open>JSON form\<close>

definition entry_members :: "externals \<Rightarrow> revocation_entry \<Rightarrow> (string \<times> json) list" where
  "entry_members E e =
     [(''jti'', ser_v4 E (re_jti e)), (''revoked_at'', ser_time (re_revoked_at e))] @
     (case re_reason e of None \<Rightarrow> [] | Some r \<Rightarrow> [(''reason'', JStr r)])"

definition ser_entry :: "externals \<Rightarrow> revocation_entry \<Rightarrow> json" where
  "ser_entry E e = JObj (entry_members E e)"

definition list_members :: "externals \<Rightarrow> revocation_list \<Rightarrow> (string \<times> json) list" where
  "list_members E l =
     [(''version'', JStr (rl_version l)), (''issuer'', ser_aid (rl_issuer l)),
      (''published_at'', ser_time (rl_published_at l)), (''expires_at'', ser_time (rl_expires_at l)),
      (''entries'', JArr (map (ser_entry E) (rl_entries l)))] @ opt_member ''extensions'' (rl_extensions l)"

definition ser_revocation_list :: "externals \<Rightarrow> revocation_list \<Rightarrow> json" where
  "ser_revocation_list E l = JObj (list_members E l)"

definition ser_revocation_envelope :: "externals \<Rightarrow> revocation_list_envelope \<Rightarrow> json" where
  "ser_revocation_envelope E e =
     JObj [(''revocation_list'', ser_revocation_list E (rle_revocation_list e)), (''signature'', JStr (rle_signature e))]"

definition entry_fields :: "externals \<Rightarrow> field_spec list" where
  "entry_fields E =
     [(''jti'', Required, de_void (de_v4 E)), (''revoked_at'', Required, de_void de_i64),
      (''reason'', Defaulted, de_void_opt de_string)]"

definition de_entry :: "externals \<Rightarrow> json \<Rightarrow> (serde_error, revocation_entry) result" where
  "de_entry E j =
     and_then (de_struct (entry_fields E) j) (\<lambda>ms.
     and_then (de_field ms ''jti'' (de_v4 E)) (\<lambda>jti.
     and_then (de_field ms ''revoked_at'' de_i64) (\<lambda>revoked_at.
     and_then (de_opt_field ms ''reason'' de_string) (\<lambda>reason.
     Ok \<lparr>re_jti = jti, re_revoked_at = revoked_at, re_reason = reason\<rparr>))))"

definition list_fields :: "externals \<Rightarrow> field_spec list" where
  "list_fields E =
     [(''version'', Required, de_void de_string), (''issuer'', Required, de_void (de_aid E)),
      (''published_at'', Required, de_void de_i64), (''expires_at'', Required, de_void de_i64),
      (''entries'', Required, de_void (de_vec (de_entry E))), (''extensions'', Defaulted, de_void_opt de_ext)]"

definition de_revocation_list :: "externals \<Rightarrow> json \<Rightarrow> (serde_error, revocation_list) result" where
  "de_revocation_list E j =
     and_then (de_struct (list_fields E) j) (\<lambda>ms.
     and_then (de_field ms ''version'' de_string) (\<lambda>version.
     and_then (de_field ms ''issuer'' (de_aid E)) (\<lambda>issuer.
     and_then (de_field ms ''published_at'' de_i64) (\<lambda>published_at.
     and_then (de_field ms ''expires_at'' de_i64) (\<lambda>expires_at.
     and_then (de_field ms ''entries'' (de_vec (de_entry E))) (\<lambda>entries.
     and_then (de_opt_field ms ''extensions'' de_ext) (\<lambda>extensions.
     Ok \<lparr>rl_version = version, rl_issuer = issuer, rl_published_at = published_at, rl_expires_at = expires_at,
         rl_entries = entries, rl_extensions = extensions\<rparr>)))))))"

definition envelope_fields :: "externals \<Rightarrow> field_spec list" where
  "envelope_fields E =
     [(''revocation_list'', Required, de_void (de_revocation_list E)), (''signature'', Required, de_void de_string)]"

definition de_revocation_envelope :: "externals \<Rightarrow> json \<Rightarrow> (serde_error, revocation_list_envelope) result" where
  "de_revocation_envelope E j =
     and_then (de_struct (envelope_fields E) j) (\<lambda>ms.
     and_then (de_field ms ''revocation_list'' (de_revocation_list E)) (\<lambda>body.
     and_then (de_field ms ''signature'' de_string) (\<lambda>sig.
     Ok \<lparr>rle_revocation_list = body, rle_signature = sig\<rparr>)))"

subsection \<open>Signing, parsing, verifying\<close>

definition revocation_signing_bytes :: "externals \<Rightarrow> revocation_list \<Rightarrow> (tct_error, bytes) result" where
  "revocation_signing_bytes E body =
     and_then (try_for_each (\<lambda>e. map_err JtiNotV4 (check_v4 E (re_jti e))) (rl_entries body)) (\<lambda>_.
     ok_or Canonicalization (canonicalize E (ser_revocation_list E body)))"

definition sign_revocation_list :: "externals \<Rightarrow> revocation_list \<Rightarrow> signer \<Rightarrow> (tct_error, revocation_list_envelope) result" where
  "sign_revocation_list E body issuer_key =
     and_then (revocation_signing_bytes E body) (\<lambda>canonical.
     and_then (map_err (\<lambda>e. TctCrypto (SignerFailed e)) (signer_sign_jcs E issuer_key (sha256 E canonical))) (\<lambda>sig.
     Ok \<lparr>rle_revocation_list = body, rle_signature = sig_as_str sig\<rparr>))"

text \<open>\<open>value[key]\<close> on a \<open>Value\<close>: \<open>null\<close> where there is no such member.\<close>

definition json_index :: "json \<Rightarrow> string \<Rightarrow> json" where
  "json_index v k = (case json_get k v of Some x \<Rightarrow> x | None \<Rightarrow> JNull)"

definition entry_jtis :: "json \<Rightarrow> string list" where
  "entry_jtis value =
     (case json_as_array (json_index (json_index value ''revocation_list'') ''entries'') of
        None \<Rightarrow> []
      | Some es \<Rightarrow> List.map_filter (\<lambda>e. json_as_str (json_index e ''jti'')) es)"

definition parse_revocation_snapshot_wire :: "externals \<Rightarrow> checked_json \<Rightarrow> (tct_error, revocation_list_envelope) result" where
  "parse_revocation_snapshot_wire E checked =
     (let value = as_value checked in
      and_then (map_err (\<lambda>e. UnknownField (uf_field e))
                  (check_members ''RevocationListEnvelope'' value REVOCATION_ENVELOPE_MEMBERS)) (\<lambda>_.
      and_then (case json_get ''revocation_list'' value of
                  Some body \<Rightarrow> map_err (\<lambda>e. UnknownField (uf_field e))
                                 (check_members ''RevocationList'' body REVOCATION_LIST_MEMBERS)
                | None \<Rightarrow> Ok ()) (\<lambda>_.
      and_then (try_for_each (\<lambda>jti. map_err JtiNotV4 (and_then (parse_v4 E jti) (\<lambda>_. Ok ()))) (entry_jtis value)) (\<lambda>_.
      map_err claims_error (de_revocation_envelope E value)))))"

definition verify_revocation_list ::
  "externals \<Rightarrow> revocation_list_envelope \<Rightarrow> aid \<Rightarrow> timestamp \<Rightarrow> (tct_error, unit) result" where
  "verify_revocation_list E envelope expected_issuer now =
     (let body = rle_revocation_list envelope in
      and_then (ensure VersionUnknown (rl_version body = PROTOCOL_VERSION)) (\<lambda>_.
      and_then (ensure TctExpired (\<not> is_in_the_past (rl_expires_at body) now)) (\<lambda>_.
      and_then (ensure IssuerMismatch (rl_issuer body = expected_issuer)) (\<lambda>_.
      and_then (map_err TctCrypto (vk_from_aid E (rl_issuer body))) (\<lambda>pubkey.
      and_then (map_err (\<lambda>_. TctSignatureInvalid) (signature_parse (rle_signature envelope))) (\<lambda>sig.
      and_then (revocation_signing_bytes E body) (\<lambda>canonical.
      map_err (\<lambda>_. TctSignatureInvalid) (verify_jcs E pubkey (sha256 E canonical) sig))))))))"

subsection \<open>Lemmas\<close>

lemma revocation_signing_bytes_Ok:
  "revocation_signing_bytes E body = Ok bs \<longleftrightarrow>
     (\<forall>e\<in>set (rl_entries body). is_v4 E (re_jti e)) \<and> jcs_to_vec E (ser_revocation_list E body) = Some bs"
  by (auto simp: revocation_signing_bytes_def canonicalize_def try_for_each_eq_Inr)

lemma sign_revocation_list_verifies:
  assumes "b64_laws E" "sig_laws E" "sha_laws E" "\<forall>k. sg_signing_key sg = Some k \<longrightarrow> sk_wf E k"
    and "sign_revocation_list E body sg = Ok env" "rl_issuer body = sg_aid sg" "rl_version body = PROTOCOL_VERSION"
    and "sint now \<le> sint (rl_expires_at body)"
  shows "verify_revocation_list E env (sg_aid sg) now = Ok ()"
proof -
  obtain canonical sig where c: "revocation_signing_bytes E body = Ok canonical"
    and sig: "signer_sign_jcs E sg (sha256 E canonical) = Ok sig"
    and env: "env = \<lparr>rle_revocation_list = body, rle_signature = sig_as_str sig\<rparr>"
    using assms(5) by (auto simp: sign_revocation_list_def)
  have len: "length (sha256 E canonical) = 32" using assms(3) by (simp add: sha_laws_def)
  obtain vk where "vk_from_aid E (sg_aid sg) = Ok vk" "verify_jcs E vk (sha256 E canonical) sig = Ok ()"
    using signer_sign_jcs_sound [OF assms(1-4) sig len] by blast
  with c signer_sign_jcs_parses [OF assms(1-4) sig len] assms(6-8) show ?thesis
    by (simp add: verify_revocation_list_def env is_in_the_past_def)
qed

definition wf_revocation_list :: "externals \<Rightarrow> revocation_list \<Rightarrow> bool" where
  "wf_revocation_list E l \<longleftrightarrow>
     wf_aid E (rl_issuer l) \<and> (\<forall>m. rl_extensions l = Some m \<longrightarrow> wf_ext m) \<and>
     (\<forall>e\<in>set (rl_entries l). length (re_jti e) = 16 \<and> is_v4 E (re_jti e))"

lemma de_ser_entry:
  assumes "uuid_laws E" "length (re_jti e) = 16" "is_v4 E (re_jti e)"
  shows "de_entry E (ser_entry E e) = Ok e"
  using serde_v4_roundtrip [OF assms]
  by (cases e; cases "re_reason e")
    (simp_all add: de_entry_def ser_entry_def entry_members_def entry_fields_def de_struct_def de_field_def
      de_opt_field_def de_void_def de_void_opt_def)

lemma de_list_map:
  "(\<And>x. x \<in> set xs \<Longrightarrow> de (ser x) = Ok x) \<Longrightarrow> de_list de (map ser xs) = Ok xs"
  by (induction xs) auto

lemma de_ser_revocation_list:
  assumes "uuid_laws E" "wf_revocation_list E l"
  shows "de_revocation_list E (ser_revocation_list E l) = Ok l"
proof -
  have es: "de_list (de_entry E) (map (ser_entry E) (rl_entries l)) = Ok (rl_entries l)"
    using assms by (intro de_list_map de_ser_entry) (auto simp: wf_revocation_list_def)
  have iss: "de_aid E (ser_aid (rl_issuer l)) = Ok (rl_issuer l)"
    using assms(2) by (simp add: wf_revocation_list_def de_aid_ser)
  have ext: "de_ext (JObj m) = Ok m" if "rl_extensions l = Some m" for m
    using that assms(2) by (simp add: wf_revocation_list_def de_ext_wf del: de_ext.simps)
  show ?thesis
    using es iss ext
    by (cases l; cases "rl_extensions l")
      (simp_all add: de_revocation_list_def ser_revocation_list_def list_members_def list_fields_def de_struct_def
        de_field_def de_opt_field_def de_void_def de_void_opt_def opt_member_def del: de_ext.simps)
qed

lemma entry_jtis_ser:
  "entry_jtis (ser_revocation_envelope E env) = map (\<lambda>e. uuid_hyphenated E (re_jti e)) (rl_entries (rle_revocation_list env))"
proof -
  have "List.map_filter (\<lambda>e. json_as_str (json_index e ''jti'')) (map (ser_entry E) es) =
      map (\<lambda>e. uuid_hyphenated E (re_jti e)) es" for es
    by (induction es) (simp_all add: List.map_filter_simps json_index_def ser_entry_def entry_members_def ser_v4_def)
  then show ?thesis
    by (simp add: entry_jtis_def json_index_def ser_revocation_envelope_def ser_revocation_list_def list_members_def)
qed

subsection \<open>Properties\<close>

text \<open>
  C20: a revocation snapshot signed for its own issuer, with any signing backend, is
  accepted under that issuer until it expires; and an honest wire round trip through the
  strict parser gives the same snapshot back, so it is still accepted there.
\<close>

theorem signed_revocation_list_accepted:
  assumes "b64_laws E" "sig_laws E" "sha_laws E" "uuid_laws E" "\<forall>k. sg_signing_key sg = Some k \<longrightarrow> sk_wf E k"
    and "wf_revocation_list E body" "rl_issuer body = sg_aid sg" "rl_version body = PROTOCOL_VERSION"
    and "sign_revocation_list E body sg = Ok env" "sint now \<le> sint (rl_expires_at body)"
  shows "\<exists>env'. parse_revocation_snapshot_wire E (CheckedJson (ser_revocation_envelope E env)) = Ok env' \<and>
    env' = env \<and> verify_revocation_list E env' (sg_aid sg) now = Ok ()"
proof -
  have env: "rle_revocation_list env = body" using assms(9) by (auto simp: sign_revocation_list_def)
  note de = de_ser_revocation_list [OF assms(4,6)]
  have v4: "\<forall>e\<in>set (rl_entries body). parse_v4 E (uuid_hyphenated E (re_jti e)) = Ok (re_jti e)"
    using assms(4,6) by (auto simp: wf_revocation_list_def parse_v4_Ok uuid_laws_def)
  have mem: "check_members ''RevocationListEnvelope'' (ser_revocation_envelope E env) REVOCATION_ENVELOPE_MEMBERS = Ok ()"
      "check_members ''RevocationList'' (ser_revocation_list E body) REVOCATION_LIST_MEMBERS = Ok ()"
    by (auto simp: ser_revocation_envelope_def ser_revocation_list_def check_members_object list_members_def
        opt_member_def REVOCATION_ENVELOPE_MEMBERS_def REVOCATION_LIST_MEMBERS_def split: option.splits)
  have "try_for_each (\<lambda>jti. map_err JtiNotV4 (and_then (parse_v4 E jti) (\<lambda>_. Ok ())))
      (entry_jtis (ser_revocation_envelope E env)) = Ok ()"
    using v4 by (auto simp: entry_jtis_ser env try_for_each_eq_Inr)
  moreover have "de_revocation_envelope E (ser_revocation_envelope E env) = Ok env"
    using de env by (cases env)
      (simp add: de_revocation_envelope_def ser_revocation_envelope_def envelope_fields_def de_struct_def de_field_def
        de_void_def)
  moreover have "json_get ''revocation_list'' (ser_revocation_envelope E env) = Some (ser_revocation_list E body)"
    by (simp add: ser_revocation_envelope_def env)
  ultimately have "parse_revocation_snapshot_wire E (CheckedJson (ser_revocation_envelope E env)) = Ok env"
    using mem by (simp add: parse_revocation_snapshot_wire_def)
  with sign_revocation_list_verifies [OF assms(1-3,5,9,7,8,10)] show ?thesis by blast
qed

end
