(* ===== verification/Ref_Externals.thy ===== *)
theory Ref_Externals
  imports Crypto_Jws
begin

text \<open>
  One concrete instance of the third-party functions, used where a property is applied
  to an actual input. Base64url and the UUID text form are the real encodings. Hashing
  and signing are small functions that satisfy the documented laws and nothing else:
  the hash pads or cuts to 32 bytes, a signature is the key followed by the message
  hash. JSON texts are a table from texts to documents, given by the caller.
\<close>

subsection \<open>Base64url\<close>

definition sextet_char :: "nat \<Rightarrow> char" where
  "sextet_char n =
     (if n < 26 then char_of (65 + n) else if n < 52 then char_of (71 + n)
      else if n < 62 then char_of (48 + (n - 52)) else if n = 62 then CHR ''-'' else CHR ''_'')"

definition char_sextet :: "char \<Rightarrow> nat option" where
  "char_sextet c =
     (let n = of_char c in
      if 65 \<le> n \<and> n \<le> 90 then Some (n - 65) else if 97 \<le> n \<and> n \<le> 122 then Some (n - 71)
      else if 48 \<le> n \<and> n \<le> 57 then Some (n + 4) else if c = CHR ''-'' then Some 62
      else if c = CHR ''_'' then Some 63 else None)"

fun b64_groups :: "nat list \<Rightarrow> nat list" where
  "b64_groups [] = []"
| "b64_groups [a] = [a div 4, (a mod 4) * 16]"
| "b64_groups [a, b] = [a div 4, (a mod 4) * 16 + b div 16, (b mod 16) * 4]"
| "b64_groups (a # b # c # r) =
     [a div 4, (a mod 4) * 16 + b div 16, (b mod 16) * 4 + c div 64, c mod 64] @ b64_groups r"

fun b64_ungroup :: "nat list \<Rightarrow> nat list option" where
  "b64_ungroup [] = Some []"
| "b64_ungroup [w] = None"
| "b64_ungroup [w, x] = (if x mod 16 = 0 then Some [w * 4 + x div 16] else None)"
| "b64_ungroup [w, x, y] = (if y mod 4 = 0 then Some [w * 4 + x div 16, (x mod 16) * 16 + y div 4] else None)"
| "b64_ungroup (w # x # y # z # r) =
     map_option (\<lambda>t. (w * 4 + x div 16) # ((x mod 16) * 16 + y div 4) # ((y mod 4) * 64 + z) # t) (b64_ungroup r)"

fun chars_sextets :: "string \<Rightarrow> nat list option" where
  "chars_sextets [] = Some []"
| "chars_sextets (c # cs) =
     (case char_sextet c of None \<Rightarrow> None | Some n \<Rightarrow> map_option ((#) n) (chars_sextets cs))"

definition ref_b64_encode :: "bytes \<Rightarrow> string" where
  "ref_b64_encode bs = map sextet_char (b64_groups (map unat bs))"

definition ref_b64_decode :: "string \<Rightarrow> bytes option" where
  "ref_b64_decode s = map_option (map of_nat) (Option.bind (chars_sextets s) b64_ungroup)"

lemma sextet_cases:
  assumes "n < (64 :: nat)"
  obtains "n < 26" | "26 \<le> n" "n < 52" | "52 \<le> n" "n < 62" | "n = 62" | "n = 63"
  using assms by linarith

lemma char_sextet_inverse: "n < 64 \<Longrightarrow> char_sextet (sextet_char n) = Some n"
  by (erule sextet_cases) (auto simp: sextet_char_def char_sextet_def Let_def)

lemma sextet_char_base64url: "n < 64 \<Longrightarrow> is_base64url_byte (sextet_char n)"
  by (erule sextet_cases) (auto simp: sextet_char_def is_base64url_byte_def Let_def)

lemma b64_groups_less: "\<forall>b\<in>set bs. b < 256 \<Longrightarrow> \<forall>n\<in>set (b64_groups bs). n < 64"
  by (induction bs rule: b64_groups.induct) auto

lemma b64_ungroup_groups: "\<forall>b\<in>set bs. b < 256 \<Longrightarrow> b64_ungroup (b64_groups bs) = Some bs"
  by (induction bs rule: b64_groups.induct) auto

lemma length_b64_groups: "length (b64_groups bs) = (length bs * 4 + 2) div 3"
  by (induction bs rule: b64_groups.induct) auto

lemma chars_sextets_map: "\<forall>n\<in>set ns. n < 64 \<Longrightarrow> chars_sextets (map sextet_char ns) = Some ns"
  by (induction ns) (auto simp: char_sextet_inverse)

lemma unat_u8_less: "unat (b :: u8) < 256"
  using unsigned_less [of b] by simp

lemma ref_b64_roundtrip: "ref_b64_decode (ref_b64_encode bs) = Some bs"
proof -
  have less: "\<forall>b\<in>set (map unat bs). b < 256" by (auto simp: unat_u8_less)
  have "map (of_nat \<circ> unat) bs = bs" by (rule map_idI) simp
  then show ?thesis
    by (simp add: ref_b64_decode_def ref_b64_encode_def chars_sextets_map [OF b64_groups_less [OF less]]
        b64_ungroup_groups [OF less])
qed

lemma ref_b64_chars: "list_all is_base64url_byte (ref_b64_encode bs)"
  using b64_groups_less [of "map unat bs"]
  by (auto simp: ref_b64_encode_def list_all_iff unat_u8_less sextet_char_base64url)

subsection \<open>UUID text\<close>

definition hex_digit :: "nat \<Rightarrow> char" where
  "hex_digit n = (if n < 10 then char_of (48 + n) else char_of (87 + n))"

definition hex_value :: "char \<Rightarrow> nat option" where
  "hex_value c =
     (let n = of_char c in
      if 48 \<le> n \<and> n \<le> 57 then Some (n - 48) else if 97 \<le> n \<and> n \<le> 102 then Some (n - 87) else None)"

fun hex_bytes :: "bytes \<Rightarrow> string" where
  "hex_bytes [] = []"
| "hex_bytes (b # bs) = hex_digit (unat b div 16) # hex_digit (unat b mod 16) # hex_bytes bs"

fun unhex :: "string \<Rightarrow> bytes option" where
  "unhex [] = Some []"
| "unhex [c] = None"
| "unhex (c # d # cs) =
     (case (hex_value c, hex_value d) of
        (Some x, Some y) \<Rightarrow> map_option ((#) (of_nat (16 * x + y))) (unhex cs)
      | _ \<Rightarrow> None)"

definition ref_hyphenated :: "bytes \<Rightarrow> string" where
  "ref_hyphenated b =
     hex_bytes (take 4 b) @ ''-'' @ hex_bytes (take 2 (drop 4 b)) @ ''-'' @ hex_bytes (take 2 (drop 6 b)) @ ''-'' @
     hex_bytes (take 2 (drop 8 b)) @ ''-'' @ hex_bytes (drop 10 b)"

definition ref_uuid_parse :: "string \<Rightarrow> bytes option" where
  "ref_uuid_parse s = unhex (filter (\<lambda>c. c \<noteq> CHR ''-'') s)"

lemma hex_value_digit: "n < 16 \<Longrightarrow> hex_value (hex_digit n) = Some n"
  by (simp add: hex_value_def hex_digit_def Let_def)

lemma hex_digit_lower: "n < 16 \<Longrightarrow> lower_hex (hex_digit n)"
  by (simp add: lower_hex_def hex_digit_def Let_def)

lemma hex_digit_no_hyphen: "n < 16 \<Longrightarrow> hex_digit n \<noteq> CHR ''-''"
  using hex_value_digit by (fastforce simp: hex_value_def Let_def)

lemma unhex_hex: "unhex (hex_bytes bs) = Some bs"
proof (induction bs)
  case (Cons b bs)
  have "unat b div 16 < 16" using unat_u8_less [of b] by simp
  with Cons show ?case by (simp add: hex_value_digit)
qed simp

lemma hex_bytes_lower: "list_all lower_hex (hex_bytes bs)"
proof (induction bs)
  case (Cons b bs)
  have "unat b div 16 < 16" using unat_u8_less [of b] by simp
  with Cons show ?case by (simp add: hex_digit_lower)
qed simp

lemma hex_bytes_append: "hex_bytes (a @ b) = hex_bytes a @ hex_bytes b"
  by (induction a) simp_all

lemma length_hex_bytes [simp]: "length (hex_bytes bs) = 2 * length bs"
  by (induction bs) simp_all

lemma filter_hex_bytes: "filter (\<lambda>c. c \<noteq> CHR ''-'') (hex_bytes bs) = hex_bytes bs"
proof (induction bs)
  case (Cons b bs)
  have "unat b div 16 < 16" using unat_u8_less [of b] by simp
  with Cons show ?case by (simp add: hex_digit_no_hyphen)
qed simp

lemma ref_uuid_roundtrip: "ref_uuid_parse (ref_hyphenated b) = Some b"
proof -
  have "take 4 b @ take 2 (drop 4 b) @ take 2 (drop 6 b) @ take 2 (drop 8 b) @ drop 10 b = b"
    using append_take_drop_id [of 4 b] append_take_drop_id [of 2 "drop 4 b"] append_take_drop_id [of 2 "drop 6 b"]
      append_take_drop_id [of 2 "drop 8 b"] by simp
  then have "hex_bytes b = hex_bytes (take 4 b @ take 2 (drop 4 b) @ take 2 (drop 6 b) @ take 2 (drop 8 b) @ drop 10 b)"
    by simp
  also have "\<dots> = hex_bytes (take 4 b) @ hex_bytes (take 2 (drop 4 b)) @ hex_bytes (take 2 (drop 6 b)) @
      hex_bytes (take 2 (drop 8 b)) @ hex_bytes (drop 10 b)"
    by (simp only: hex_bytes_append)
  finally have "hex_bytes (take 4 b) @ hex_bytes (take 2 (drop 4 b)) @ hex_bytes (take 2 (drop 6 b)) @
      hex_bytes (take 2 (drop 8 b)) @ hex_bytes (drop 10 b) = hex_bytes b" by simp
  then show ?thesis
    by (simp add: ref_uuid_parse_def ref_hyphenated_def filter_hex_bytes unhex_hex)
qed

lemma ref_hyphenated_shape:
  assumes "length b = 16"
  shows "v4_shape (ref_hyphenated b)"
proof -
  have len: "length (ref_hyphenated b) = 36" using assms by (simp add: ref_hyphenated_def)
  have hex: "i < length (hex_bytes x) \<Longrightarrow> lower_hex (hex_bytes x ! i)" for x i
    using hex_bytes_lower [of x] by (simp add: list_all_length)
  have "(if i \<in> {8, 13, 18, 23} then ref_hyphenated b ! i = CHR ''-'' else lower_hex (ref_hyphenated b ! i))"
    if "i < 36" for i
    using that assms by (auto simp: ref_hyphenated_def nth_append nth_Cons' hex)
  then show ?thesis by (auto simp: v4_shape_def len list_all_length)
qed

subsection \<open>A printer\<close>

text \<open>
  A self-delimiting byte form of documents, in the place of the canonical printer: lengths
  in unary, then the parts. No code word is a proper prefix of another.
\<close>

definition enc_nat :: "nat \<Rightarrow> bytes" where
  "enc_nat n = replicate n 1 @ [0]"

definition enc_str :: "string \<Rightarrow> bytes" where
  "enc_str s = enc_nat (length s) @ str_bytes s"

fun enc_json :: "json \<Rightarrow> bytes" where
  "enc_json JNull = [0]"
| "enc_json (JBool b) = [1, if b then 1 else 0]"
| "enc_json (JInt n) = 2 # (if n < 0 then 1 else 0) # enc_nat (nat \<bar>n\<bar>)"
| "enc_json (JFloat s) = 3 # enc_str s"
| "enc_json (JStr s) = 4 # enc_str s"
| "enc_json (JArr xs) = 5 # enc_nat (length xs) @ concat (map enc_json xs)"
| "enc_json (JObj ms) = 6 # enc_nat (length ms) @ concat (map (\<lambda>kv. enc_str (fst kv) @ enc_json (snd kv)) ms)"

lemma enc_nat_prefix: "enc_nat m @ r = enc_nat n @ s \<longleftrightarrow> m = n \<and> r = s"
proof (induction m arbitrary: n)
  case 0
  show ?case by (cases n) (auto simp: enc_nat_def)
next
  case (Suc m)
  show ?case using Suc.IH by (cases n) (auto simp: enc_nat_def)
qed

lemma enc_str_prefix: "enc_str a @ r = enc_str b @ s \<longleftrightarrow> a = b \<and> r = s"
  by (auto simp: enc_str_def enc_nat_prefix)

lemma enc_list_prefix:
  assumes "\<And>x y r s. x \<in> set xs \<Longrightarrow> f x @ r = f y @ s \<Longrightarrow> x = y \<and> r = s" "length xs = length ys"
    and "concat (map f xs) @ r = concat (map f ys) @ s"
  shows "xs = ys \<and> r = s"
  using assms(2,1,3)
proof (induction xs ys rule: list_induct2)
  case (Cons x xs y ys)
  have hd: "x = y \<and> concat (map f xs) @ r = concat (map f ys) @ s"
    by (rule Cons.prems(1)) (use Cons.prems(2) in simp_all)
  have "xs = ys \<and> r = s"
    by (rule Cons.IH) (use Cons.prems(1) hd in auto)
  with hd show ?case by simp
qed simp

lemma enc_json_prefix: "enc_json a @ r = enc_json b @ s \<Longrightarrow> a = b \<and> r = s"
proof (induction a arbitrary: b r s rule: enc_json.induct)
  case (3 n)
  then show ?case by (cases b) (auto simp: enc_nat_prefix split: if_splits)
next
  case (6 xs)
  then obtain ys where b: "b = JArr ys" by (cases b) auto
  with "6.prems" have "length xs = length ys" "concat (map enc_json xs) @ r = concat (map enc_json ys) @ s"
    by (auto simp: enc_nat_prefix)
  with enc_list_prefix [of xs enc_json ys r s] "6.IH" b show ?case by blast
next
  case (7 ms)
  let ?f = "\<lambda>kv. enc_str (fst kv) @ enc_json (snd kv)"
  from "7.prems" obtain ns where b: "b = JObj ns" by (cases b) auto
  with "7.prems" have l: "length ms = length ns" "concat (map ?f ms) @ r = concat (map ?f ns) @ s"
    by (auto simp: enc_nat_prefix)
  have "x = y \<and> r = s" if "x \<in> set ms" "?f x @ r = ?f y @ s" for x y r s
    using that "7.IH" [of x r "snd y" s] by (auto simp: enc_str_prefix prod_eq_iff)
  from enc_list_prefix [OF this l] b show ?case by blast
next
  case 1
  then show ?case by (cases b) simp_all
next
  case (2 x)
  then show ?case by (cases b) (auto split: if_splits)
next
  case (4 x)
  then show ?case by (cases b) (simp_all add: enc_str_prefix)
next
  case (5 x)
  then show ?case by (cases b) (simp_all add: enc_str_prefix)
qed

lemma enc_json_inject: "enc_json a = enc_json b \<Longrightarrow> a = b"
  using enc_json_prefix [of a "[]" b "[]"] by simp

lemma enc_json_nonempty: "enc_json j \<noteq> []"
  by (cases j) simp_all

text \<open>Its parser. Every document is longer than its parts, so the length of the text bounds the recursion.\<close>

fun dec_nat :: "bytes \<Rightarrow> (nat \<times> bytes) option" where
  "dec_nat [] = None"
| "dec_nat (b # r) =
     (if b = 0 then Some (0, r) else if b = 1 then map_option (\<lambda>(n, r'). (Suc n, r')) (dec_nat r) else None)"

definition dec_str :: "bytes \<Rightarrow> (string \<times> bytes) option" where
  "dec_str bs = map_option (\<lambda>(n, r). (map (\<lambda>b. char_of (unat b)) (take n r), drop n r)) (dec_nat bs)"

primrec dec_n :: "(bytes \<Rightarrow> ('a \<times> bytes) option) \<Rightarrow> nat \<Rightarrow> bytes \<Rightarrow> ('a list \<times> bytes) option" where
  "dec_n d 0 bs = Some ([], bs)"
| "dec_n d (Suc n) bs =
     Option.bind (d bs) (\<lambda>(x, r). map_option (\<lambda>(xs, r'). (x # xs, r')) (dec_n d n r))"

definition dec_member :: "(bytes \<Rightarrow> (json \<times> bytes) option) \<Rightarrow> bytes \<Rightarrow> ((string \<times> json) \<times> bytes) option" where
  "dec_member d bs = Option.bind (dec_str bs) (\<lambda>(k, r). map_option (\<lambda>(v, r'). ((k, v), r')) (d r))"

fun dec_json :: "nat \<Rightarrow> bytes \<Rightarrow> (json \<times> bytes) option" where
  "dec_json 0 bs = None"
| "dec_json (Suc f) [] = None"
| "dec_json (Suc f) (t # r) =
     (if t = 0 then Some (JNull, r)
      else if t = 1 then (case r of b # r' \<Rightarrow> Some (JBool (b = 1), r') | [] \<Rightarrow> None)
      else if t = 2 then (case r of b # r' \<Rightarrow> map_option (\<lambda>(n, r''). (JInt (if b = 1 then - int n else int n), r'')) (dec_nat r') | [] \<Rightarrow> None)
      else if t = 3 then map_option (\<lambda>(s, r'). (JFloat s, r')) (dec_str r)
      else if t = 4 then map_option (\<lambda>(s, r'). (JStr s, r')) (dec_str r)
      else if t = 5 then Option.bind (dec_nat r) (\<lambda>(n, r'). map_option (\<lambda>(xs, r''). (JArr xs, r'')) (dec_n (dec_json f) n r'))
      else if t = 6 then Option.bind (dec_nat r) (\<lambda>(n, r'). map_option (\<lambda>(ms, r''). (JObj ms, r'')) (dec_n (dec_member (dec_json f)) n r'))
      else None)"

lemma dec_enc_nat: "dec_nat (enc_nat n @ r) = Some (n, r)"
  by (induction n) (simp_all add: enc_nat_def)

lemma dec_enc_str: "dec_str (enc_str s @ r) = Some (s, r)"
proof -
  have "map (\<lambda>b. char_of (unat b)) (str_bytes s) = s"
    by (induction s) (simp_all add: str_bytes_def unat_of_char_u8)
  moreover have "length (str_bytes s) = length s" by (simp add: str_bytes_def)
  ultimately show ?thesis by (simp add: dec_str_def enc_str_def dec_enc_nat)
qed

lemma dec_n_concat:
  "(\<And>x r. x \<in> set xs \<Longrightarrow> d (e x @ r) = Some (x, r)) \<Longrightarrow> dec_n d (length xs) (concat (map e xs) @ r) = Some (xs, r)"
  by (induction xs) simp_all

lemma length_concat_member: "x \<in> set xs \<Longrightarrow> length (e x) \<le> length (concat (map e xs))"
  by (induction xs) auto

lemma dec_enc_json: "length (enc_json j) \<le> f \<Longrightarrow> dec_json f (enc_json j @ r) = Some (j, r)"
proof (induction j arbitrary: f r rule: enc_json.induct)
  case (6 xs)
  then obtain f' where f: "f = Suc f'" by (cases f) simp_all
  have "dec_n (dec_json f') (length xs) (concat (map enc_json xs) @ r) = Some (xs, r)"
  proof (rule dec_n_concat)
    fix x r
    assume x: "x \<in> set xs"
    have "length (enc_json x) \<le> f'" using length_concat_member [OF x, of enc_json] "6.prems" by (simp add: f)
    with "6.IH" [OF x] show "dec_json f' (enc_json x @ r) = Some (x, r)" by blast
  qed
  then show ?case by (simp add: f dec_enc_nat)
next
  case (7 ms)
  let ?e = "\<lambda>kv. enc_str (fst kv) @ enc_json (snd kv)"
  from 7 obtain f' where f: "f = Suc f'" by (cases f) simp_all
  have "dec_n (dec_member (dec_json f')) (length ms) (concat (map ?e ms) @ r) = Some (ms, r)"
  proof (rule dec_n_concat)
    fix x r
    assume x: "x \<in> set ms"
    have "length (enc_json (snd x)) \<le> f'" using length_concat_member [OF x, of ?e] "7.prems" by (simp add: f)
    with "7.IH" [OF x] show "dec_member (dec_json f') (?e x @ r) = Some (x, r)"
      by (simp add: dec_member_def dec_enc_str)
  qed
  then show ?case by (simp add: f dec_enc_nat)
next
  case 1
  then show ?case by (cases f) simp_all
next
  case (2 x)
  then show ?case by (cases f) simp_all
next
  case (3 n)
  then obtain f' where "f = Suc f'" by (cases f) simp_all
  then show ?case by (simp add: dec_enc_nat)
next
  case (4 x)
  then show ?case by (cases f) (simp_all add: dec_enc_str)
next
  case (5 x)
  then show ?case by (cases f) (simp_all add: dec_enc_str)
qed

subsection \<open>The instance\<close>

definition ref_sha256 :: "bytes \<Rightarrow> bytes" where
  "ref_sha256 m = take 32 (m @ replicate 32 0)"

definition ref_host :: "string \<Rightarrow> string option option" where
  "ref_host u =
     (case strip_prefix ''https://'' u of
        Some r \<Rightarrow> Some (Some (hd (split_on CHR ''/'' r)))
      | None \<Rightarrow> None)"

text \<open>
  \<open>table\<close> pairs texts with the documents they spell, headers included; a document outside
  the table is printed in the byte form above, and texts outside the table are read as such.
\<close>

definition ref_externals :: "(bytes \<times> json) list \<Rightarrow> externals" where
  "ref_externals table =
     \<lparr>b64_encode = ref_b64_encode, b64_decode = ref_b64_decode, sha256 = ref_sha256,
      ed25519_public = (\<lambda>seed. seed), ed25519_sign = (\<lambda>seed m. seed @ ref_sha256 m),
      ed25519_valid_point = (\<lambda>_. True), ed25519_verify_strict = (\<lambda>pk m s. s = pk @ ref_sha256 m),
      p256_public = (\<lambda>seed. if length seed = 32 then Some (4 # seed @ seed) else None),
      p256_sign_prehash = (\<lambda>seed d. seed @ d), p256_normalize_s = (\<lambda>s. s),
      p256_from_sec1 = (\<lambda>bs. if length bs = 33 then Some (4 # tl bs @ tl bs)
                              else if length bs = 65 then Some bs else None),
      p256_to_sec1 = (\<lambda>compress k. if compress then 2 # take 32 (tl k) else k),
      p256_sig_from_slice = (\<lambda>_. True), p256_sig_from_der = (\<lambda>der. Some der),
      p256_verify_prehash = (\<lambda>k d s. s = take 32 (tl k) @ d),
      ring_p384_verify = (\<lambda>_ _ _. False), p521_valid_point = (\<lambda>_. False), p521_sig_from_slice = (\<lambda>_. False),
      p521_verify = (\<lambda>_ _ _. False), ring_rsa_verify = (\<lambda>_ _ _ _. False),
      json_next = (\<lambda>bs. case map_of table bs of Some j \<Rightarrow> Some (j, []) | None \<Rightarrow> dec_json (length bs) bs),
      jcs_to_vec = (\<lambda>j. Some (case find (\<lambda>(_, d). d = jcs_sort j) table of Some (bs, _) \<Rightarrow> bs | None \<Rightarrow> enc_json (jcs_sort j))),
      url_host = ref_host, uuid_parse_str = ref_uuid_parse,
      uuid_version_num = (\<lambda>b. unat (drop_bit 4 (b ! 6))), uuid_is_rfc4122 = (\<lambda>b. b ! 8 AND 0xc0 = 0x80),
      uuid_hyphenated = ref_hyphenated\<rparr>"

lemma ref_b64_laws: "b64_laws (ref_externals t)"
  by (simp add: b64_laws_def ref_externals_def ref_b64_roundtrip ref_b64_chars)
    (simp add: ref_b64_encode_def length_b64_groups)

lemma ref_sha_laws: "sha_laws (ref_externals t)"
  by (simp add: sha_laws_def ref_externals_def ref_sha256_def min_def)

lemma ref_uuid_laws: "uuid_laws (ref_externals t)"
  by (simp add: uuid_laws_def ref_externals_def ref_uuid_roundtrip ref_hyphenated_shape)

lemma ref_sig_laws: "sig_laws (ref_externals t)"
  by (auto simp: sig_laws_def ref_externals_def ref_sha256_def Let_def split: if_splits)

lemmas ref_laws = ref_b64_laws ref_sig_laws ref_sha_laws

definition ref_key :: "(bytes \<times> json) list \<Rightarrow> u8 \<Rightarrow> signing_key" where
  "ref_key t x = from_ed25519_seed (ref_externals t) (replicate 32 x)"

lemma ref_key_wf: "sk_wf (ref_externals t) (ref_key t x)"
  unfolding sk_wf_def ref_key_def by (rule disjI1, rule exI [of _ "replicate 32 x"]) simp

definition header_entry :: "string \<Rightarrow> string \<Rightarrow> bytes \<times> json" where
  "header_entry alg typ = (str_bytes (compact_header alg typ), JObj [(''alg'', JStr alg), (''typ'', JStr typ)])"

lemma header_entry_parses:
  "map_of t (fst (header_entry alg typ)) = Some (snd (header_entry alg typ)) \<Longrightarrow>
     header_parses (ref_externals t) alg typ"
  by (simp add: header_parses_def header_entry_def ref_externals_def)

lemma ref_prints:
  "map_of t bs = Some (jcs_sort j) \<Longrightarrow> find (\<lambda>(_, d). d = jcs_sort j) t = Some (bs, jcs_sort j) \<Longrightarrow> bs \<noteq> [] \<Longrightarrow>
     jcs_prints (ref_externals t) j bs"
  by (simp add: jcs_prints_def ref_externals_def)

subsection \<open>Witnesses for the JWS profile\<close>

definition demo_table :: "(bytes \<times> json) list" where
  "demo_table = [header_entry ''EdDSA'' TYP_TCT, ([1], JObj [(''x'', JInt 1)])]"

end
