(* ===== verification/Tct_Witness.thy ===== *)
theory Tct_Witness
  imports Tct_Revocation Ref_Externals
begin

text \<open>
  One issued token, its voucher and its proof of possession over the reference instance
  of the third-party functions, and the properties of the token theories applied to them.
\<close>

subsection \<open>The instance does not depend on its table outside JSON\<close>

lemma ref_indep:
  "thumbprint_ed25519 (ref_externals t) = thumbprint_ed25519 (ref_externals [])"
  "from_ed25519 (ref_externals t) = from_ed25519 (ref_externals [])"
  "ser_v4 (ref_externals t) = ser_v4 (ref_externals [])"
  by (simp_all add: fun_eq_iff thumbprint_ed25519_def from_ed25519_def ser_v4_def ref_externals_def)

definition demo_pk :: "u8 \<Rightarrow> bytes" where
  "demo_pk x = replicate 32 x"

definition demo_aid :: "u8 \<Rightarrow> aid" where
  "demo_aid x = from_ed25519 (ref_externals []) (demo_pk x)"

definition demo_jti :: uuid where
  "demo_jti = [0, 1, 2, 3, 4, 5, 0x46, 7, 0x88, 9, 10, 11, 12, 13, 14, 15]"

definition demo_claims :: tct_claims where
  "demo_claims =
     \<lparr>tct_ver = PROTOCOL_VERSION, tct_jti = demo_jti, tct_iss = demo_aid 1, tct_sub = demo_aid 2, tct_aud = demo_aid 2,
      tct_iat = 1000, tct_exp = 4600, tct_grants = [''demo.echo''],
      tct_cnf = \<lparr>jkt = thumbprint_ed25519 (ref_externals []) (demo_pk 2)\<rparr>, tct_ext = None\<rparr>"

definition demo_texts :: "(bytes \<times> json) list" where
  "demo_texts =
     [header_entry ''EdDSA'' TYP_TCT, header_entry ''EdDSA'' TYP_GRANT_VOUCHER,
      ([1], jcs_sort (ser_tct_claims (ref_externals []) demo_claims)),
      ([2], jcs_sort (ser_voucher_claims (ref_externals []) (voucher_of demo_claims))), header_entry ''EdDSA'' TYP_DELEGATION]"

abbreviation demo_E :: externals where
  "demo_E \<equiv> ref_externals demo_texts"

lemma ser_demo:
  "ser_tct_claims demo_E c = ser_tct_claims (ref_externals []) c"
  "ser_voucher_claims demo_E v = ser_voucher_claims (ref_externals []) v"
  by (simp_all add: ser_tct_claims_def tct_members_def ser_voucher_claims_def voucher_members_def ref_indep [of demo_texts])

lemma demo_sorted_length:
  "\<exists>ms. jcs_sort (ser_tct_claims (ref_externals []) demo_claims) = JObj ms \<and> length ms = 9"
  "\<exists>ms. jcs_sort (ser_voucher_claims (ref_externals []) (voucher_of demo_claims)) = JObj ms \<and> length ms = 7"
  by (simp_all add: ser_tct_claims_def tct_members_def ser_voucher_claims_def voucher_members_def voucher_of_def
      demo_claims_def opt_member_def)

lemma header_entry_fst: "fst (header_entry alg typ) \<noteq> [x]"
  by (simp add: header_entry_def compact_header_def str_bytes_def)

lemma demo_header_text:
  "fst (header_entry ''EdDSA'' TYP_TCT) \<noteq> fst (header_entry ''EdDSA'' TYP_GRANT_VOUCHER)"
  "fst (header_entry ''EdDSA'' TYP_TCT) \<noteq> fst (header_entry ''EdDSA'' TYP_DELEGATION)"
  "fst (header_entry ''EdDSA'' TYP_GRANT_VOUCHER) \<noteq> fst (header_entry ''EdDSA'' TYP_DELEGATION)"
  by (simp_all add: header_entry_def compact_header_def jws_typs)

lemma demo_prints:
  "jcs_prints demo_E (ser_tct_claims demo_E demo_claims) [1]"
  "jcs_prints demo_E (ser_voucher_claims demo_E (voucher_of demo_claims)) [2]"
proof -
  obtain ms where ms: "jcs_sort (ser_tct_claims (ref_externals []) demo_claims) = JObj ms" "length ms = 9"
    using demo_sorted_length(1) by blast
  obtain ns where ns: "jcs_sort (ser_voucher_claims (ref_externals []) (voucher_of demo_claims)) = JObj ns" "length ns = 7"
    using demo_sorted_length(2) by blast
  have ne: "[(''alg'', a), (''typ'', b)] \<noteq> ms" "[(''alg'', a), (''typ'', b)] \<noteq> ns" "ms \<noteq> ns" for a b
    using ms(2) ns(2) by auto
  have texts: "demo_texts = [header_entry ''EdDSA'' TYP_TCT, header_entry ''EdDSA'' TYP_GRANT_VOUCHER, ([1], JObj ms), ([2], JObj ns), header_entry ''EdDSA'' TYP_DELEGATION]"
    by (simp only: demo_texts_def ms(1) ns(1))
  show "jcs_prints demo_E (ser_tct_claims demo_E demo_claims) [1]"
    unfolding ser_demo
    by (rule ref_prints) (simp_all add: ms(1) ns(1) texts ne header_entry_def compact_header_def str_bytes_def)
  show "jcs_prints demo_E (ser_voucher_claims demo_E (voucher_of demo_claims)) [2]"
    unfolding ser_demo
    by (rule ref_prints) (simp_all add: ms(1) ns(1) texts ne header_entry_def compact_header_def str_bytes_def)
qed

subsection \<open>Issuing\<close>

definition demo_key :: "u8 \<Rightarrow> signing_key" where
  "demo_key x = ref_key demo_texts x"

definition demo_builder :: tct_builder where
  "demo_builder =
     (tct_builder_new (key_signer demo_E (demo_key 1)))
       \<lparr>tb_subject := Some (demo_aid 2), tb_audience := Some (demo_aid 2), tb_grants := [''demo.echo''],
        tb_subject_pubkey := Some (VkEd25519 (demo_pk 2)), tb_now_override := Some 1000\<rparr>"

lemma demo_key_aid: "sk_aid (demo_key x) = demo_aid x"
  by (simp add: demo_key_def ref_key_def from_ed25519_seed_def sk_aid_def demo_aid_def demo_pk_def
      ref_indep(2) [of demo_texts])
    (simp add: ref_externals_def)

lemma demo_key_wf: "sk_wf demo_E (demo_key x)"
  by (simp add: demo_key_def ref_key_wf)

lemma demo_pk_length: "length (demo_pk x) = 32"
  by (simp add: demo_pk_def)

lemma demo_aid_props:
  "wf_aid demo_E (demo_aid x)" "pubkey_compressed_bytes demo_E (demo_aid x) = Ok (demo_pk x)"
  "aid_algorithm (demo_aid x) = Ed25519"
proof -
  have a: "demo_aid x = from_ed25519 demo_E (demo_pk x)" by (simp add: demo_aid_def ref_indep(2) [of demo_texts])
  show "wf_aid demo_E (demo_aid x)" "pubkey_compressed_bytes demo_E (demo_aid x) = Ok (demo_pk x)"
    "aid_algorithm (demo_aid x) = Ed25519"
    unfolding a wf_aid_def using from_ed25519_props [OF ref_b64_laws demo_pk_length] by simp_all
qed

lemma demo_aid_inject: "x \<noteq> y \<Longrightarrow> demo_aid x \<noteq> demo_aid y"
  using demo_aid_props(2) [of x] demo_aid_props(2) [of y] by (auto simp: demo_pk_def)

lemma demo_jti_v4: "is_v4 demo_E demo_jti" "length demo_jti = 16"
  by (simp_all add: is_v4_def ref_externals_def demo_jti_def)

lemma demo_draft: "draft demo_E demo_jti 0 demo_builder = Ok (demo_claims, Some (voucher_of demo_claims))"
proof -
  have "demo_aid 2 \<noteq> demo_aid 1" by (rule demo_aid_inject) simp
  then show ?thesis
    using demo_aid_props(2) [of 2]
    by (simp add: draft_def attestation_overrides_def demo_builder_def tct_builder_new_def key_signer_def demo_key_aid
        ATTESTATION_GRANT_def check_grant_def has_whitespace_def to_compressed_def to_jwk_thumbprint_sha256_def
        choose_jti_def Let_def demo_claims_def voucher_of_def ref_indep(1) [of demo_texts]
        saturating_add_def i64_saturating_add_def duration_secs_def i64_try_from_u64_def DEFAULT_TCT_TTL_def clamp_i64_def)
qed

lemma demo_alg: "aid_algorithm (sg_aid (key_signer demo_E (demo_key x))) = Ed25519"
  by (simp add: key_signer_def demo_key_aid demo_aid_props)

lemma demo_headers:
  "header_parses demo_E ''EdDSA'' TYP_TCT" "header_parses demo_E ''EdDSA'' TYP_GRANT_VOUCHER"
  "header_parses demo_E ''EdDSA'' TYP_DELEGATION"
  using demo_header_text header_entry_fst [of "''EdDSA''"]
  by (auto intro!: header_entry_parses simp: demo_texts_def)

lemma demo_issue_env: "issue_env demo_E (tb_issuer_key demo_builder) demo_jti"
  using ref_laws ref_uuid_laws demo_key_wf demo_aid_props(1) demo_jti_v4 demo_headers demo_alg [of 1]
  by (simp add: issue_env_def demo_builder_def tct_builder_new_def jose_alg_def)
    (simp add: key_signer_def demo_key_aid)

lemma demo_builder_wf: "wf_tct_builder demo_E demo_builder"
  by (simp add: wf_tct_builder_def demo_builder_def tct_builder_new_def vk_wf_def demo_pk_length demo_aid_props)
    (simp add: ref_externals_def)

lemma typ_plain_both:
  "\<not> list_ex (\<lambda>b. b = 0x22 \<or> b = 0x5c \<or> b < 0x20) (str_bytes TYP_TCT)"
  "\<not> list_ex (\<lambda>b. b = 0x22 \<or> b = 0x5c \<or> b < 0x20) (str_bytes TYP_GRANT_VOUCHER)"
  by (simp_all add: jws_typs str_bytes_def)

lemma demo_build:
  "\<exists>token voucher. build demo_E demo_jti 0 demo_builder =
     Ok \<lparr>it_token = token, it_claims = demo_claims, it_voucher = Some voucher\<rparr>"
proof -
  have k: "tb_issuer_key demo_builder = key_signer demo_E (demo_key 1)"
    by (simp add: demo_builder_def tct_builder_new_def)
  obtain t1 where "sign_compact demo_E (key_signer demo_E (demo_key 1)) TYP_TCT (ser_tct_claims demo_E demo_claims) = Ok t1"
    using sign_compact_total [OF ref_laws(1,2) demo_key_wf _ typ_plain_both(1)] demo_prints(1)
    unfolding jcs_prints_def by blast
  moreover obtain t2 where "sign_compact demo_E (key_signer demo_E (demo_key 1)) TYP_GRANT_VOUCHER
      (ser_voucher_claims demo_E (voucher_of demo_claims)) = Ok t2"
    using sign_compact_total [OF ref_laws(1,2) demo_key_wf _ typ_plain_both(2)] demo_prints(2)
    unfolding jcs_prints_def by blast
  ultimately show ?thesis by (simp add: build_def demo_draft k)
qed

definition demo_ctx :: "timestamp \<Rightarrow> tct_verify_context" where
  "demo_ctx now =
     \<lparr>expected_audience = demo_aid 2, ctx_issuer = demo_aid 1, ctx_now = now, issuer_manifest_expires_at = Some 5000,
      ctx_revocation = Check (\<lambda>_. Ok Clear), clock_skew = from_secs 0\<rparr>"

definition demo_verified :: "string \<Rightarrow> verified_tct" where
  "demo_verified token = \<lparr>vt_token = token, vt_claims = demo_claims, vt_effective_grants = [''demo.echo'']\<rparr>"

lemma demo_canon: "canon_tct demo_claims = demo_claims"
  by (simp add: canon_tct_def demo_claims_def)

lemma demo_zero: "sint (duration_secs (from_secs 0)) = 0"
  by (simp add: duration_secs_def i64_try_from_u64_def)

lemma demo_issuer: "sg_aid (tb_issuer_key demo_builder) = demo_aid 1"
  by (simp add: demo_builder_def tct_builder_new_def key_signer_def demo_key_aid)

lemma demo_verifies: "\<exists>token. verify_tct demo_E token (demo_ctx 2000) = Ok (demo_verified token)"
proof -
  obtain token voucher where b: "build demo_E demo_jti 0 demo_builder =
      Ok \<lparr>it_token = token, it_claims = demo_claims, it_voucher = Some voucher\<rparr>"
    using demo_build by blast
  obtain vo where dr: "draft demo_E demo_jti 0 demo_builder = Ok (demo_claims, vo)" using demo_draft by blast
  have core: "tct_core_ok demo_E \<lparr>cc_issuer = demo_aid 1, cc_now = 2000, cc_clock_skew = from_secs 0,
      cc_issuer_manifest_expires_at = Some 5000\<rparr> token demo_claims"
    using build_tct_core_ok [OF demo_issue_env demo_builder_wf b, of "[1]" 2000 "from_secs 0" "Some 5000"]
      demo_prints(1) demo_zero
    by (simp add: demo_canon demo_issuer) (simp add: demo_claims_def)
  have "demo_aid 1 \<noteq> demo_aid 2" by (rule demo_aid_inject) simp
  then have "verify_tct demo_E token (demo_ctx 2000) = Ok (demo_verified token)"
    using core
    by (simp add: verify_tct_def verify_tct_before_revocation_def core_verify_Ok grant_context_Ok demo_ctx_def
        demo_verified_def check_revocation_def apply_revocation_def)
      (simp add: demo_claims_def ATTESTATION_GRANT_def)
  then show ?thesis ..
qed

subsection \<open>Witnesses\<close>

theorem verify_tct_grants_bounded_witness:
  "\<exists>token. verify_tct demo_E token (demo_ctx 2000) = Ok (demo_verified token) \<and>
     vt_effective_grants (demo_verified token) \<noteq> [] \<and>
     set (vt_effective_grants (demo_verified token)) \<subseteq> set (tct_grants (vt_claims (demo_verified token)))"
proof -
  obtain token where t: "verify_tct demo_E token (demo_ctx 2000) = Ok (demo_verified token)" using demo_verifies by blast
  from t verify_tct_grants_bounded [OF t] show ?thesis by blast
qed


subsection \<open>A revocation snapshot\<close>

definition demo_list :: revocation_list where
  "demo_list = revocation_list_new (demo_aid 1) 1000 9000 [\<lparr>re_jti = demo_jti, re_revoked_at = 900, re_reason = Some ''k''\<rparr>]"

definition list_texts :: "(bytes \<times> json) list" where
  "list_texts = [([1], jcs_sort (ser_revocation_list (ref_externals []) demo_list))]"

lemma list_E_indep:
  "ser_revocation_list (ref_externals t) l = ser_revocation_list (ref_externals []) l"
  "demo_aid x = sk_aid (ref_key t x)"
  by (simp_all add: ser_revocation_list_def list_members_def ser_entry_def [abs_def] entry_members_def ref_indep(3) [of t])
    (simp add: demo_aid_def demo_pk_def ref_key_def from_ed25519_seed_def sk_aid_def ref_indep(2) [of t], simp add: ref_externals_def)

theorem signed_revocation_list_accepted_witness:
  "\<exists>env env'. sign_revocation_list (ref_externals list_texts) demo_list
       (key_signer (ref_externals list_texts) (ref_key list_texts 1)) = Ok env \<and>
     parse_revocation_snapshot_wire (ref_externals list_texts)
       (CheckedJson (ser_revocation_envelope (ref_externals list_texts) env)) = Ok env' \<and>
     verify_revocation_list (ref_externals list_texts) env' (demo_aid 1) 5000 = Ok ()"
proof -
  let ?E = "ref_externals list_texts" and ?sg = "key_signer (ref_externals list_texts) (ref_key list_texts 1)"
  have aid: "sg_aid ?sg = demo_aid 1" by (simp add: key_signer_def list_E_indep(2) [of 1 list_texts])
  have v4: "is_v4 ?E demo_jti" by (simp add: is_v4_def ref_externals_def demo_jti_def)
  have wa: "wf_aid ?E (demo_aid 1)"
    unfolding list_E_indep(2) [of 1 list_texts] by (rule sk_aid_wf [OF ref_laws(1,2) ref_key_wf])
  have wf: "wf_revocation_list ?E demo_list"
    using wa v4 demo_jti_v4(2) by (simp add: wf_revocation_list_def demo_list_def revocation_list_new_def)
  have "jcs_to_vec ?E (ser_revocation_list ?E demo_list) = Some [1]"
    by (simp add: list_E_indep(1) [of list_texts]) (simp add: ref_externals_def list_texts_def)
  then obtain env where env: "sign_revocation_list ?E demo_list ?sg = Ok env"
    using key_signer_jcs [OF ref_laws(1,2) ref_key_wf [of list_texts 1]] v4
    by (simp add: sign_revocation_list_def revocation_signing_bytes_def canonicalize_def demo_list_def
        revocation_list_new_def)
  have local: "\<forall>k. sg_signing_key ?sg = Some k \<longrightarrow> sk_wf ?E k" by (simp add: key_signer_def ref_key_wf)
  have "\<exists>env'. parse_revocation_snapshot_wire ?E (CheckedJson (ser_revocation_envelope ?E env)) = Ok env' \<and>
      env' = env \<and> verify_revocation_list ?E env' (sg_aid ?sg) 5000 = Ok ()"
    by (rule signed_revocation_list_accepted [OF ref_laws ref_uuid_laws local wf _ _ env])
      (simp_all add: aid, simp_all add: demo_list_def revocation_list_new_def)
  with env aid show ?thesis by metis
qed

end
