(* ===== verification/Manifest_Witness.thy ===== *)
theory Manifest_Witness
  imports Manifest_Build Tct_Witness
begin

text \<open>A Manifest built over the reference instance of the third-party functions.\<close>

definition demo_hint :: identity_hint where
  "demo_hint = \<lparr>ih_kind = Oidc, ih_subject = ''agent'', ih_issuer = Some (RawUrl ''https://idp.example''), ih_public_key = None\<rparr>"

definition demo_manifest_builder :: "u8 \<Rightarrow> manifest_builder" where
  "demo_manifest_builder x =
     accept_identity_type (require (offer (accept_trust_anchor_raw (set_identity_hint
       (handshake_endpoint_raw ((manifest_builder_new (key_signer demo_E (demo_key x)))\<lparr>mb_now_override := Some 1000\<rparr>)
         (RawUrl ''https://a.example/hs'')) demo_hint) (RawUrl ''https://idp.example'')) ''demo.echo'') ''demo.ping'') Oidc"

definition demo_challenge :: bytes where
  "demo_challenge = replicate 16 9"

lemma demo_signer_aid: "sg_aid (key_signer demo_E (demo_key x)) = demo_aid x"
  by (simp add: key_signer_def demo_key_aid)

lemma demo_signer_local: "\<forall>k. sg_signing_key (key_signer demo_E (demo_key x)) = Some k \<longrightarrow> sk_wf demo_E k"
  by (simp add: key_signer_def demo_key_wf)

lemma demo_uris: "is_uri demo_E ''https://idp.example''" "is_https_uri demo_E ''https://a.example/hs''"
  by (simp_all add: is_uri_def uri_parts_def is_https_uri_def starts_with_def rsplit_once_def url_parses_def
      ref_externals_def ref_host_def is_ascii_graphic_def Let_def)

lemmas demo_builder_steps = demo_manifest_builder_def accept_identity_type_def require_def offer_def
  accept_trust_anchor_raw_def set_identity_hint_def handshake_endpoint_raw_def manifest_builder_new_def opt_push_def

lemma demo_manifest_draft:
  "\<exists>d. manifest_draft_of demo_E (Some demo_challenge) 0 (demo_manifest_builder x) = Ok d \<and> body_grammar demo_E False (dr_manifest d)"
  using demo_uris
  by (simp add: manifest_draft_of_def demo_builder_steps validate_identity_hint_def hint_shape_def demo_hint_def Let_def
      body_grammar_def hint_grammar_def is_capability_list_def starts_ecma_space_def i64_values DEFAULT_MANIFEST_TTL_def
      saturating_add_def duration_secs_def i64_saturating_add_def i64_try_from_u64_def)

lemma demo_mb_signer [simp]: "mb_signing_key (demo_manifest_builder x) = key_signer demo_E (demo_key x)"
  by (simp add: demo_builder_steps)

lemma demo_manifest_env:
  "wf_manifest_builder demo_E (demo_manifest_builder x)"
  "builder_in_grammar demo_E (Some demo_challenge) 0 (demo_manifest_builder x)"
  "\<forall>bs. Some demo_challenge = Some bs \<longrightarrow> length bs = 16"
  "\<forall>k. sg_signing_key (mb_signing_key (demo_manifest_builder x)) = Some k \<longrightarrow> sk_wf demo_E k"
proof -
  show "wf_manifest_builder demo_E (demo_manifest_builder x)"
    using sk_aid_wf [OF ref_laws(1,2) demo_key_wf, of x]
    by (simp add: wf_manifest_builder_def demo_signer_aid demo_key_aid wf_ext_def) (simp add: demo_builder_steps)
  show "builder_in_grammar demo_E (Some demo_challenge) 0 (demo_manifest_builder x)"
    using demo_manifest_draft [of x] by (auto simp: builder_in_grammar_def)
qed (simp_all add: demo_challenge_def demo_signer_local)

lemma demo_manifest_built:
  "\<exists>m. build_manifest demo_E (Some demo_challenge) 0 (demo_manifest_builder x) = Ok m \<and> m_expires_at m = 87400"
proof -
  obtain d where d: "manifest_draft_of demo_E (Some demo_challenge) 0 (demo_manifest_builder x) = Ok d"
    using demo_manifest_draft by blast
  have prints: "\<exists>bs. jcs_to_vec demo_E j = Some bs" for j by (simp add: ref_externals_def)
  obtain pop where pop: "signer_sign_jcs demo_E (key_signer demo_E (demo_key x)) (dr_pop_input d) = Ok pop"
    using key_signer_jcs [OF ref_laws(1,2) demo_key_wf] by blast
  obtain m' digest where "with_pop demo_E d pop = Ok (m', digest)"
    using that prints by (simp add: with_pop_def manifest_signing_bytes_def canonicalize_def Let_def) blast
  moreover obtain sig where "signer_sign_jcs demo_E (key_signer demo_E (demo_key x)) digest = Ok sig"
    using key_signer_jcs [OF ref_laws(1,2) demo_key_wf] by blast
  ultimately obtain m where m: "build_manifest demo_E (Some demo_challenge) 0 (demo_manifest_builder x) = Ok m"
    using d pop by (simp add: build_manifest_def)
  have "m_expires_at m = 87400"
    unfolding build_manifest_fields(5) [OF m]
    by (simp add: demo_builder_steps DEFAULT_MANIFEST_TTL_def saturating_add_def duration_secs_def
        i64_saturating_add_def i64_try_from_u64_def Let_def)
  with m show ?thesis by blast
qed

theorem built_manifest_verifies_witness:
  "\<exists>m. build_manifest demo_E (Some demo_challenge) 0 (demo_manifest_builder 1) = Ok m \<and>
     and_then (parse_manifest_wire demo_E (CheckedJson (ser_manifest m)))
       (\<lambda>m'. verify_manifest demo_E m' (manifest_context_at 5000)) = Ok (VerifiedManifest m) \<and>
     and_then (parse_manifest_wire demo_E (CheckedJson (ser_manifest_envelope m)))
       (\<lambda>m'. verify_manifest demo_E m' (manifest_context_at 5000)) = Ok (VerifiedManifest m)"
proof -
  obtain m where m: "build_manifest demo_E (Some demo_challenge) 0 (demo_manifest_builder 1) = Ok m" "m_expires_at m = 87400"
    using demo_manifest_built by blast
  show ?thesis
    using built_manifest_verifies [OF ref_laws demo_manifest_env(4,3,1,2) m(1), of "manifest_context_at 5000"] m
    by (auto simp: manifest_context_at_def)
qed

theorem resolve_verified_newest_witness:
  "\<exists>m m0. resolve_verified_manifest demo_E (resolve_from_list [m, m0]) (demo_aid 1) (manifest_context_at 5000) = Ok m \<and>
     m \<noteq> m0 \<and> m \<in> set [m, m0] \<and> vk_from_aid demo_E (m_aid m) = vk_from_aid demo_E (demo_aid 1) \<and>
     verify_manifest demo_E m (manifest_context_at 5000) = Ok (VerifiedManifest m) \<and>
     sint (m_published_at m0) \<le> sint (m_published_at m)"
proof -
  obtain m where m: "build_manifest demo_E (Some demo_challenge) 0 (demo_manifest_builder 1) = Ok m" "m_expires_at m = 87400"
    using demo_manifest_built by blast
  have aid: "m_aid m = demo_aid 1"
    using build_manifest_fields(2) [OF m(1)] by (simp add: demo_signer_aid)
  have pub: "m_published_at m = 1000"
    using m(1) by (auto simp: build_manifest_def with_pop_def manifest_signing_bytes_def manifest_draft_of_def Let_def
        demo_builder_steps)
  have v: "verify_manifest demo_E m (manifest_context_at 5000) = Ok (VerifiedManifest m)"
    by (rule built_manifest_accepted [OF ref_laws demo_manifest_env(4,3) m(1) demo_manifest_env(2)])
      (simp add: manifest_context_at_def m(2))
  let ?m0 = "m\<lparr>m_published_at := 900\<rparr>"
  have ne: "m \<noteq> ?m0"
  proof
    assume "m = ?m0"
    then have "m_published_at m = m_published_at ?m0" by (rule arg_cong)
    with pub show False by simp
  qed
  have r: "resolve_verified_manifest demo_E (resolve_from_list [m, ?m0]) (demo_aid 1) (manifest_context_at 5000) = Ok m"
    using v by (simp add: published.resolve_verified_iff resolve_from_list_def aid designates_def pub)
  have "sint (m_published_at ?m0) \<le> sint (m_published_at m)"
    using resolve_verified_newest [OF r] by (simp add: aid designates_def)
  moreover have "vk_from_aid demo_E (m_aid m) = vk_from_aid demo_E (demo_aid 1)"
    using resolve_verified_newest [OF r] by blast
  ultimately show ?thesis using r ne v by (intro exI [of _ m] exI [of _ ?m0]) simp
qed

end
