(* ===== verification/Envelope_Witness.thy ===== *)
theory Envelope_Witness
  imports Envelope Manifest_Witness
begin

text \<open>Signed envelopes over the reference instance of the third-party functions.\<close>

definition demo_envelope :: aitp_envelope where
  "demo_envelope = envelope_unsigned (demo_aid 1) MutualHello (JObj [(''x'', JInt 1)]) demo_jti 1000"

lemma demo_wf_aid: "wf_aid demo_E (demo_aid x)"
  using sk_aid_wf [OF ref_laws(1,2) demo_key_wf, of x] by (simp add: demo_key_aid)

lemma demo_wf_envelope: "wf_envelope demo_E demo_envelope"
  using demo_wf_aid demo_jti_v4(2) by (simp add: demo_envelope_def envelope_unsigned_def wf_envelope_def)

lemma demo_jcs_some: "\<exists>bs. jcs_to_vec (ref_externals t) j = Some bs"
  by (simp add: ref_externals_def)

theorem signed_envelope_accepted_witness:
  "\<exists>e' vk. sign_prepared_envelope demo_E (key_signer demo_E (demo_key 1)) demo_envelope = Ok e' \<and>
     vk_from_aid demo_E (agent_id (ev_sender e')) = Ok vk \<and>
     parse_envelope_wire demo_E (CheckedJson (ser_envelope demo_E e')) = Ok e' \<and>
     verify_envelope_signature demo_E e' vk = Ok ()"
proof -
  obtain d where d: "envelope_digest demo_E (demo_aid 1) demo_envelope = Ok d"
    using demo_jti_v4(1) demo_jcs_some [of demo_texts "envelope_without_signature demo_E demo_envelope"]
    by (auto simp: envelope_digest_def demo_envelope_def envelope_unsigned_def check_unsigned_envelope_structure_def
        envelope_signing_digest_def envelope_signing_input_def canonicalize_def)
  then obtain e' where e': "sign_prepared_envelope demo_E (key_signer demo_E (demo_key 1)) demo_envelope = Ok e'"
    using key_signer_jcs [OF ref_laws(1,2) demo_key_wf] by (simp add: sign_prepared_envelope_def demo_signer_aid)
  from e' signed_envelope_accepted [OF ref_laws ref_uuid_laws demo_signer_local demo_wf_envelope e']
  show ?thesis by blast
qed

lemma ref_jcs_faithful: "jcs_faithful (ref_externals [])"
  by (auto simp: jcs_faithful_def ref_externals_def dest: enc_json_inject)

theorem envelope_signing_input_binds_witness:
  "\<exists>input. let E = ref_externals []; a = demo_envelope; b = demo_envelope\<lparr>ev_signature := ''forged''\<rparr> in
     a \<noteq> b \<and> envelope_signing_input E a = Some input \<and> envelope_signing_input E b = Some input \<and>
     ev_message_id a = ev_message_id b \<and> jcs_sort (ev_payload a) = jcs_sort (ev_payload b)"
proof -
  let ?E = "ref_externals []" and ?b = "demo_envelope\<lparr>ev_signature := ''forged''\<rparr>"
  have "wf_aid ?E (demo_aid 1)"
    unfolding list_E_indep(2) [of 1 "[]"] by (rule sk_aid_wf [OF ref_laws(1,2) ref_key_wf])
  then have wf: "wf_envelope ?E demo_envelope" "wf_envelope ?E ?b"
    using demo_jti_v4(2) by (simp_all add: demo_envelope_def envelope_unsigned_def wf_envelope_def)
  have view: "envelope_without_signature ?E ?b = envelope_without_signature ?E demo_envelope"
    by (simp add: envelope_without_signature_def env_members_def)
  have safe: "json_safe (envelope_without_signature ?E demo_envelope)"
    by (simp add: envelope_without_signature_def env_members_def demo_envelope_def envelope_unsigned_def ser_sender_def
        ser_aid_def ser_v4_def ser_time_def opt_member_def)
  obtain input where i: "envelope_signing_input ?E demo_envelope = Some input"
    using that demo_jcs_some [of "[]" "envelope_without_signature ?E demo_envelope"]
    by (auto simp: envelope_signing_input_def canonicalize_def)
  have ib: "envelope_signing_input ?E ?b = Some input"
    using i by (simp only: envelope_signing_input_def view)
  have ne: "demo_envelope \<noteq> ?b"
  proof
    assume "demo_envelope = ?b"
    then have "ev_signature demo_envelope = ev_signature ?b" by (rule arg_cong)
    then show False by (simp add: demo_envelope_def envelope_unsigned_def)
  qed
  show ?thesis
    using envelope_signing_input_binds [OF ref_jcs_faithful ref_uuid_laws wf safe _ i ib] safe i ib ne
    by (simp only: Let_def view) blast
qed

end
