(* ===== verification/Handshake_Witness.thy ===== *)
theory Handshake_Witness
  imports Handshake_Live Envelope_Witness
begin

text \<open>A handshake of two pinned-key peers over the reference instance of the third-party functions.\<close>

subsection \<open>The peers\<close>

lemma demo_reads: "jcs_reads demo_E"
proof -
  have ne: "enc_json j \<noteq> str_bytes (compact_header alg ty)" "enc_json j \<noteq> [1]" "enc_json j \<noteq> [2]" for j alg ty
    by (cases j; simp add: compact_header_def str_bytes_def enc_nat_def enc_str_def)+
  have "\<exists>bs. jcs_prints demo_E j bs" for j
  proof (cases "find (\<lambda>(_, d). d = jcs_sort j) demo_texts")
    case None
    have "map_of demo_texts (enc_json (jcs_sort j)) = None"
      using ne by (simp add: demo_texts_def header_entry_def)
    then have "jcs_prints demo_E j (enc_json (jcs_sort j))"
      using None dec_enc_json [of "jcs_sort j" _ "[]"] enc_json_nonempty
      by (simp add: jcs_prints_def ref_externals_def)
    then show ?thesis ..
  next
    case (Some t)
    then obtain bs where t: "find (\<lambda>(_, d). d = jcs_sort j) demo_texts = Some (bs, jcs_sort j)" "(bs, jcs_sort j) \<in> set demo_texts"
      by (cases t) (auto simp: find_Some_iff, metis nth_mem)
    have "distinct (map fst demo_texts)" "\<forall>x\<in>set demo_texts. fst x \<noteq> []"
      using demo_header_text header_entry_fst [of "''EdDSA''"] header_entry_fst [of "''EdDSA''", symmetric]
      by (auto simp: demo_texts_def, auto simp: header_entry_def compact_header_def str_bytes_def)
    with t have "jcs_prints demo_E j bs" by (intro ref_prints) auto
    then show ?thesis ..
  qed
  then show ?thesis by (simp add: jcs_reads_def)
qed

lemma demo_sec1: "sec1_laws demo_E"
  by (auto simp: sec1_laws_def ref_externals_def split: if_splits)

definition demo_pinned_builder :: "u8 \<Rightarrow> manifest_builder" where
  "demo_pinned_builder x =
     accept_identity_type (offer (set_identity_hint
       (handshake_endpoint_raw ((manifest_builder_new (key_signer demo_E (demo_key x)))\<lparr>mb_now_override := Some 1000\<rparr>)
         (RawUrl ''https://a.example/hs''))
       \<lparr>ih_kind = PinnedKey, ih_subject = ''agent'', ih_issuer = None, ih_public_key = Some (replicate 43 CHR ''A'')\<rparr>)
       ''demo.echo'') PinnedKey"

lemmas demo_pinned_steps = demo_pinned_builder_def accept_identity_type_def offer_def
  set_identity_hint_def handshake_endpoint_raw_def manifest_builder_new_def opt_push_def

lemma demo_pinned_draft:
  "\<exists>d. manifest_draft_of demo_E (Some demo_challenge) 0 (demo_pinned_builder x) = Ok d \<and> body_grammar demo_E False (dr_manifest d)"
  using demo_uris
  by (simp add: manifest_draft_of_def demo_pinned_steps validate_identity_hint_def hint_shape_def Let_def
      body_grammar_def hint_grammar_def is_capability_list_def starts_ecma_space_def i64_values DEFAULT_MANIFEST_TTL_def
      saturating_add_def duration_secs_def i64_saturating_add_def i64_try_from_u64_def is_base64url_byte_eq
      list_all_iff is_base64url_byte_def)

lemma demo_pinned_signer [simp]: "mb_signing_key (demo_pinned_builder x) = key_signer demo_E (demo_key x)"
  by (simp add: demo_pinned_steps)

lemma demo_pinned_manifest:
  "\<exists>m. build_manifest demo_E (Some demo_challenge) 0 (demo_pinned_builder x) = Ok m \<and>
     (\<forall>insecure. verify_manifest demo_E m \<lparr>mc_now = 2000, mc_insecure_localhost = insecure\<rparr> = Ok (VerifiedManifest m)) \<and>
     m_aid m = demo_aid x \<and> m_expires_at m = 87400 \<and> m_offered_capabilities m = [''demo.echo''] \<and>
     m_required_peer_capabilities m = None \<and> m_accepted_identity_types m = Some [''pinned_key''] \<and>
     ih_kind (m_identity_hint m) = PinnedKey \<and> ih_subject (m_identity_hint m) = ''agent''"
proof -
  obtain d where d: "manifest_draft_of demo_E (Some demo_challenge) 0 (demo_pinned_builder x) = Ok d"
      "body_grammar demo_E False (dr_manifest d)"
    using demo_pinned_draft by blast
  obtain pop where pop: "signer_sign_jcs demo_E (key_signer demo_E (demo_key x)) (dr_pop_input d) = Ok pop"
    using key_signer_jcs [OF ref_laws(1,2) demo_key_wf] by blast
  obtain m' digest where "with_pop demo_E d pop = Ok (m', digest)"
    using that demo_jcs_some by (simp add: with_pop_def manifest_signing_bytes_def canonicalize_def Let_def) blast
  moreover obtain sig where "signer_sign_jcs demo_E (key_signer demo_E (demo_key x)) digest = Ok sig"
    using key_signer_jcs [OF ref_laws(1,2) demo_key_wf] by blast
  ultimately obtain m where m: "build_manifest demo_E (Some demo_challenge) 0 (demo_pinned_builder x) = Ok m"
    using d pop by (simp add: build_manifest_def)
  have e: "m_expires_at m = 87400"
    unfolding build_manifest_fields(5) [OF m]
    by (simp add: demo_pinned_steps DEFAULT_MANIFEST_TTL_def saturating_add_def duration_secs_def
        i64_saturating_add_def i64_try_from_u64_def Let_def)
  have "builder_in_grammar demo_E (Some demo_challenge) 0 (demo_pinned_builder x)"
    using d by (simp add: builder_in_grammar_def)
  then have "verify_manifest demo_E m \<lparr>mc_now = 2000, mc_insecure_localhost = insecure\<rparr> = Ok (VerifiedManifest m)" for insecure
    using built_manifest_accepted [OF ref_laws _ _ m] demo_signer_local e by (simp add: demo_challenge_def)
  moreover have "m_required_peer_capabilities m = None" "m_accepted_identity_types m = Some [''pinned_key'']"
      "ih_kind (m_identity_hint m) = PinnedKey" "ih_subject (m_identity_hint m) = ''agent''"
    using m by (auto simp: build_manifest_def with_pop_def manifest_signing_bytes_def manifest_draft_of_def Let_def
        demo_pinned_steps)
  ultimately show ?thesis
    using m e build_manifest_fields(2,4) [OF m] demo_signer_aid by (auto simp: demo_pinned_steps)
qed

definition demo_cfg :: "manifest \<Rightarrow> u8 \<Rightarrow> u8 \<Rightarrow> peer_config" where
  "demo_cfg m x y =
     peer_config_new (key_signer demo_E (demo_key x)) m (\<lambda>_. Ok []) (\<lambda>k. k = sk_verifying_key demo_E (demo_key y)) FailOpen 2000"

lemmas demo_cfg_defs = demo_cfg_def peer_config_new_def

lemma demo_cfg_fields [simp]:
  "pc_now (demo_cfg m x y) = 2000" "pc_manifest (demo_cfg m x y) = m"
  by (simp_all add: demo_cfg_defs)

lemma demo_peers:
  obtains m1 m2 where "honest_peer demo_E (demo_cfg m1 1 2) (demo_key 1) ''agent''" "honest_peer demo_E (demo_cfg m2 2 1) (demo_key 2) ''agent''"
    and "trusts demo_E (demo_cfg m1 1 2) (demo_cfg m2 2 1)" "trusts demo_E (demo_cfg m2 2 1) (demo_cfg m1 1 2)"
    and "grantable (demo_cfg m1 1 2) (demo_cfg m2 2 1) [''demo.echo'']" "grantable (demo_cfg m2 2 1) (demo_cfg m1 1 2) [''demo.echo'']"
    and "m_expires_at m1 = 87400" "m_expires_at m2 = 87400" "m_offered_capabilities m1 = [''demo.echo'']" "m_offered_capabilities m2 = [''demo.echo'']"
    and "m_aid m1 = demo_aid 1" "m_aid m2 = demo_aid 2"
proof -
  obtain m1 m2 where m:
      "\<forall>insecure. verify_manifest demo_E m1 \<lparr>mc_now = 2000, mc_insecure_localhost = insecure\<rparr> = Ok (VerifiedManifest m1)"
      "m_aid m1 = demo_aid 1" "m_expires_at m1 = 87400" "m_offered_capabilities m1 = [''demo.echo'']"
      "m_required_peer_capabilities m1 = None" "m_accepted_identity_types m1 = Some [''pinned_key'']"
      "ih_kind (m_identity_hint m1) = PinnedKey" "ih_subject (m_identity_hint m1) = ''agent''"
      "\<forall>insecure. verify_manifest demo_E m2 \<lparr>mc_now = 2000, mc_insecure_localhost = insecure\<rparr> = Ok (VerifiedManifest m2)"
      "m_aid m2 = demo_aid 2" "m_expires_at m2 = 87400" "m_offered_capabilities m2 = [''demo.echo'']"
      "m_required_peer_capabilities m2 = None" "m_accepted_identity_types m2 = Some [''pinned_key'']"
      "ih_kind (m_identity_hint m2) = PinnedKey" "ih_subject (m_identity_hint m2) = ''agent''"
    using demo_pinned_manifest [of 1] demo_pinned_manifest [of 2] by blast
  have vk: "vk_from_aid demo_E (demo_aid x) = Ok (sk_verifying_key demo_E (demo_key x))" for x
    using vk_from_sk_aid [OF ref_laws(1,2) demo_key_wf, of x] by (simp add: demo_key_aid)
  have alg: "jose_alg (aid_algorithm (demo_aid x)) = ''EdDSA''" for x
    by (simp add: demo_aid_props jose_alg_def)
  have ws: "\<not> has_whitespace ''demo.echo''" "ATTESTATION_GRANT \<noteq> ''demo.echo''"
    by (simp_all add: has_whitespace_def ATTESTATION_GRANT_def)
  show thesis
    by (rule that [of m1 m2])
      (use m vk alg ws demo_headers demo_key_wf in
        \<open>simp_all add: honest_peer_def trusts_def grantable_def granted_def demo_cfg_defs demo_key_aid
          check_identity_type_compatibility_def check_revocation_def apply_revocation_def\<close>)
qed

definition demo_env :: "u8 \<Rightarrow> aitp_envelope" where
  "demo_env x = envelope_unsigned (demo_aid x) MutualHello JNull demo_jti 2000"

lemma demo_env_sender [simp]: "agent_id (ev_sender (demo_env x)) = demo_aid x"
  by (simp add: demo_env_def envelope_unsigned_def)

text \<open>The run of \<open>honest_run\<close> between the two peers, as one fact that the witnesses share.\<close>

definition demo_run ::
  "manifest \<Rightarrow> manifest \<Rightarrow> initiator_state \<Rightarrow> mutual_hello_payload \<Rightarrow> responder_state \<Rightarrow> mutual_hello_ack_payload \<Rightarrow>
   mutual_commit_payload \<Rightarrow> initiator_state \<Rightarrow> mutual_commit_ack_payload \<Rightarrow> completed_handshake \<Rightarrow> completed_handshake \<Rightarrow> bool" where
  "demo_run m1 m2 st hello rst hello_ack commit st' commit_ack ch2 ch1 \<longleftrightarrow>
     initiator_start demo_E demo_jti (Some (replicate 16 3)) (demo_cfg m1 1 2) (PresentPinnedKey ''agent'') (demo_aid 2) demo_jti 2000
       [''demo.echo''] = Ok (st, hello) \<and>
     on_hello demo_E demo_jti (Some (replicate 16 4)) (demo_env 1) hello (PresentPinnedKey ''agent'') demo_jti 2000 (demo_cfg m2 2 1)
       [''demo.echo''] = Ok (rst, hello_ack) \<and>
     on_hello_ack demo_E demo_jti st (demo_env 2) hello_ack (demo_cfg m1 1 2) = (Ok commit, st') \<and>
     on_commit demo_E demo_jti rst (demo_env 1) commit (demo_cfg m2 2 1) = (Ok (commit_ack, ch2), RDone) \<and>
     on_commit_ack demo_E st' (demo_env 2) commit_ack (demo_cfg m1 1 2) = (Ok ch1, IDone) \<and>
     ch_effective_grants ch2 = [''demo.echo''] \<and> ch_effective_grants ch1 = [''demo.echo''] \<and>
     m_aid m1 = demo_aid 1 \<and> m_aid m2 = demo_aid 2"

lemma demo_env_ids [simp]: "ev_message_id (demo_env x) = demo_jti" "ev_timestamp (demo_env x) = 2000"
  by (simp_all add: demo_env_def envelope_unsigned_def)

lemma demo_keys_differ: "sk_aid (demo_key 1) \<noteq> sk_aid (demo_key 2)"
  by (simp add: demo_key_aid demo_aid_inject)

lemmas demo_run_inputs = demo_key_aid granted_def demo_run_def

lemma demo_run_exists:
  "\<exists>m1 m2 st hello rst hello_ack commit st' commit_ack ch2 ch1.
     demo_run m1 m2 st hello rst hello_ack commit st' commit_ack ch2 ch1"
proof -
  obtain m1 m2 where h: "honest_peer demo_E (demo_cfg m1 1 2) (demo_key 1) ''agent''" "honest_peer demo_E (demo_cfg m2 2 1) (demo_key 2) ''agent''"
    and t: "trusts demo_E (demo_cfg m1 1 2) (demo_cfg m2 2 1)" "trusts demo_E (demo_cfg m2 2 1) (demo_cfg m1 1 2)"
    and g: "grantable (demo_cfg m1 1 2) (demo_cfg m2 2 1) [''demo.echo'']" "grantable (demo_cfg m2 2 1) (demo_cfg m1 1 2) [''demo.echo'']"
    and e: "m_expires_at m1 = 87400" "m_expires_at m2 = 87400" "m_offered_capabilities m1 = [''demo.echo'']" "m_offered_capabilities m2 = [''demo.echo'']"
    and a: "m_aid m1 = demo_aid 1" "m_aid m2 = demo_aid 2"
    by (rule demo_peers)
  have "\<exists>st hello rst hello_ack commit st' commit_ack ch2 ch1. demo_run m1 m2 st hello rst hello_ack commit st' commit_ack ch2 ch1"
    using honest_run [OF ref_laws ref_uuid_laws demo_sec1 demo_reads h demo_keys_differ t g, of 2000 "replicate 16 3" "replicate 16 4" demo_jti demo_jti
        "demo_env 1" "demo_env 2" "demo_env 1" "demo_env 2" demo_jti demo_jti]
      demo_jti_v4 e a
    by (simp add: demo_run_inputs)
  then show ?thesis by blast
qed

subsection \<open>Witnesses\<close>



theorem responder_completes_with_authenticated_peer_witness:
  "\<exists>m1 m2 st hello rst hello_ack commit st' commit_ack ch2 ch1 key.
     demo_run m1 m2 st hello rst hello_ack commit st' commit_ack ch2 ch1 \<and>
     verify_pop demo_E key (mha_pop_nonce hello_ack) (mc_pop_signature commit) = Ok ()"
proof -
  obtain m1 m2 st hello rst hello_ack commit st' commit_ack ch2 ch1 where
    r: "demo_run m1 m2 st hello rst hello_ack commit st' commit_ack ch2 ch1"
    using demo_run_exists by blast
  then have h: "on_hello demo_E demo_jti (Some (replicate 16 4)) (demo_env 1) hello (PresentPinnedKey ''agent'') demo_jti 2000 (demo_cfg m2 2 1)
       [''demo.echo''] = Ok (rst, hello_ack)"
    and c: "on_commit demo_E demo_jti rst (demo_env 1) commit (demo_cfg m2 2 1) = (Ok (commit_ack, ch2), RDone)"
    and m: "m_aid (mh_manifest hello) = demo_aid 1"
    by (auto simp: demo_run_def initiator_start_def demo_cfg_defs)
  have "wf_aid demo_E (m_aid (mh_manifest hello))" by (simp add: m demo_aid_props)
  from responder_completes_with_authenticated_peer [OF this h responder_reaches.start c] r show ?thesis by blast
qed

theorem issued_tct_bounds_witness:
  "\<exists>m2 d k issued. issue_tct_for_peer demo_E demo_jti (demo_cfg m2 2 1) d (demo_aid 1) k [''demo.echo''] = Ok issued \<and>
     set (tct_grants (it_claims issued)) \<subseteq> {''demo.echo''} \<and> tct_iat (it_claims issued) = 2000 \<and>
     sint (tct_exp (it_claims issued)) \<le> 5600"
proof -
  obtain m1 m2 st hello rst hello_ack commit st' commit_ack ch2 ch1 where
    r: "demo_run m1 m2 st hello rst hello_ack commit st' commit_ack ch2 ch1"
    using demo_run_exists by blast
  then have m: "mh_manifest hello = m1" "mh_requested_grants hello = [''demo.echo'']" "m_aid m1 = demo_aid 1"
    by (auto simp: demo_run_def initiator_start_def demo_cfg_defs)
  obtain d k issued where i: "issue_tct_for_peer demo_E demo_jti (demo_cfg m2 2 1) d (demo_aid 1) k [''demo.echo''] = Ok issued"
    using r m by (auto simp: demo_run_def on_commit_Ok on_hello_def)
  from issued_tct_bounds [OF i] i show ?thesis by (auto simp: demo_cfg_defs)
qed

theorem pinned_key_proof_binds_tuple_witness:
  "\<exists>input. let n = encode demo_E (replicate 16 3) in
     pinned_key_proof_input demo_E (demo_aid 1) (demo_aid 2) demo_jti 2000 n = Ok input \<and>
     decode_strict demo_E n = Ok (replicate 16 3) \<and>
     pinned_key_proof_input demo_E (demo_aid 1) (demo_aid 3) demo_jti 2000 n \<noteq> Ok input"
proof -
  let ?n = "encode demo_E (replicate 16 3)"
  have n: "decode_strict demo_E ?n = Ok (replicate 16 3)" by (rule decode_strict_encode [OF ref_b64_laws])
  obtain input where i: "pinned_key_proof_input demo_E (demo_aid 1) (demo_aid 2) demo_jti 2000 ?n = Ok input"
    using n by (auto simp: pinned_key_proof_input_def handshake_proof_input_Ok)
  have "pinned_key_proof_input demo_E (demo_aid 1) (demo_aid 3) demo_jti 2000 ?n \<noteq> Ok input"
  proof
    assume "pinned_key_proof_input demo_E (demo_aid 1) (demo_aid 3) demo_jti 2000 ?n = Ok input"
    from pinned_key_proof_binds_tuple [OF ref_uuid_laws demo_aid_props(1) demo_aid_props(1) demo_aid_props(1) demo_aid_props(1)
        demo_jti_v4(2) demo_jti_v4(2) i this] demo_aid_inject [of 2 3] show False by simp
  qed
  with i n show ?thesis by (auto simp: Let_def)
qed

theorem verify_pinned_key_accepts_exactly_witness:
  "\<exists>d v input sig. let n = encode demo_E (replicate 16 3); key = sk_verifying_key demo_E (demo_key 1) in
     verify_pinned_key demo_E d
       \<lparr>pk_sender_aid = demo_aid 1, pk_receiver_aid = demo_aid 2, pk_message_id = demo_jti, pk_timestamp = 2000,
        pk_pop_nonce = n, pk_subject = Unchecked\<rparr> (\<lambda>k. k = key) = Ok v \<and>
     pinned_key_proof_input demo_E (demo_aid 1) (demo_aid 2) demo_jti 2000 n = Ok input \<and>
     signature_parse (id_proof d) = Ok sig \<and> verify_jcs demo_E key (sha256 demo_E input) sig = Ok ()"
proof -
  let ?n = "encode demo_E (replicate 16 3)" and ?key = "sk_verifying_key demo_E (demo_key 1)"
  let ?ctx = "\<lparr>pk_sender_aid = demo_aid 1, pk_receiver_aid = demo_aid 2, pk_message_id = demo_jti, pk_timestamp = 2000,
      pk_pop_nonce = ?n, pk_subject = Unchecked\<rparr>"
  obtain d v where v: "verify_pinned_key demo_E d ?ctx (\<lambda>k. k = ?key) = Ok v"
    using present_pinned_key [where store = "\<lambda>k. k = ?key" and r = "demo_aid 2" and i = demo_jti and t = 2000 and nonce = ?n
          and k = "demo_key 1" and s = "''agent''", OF ref_laws demo_key_wf decode_strict_encode [OF ref_b64_laws]]
    by (auto simp: demo_key_aid is_ok_iff)
  have "wf_aid demo_E (pk_sender_aid ?ctx)" by (simp add: demo_aid_props)
  from v [unfolded verify_pinned_key_accepts_exactly [OF this]] v show ?thesis
    by (auto simp: Let_def)
qed

end
