(* ===== verification/Delegation_Witness.thy ===== *)
theory Delegation_Witness
  imports Delegation Handshake_Witness
begin

text \<open>
  A delegation over the reference instance: peer 1 issued a token with a voucher to peer 2, who
  delegates to peer 3, and peer 1 verifies with the Manifest of peer 2.
\<close>

definition demo_delegation_ctx :: "manifest \<Rightarrow> delegation_verify_context" where
  "demo_delegation_ctx m =
     with_issuer_manifests (delegation_context_new (demo_aid 1) 2000 (Check (\<lambda>_. Ok Clear))) (resolve_from_list [m])"

lemma demo_tb: "tb_issuer_key demo_builder = key_signer demo_E (demo_key 1)"
  by (simp add: demo_builder_def tct_builder_new_def)

lemma demo_voucher_signed:
  assumes "build demo_E demo_jti 0 demo_builder = Ok \<lparr>it_token = token, it_claims = demo_claims, it_voucher = Some voucher\<rparr>"
  shows "signed_document demo_E (demo_aid 1) TYP_GRANT_VOUCHER voucher
    (jcs_sort (ser_voucher_claims demo_E (voucher_of demo_claims)))"
proof -
  have tok: "sign_compact demo_E (key_signer demo_E (demo_key 1)) TYP_GRANT_VOUCHER
      (ser_voucher_claims demo_E (voucher_of demo_claims)) = Ok voucher"
    using assms by (auto simp: build_def demo_draft demo_tb)
  have hp: "header_parses demo_E (jose_alg (aid_algorithm (sg_aid (key_signer demo_E (demo_key 1))))) TYP_GRANT_VOUCHER"
    using demo_headers(2) by (simp add: demo_key_aid demo_aid_props jose_alg_def)
  have "unique_keys (ser_voucher_claims demo_E (voucher_of demo_claims))"
    by (simp add: ser_voucher_claims_def voucher_members_def voucher_of_def opt_member_def ser_aid_def ser_time_def ser_v4_def
        ser_strings_def list_all_iff)
  then have "signed_document demo_E (sg_aid (key_signer demo_E (demo_key 1))) TYP_GRANT_VOUCHER voucher
      (jcs_sort (ser_voucher_claims demo_E (voucher_of demo_claims)))"
    using sign_compact_signed_document [OF ref_laws demo_signer_local hp] demo_prints(2) tok
    unfolding ser_voucher_claims_def by blast
  then show ?thesis by (simp add: demo_key_aid)
qed

lemma demo_delegation:
  obtains token voucher b\<^sub>0 d m payload
  where "build demo_E demo_jti 0 demo_builder = Ok \<lparr>it_token = token, it_claims = demo_claims, it_voucher = Some voucher\<rparr>"
    and "rooted_in_voucher demo_E (key_signer demo_E (demo_key 2)) voucher = Ok b\<^sub>0"
    and "build_delegation demo_E 0 (b\<^sub>0\<lparr>db_delegatee := Some (demo_aid 3), db_scope := [''demo.echo''], db_ttl := from_secs 600,
      db_now_override := Some 2000\<rparr>) = Ok d"
    and "jcs_prints demo_E (ser_delegation_claims demo_E (idl_claims d)) payload" "dl_exp (idl_claims d) = 2600"
    and "resolve_verified_manifest demo_E (resolve_from_list [m]) (demo_aid 2) \<lparr>mc_now = 2000, mc_insecure_localhost = False\<rparr> = Ok m"
proof -
  obtain token voucher where b: "build demo_E demo_jti 0 demo_builder = Ok \<lparr>it_token = token, it_claims = demo_claims, it_voucher = Some voucher\<rparr>"
    using demo_build by blast
  have v: "verify_voucher demo_E voucher (demo_aid 1) = Ok (voucher_of demo_claims)"
    using build_voucher_verifies [OF demo_issue_env demo_builder_wf b, of voucher "[2]"] demo_prints(2) demo_issuer by simp
  note sd = demo_voucher_signed [OF b]
  have sub: "gv_sub (voucher_of demo_claims) = sg_aid (key_signer demo_E (demo_key 2))"
    by (simp add: voucher_of_def demo_claims_def demo_key_aid)
  have de: "de_voucher_claims demo_E (jcs_sort (ser_voucher_claims demo_E (voucher_of demo_claims))) = Ok (voucher_of demo_claims)"
    using v sd by (auto simp: verify_voucher_def signed_document_def)
  have uk: "unique_keys (jcs_sort (ser_voucher_claims demo_E (voucher_of demo_claims)))"
    by (rule unique_keys_jcs_sort)
      (simp add: ser_voucher_claims_def voucher_members_def voucher_of_def opt_member_def ser_aid_def ser_time_def ser_v4_def
        ser_strings_def list_all_iff)
  obtain b0 where b0: "rooted_in_voucher demo_E (key_signer demo_E (demo_key 2)) voucher = Ok b0"
    using rooted_in_voucher_total [OF sd uk de sub] by blast
  note r = rooted_in_voucher_Ok [OF b0 v]
  let ?b = "b0\<lparr>db_delegatee := Some (demo_aid 3), db_scope := [''demo.echo''], db_ttl := from_secs 600, db_now_override := Some 2000\<rparr>"
  have vk: "vk_from_aid demo_E (demo_aid 3) = Ok (sk_verifying_key demo_E (demo_key 3))"
    using vk_from_sk_aid [OF ref_laws(1,2) demo_key_wf, of 3] by (simp add: demo_key_aid)
  obtain t where t: "to_jwk_thumbprint_sha256 demo_E (sk_verifying_key demo_E (demo_key 3)) = Ok t"
    using sk_thumbprint [OF demo_sec1 demo_key_wf] by blast
  obtain c where c: "delegation_draft demo_E 0 ?b = Ok c"
    using r vk t demo_aid_inject [of 2 3]
    by (simp add: delegation_draft_def Let_def demo_key_aid voucher_of_def demo_claims_def)
  note dc = delegation_draft_Ok [OF c]
  have e: "sint (dl_exp c) = 2600"
    unfolding dc(11) using r by (simp add: voucher_of_def demo_claims_def sint_saturating_add sint_duration_secs)
  then have exp: "dl_exp c = 2600" by (intro i64_sint_eqI) simp
  have safe: "json_safe (ser_delegation_claims demo_E c)"
    using e dc(9,10) by (simp add: ser_delegation_claims_def delegation_members_def ser_aid_def ser_time_def ser_strings_def
        opt_member_def list_all_iff)
  obtain payload where p: "jcs_prints demo_E (ser_delegation_claims demo_E c) payload"
    using demo_reads safe unique_keys_ser_delegation [OF dc(10)] unfolding jcs_reads_def by blast
  have "\<not> list_ex (\<lambda>b. b = 0x22 \<or> b = 0x5c \<or> b < 0x20) (str_bytes TYP_DELEGATION)"
    by (simp add: jws_typs str_bytes_def)
  then obtain tok where "sign_compact demo_E (key_signer demo_E (demo_key 2)) TYP_DELEGATION (ser_delegation_claims demo_E c) = Ok tok"
    using sign_compact_total [OF ref_laws(1,2) demo_key_wf, of _ payload TYP_DELEGATION 2] p unfolding jcs_prints_def by blast
  then have d: "build_delegation demo_E 0 ?b = Ok \<lparr>idl_token = tok, idl_claims = c\<rparr>"
    using c r by (simp add: build_delegation_def)
  obtain m where m: "m_aid m = demo_aid 2"
      "verify_manifest demo_E m \<lparr>mc_now = 2000, mc_insecure_localhost = False\<rparr> = Ok (VerifiedManifest m)"
    using demo_pinned_manifest [of 2] by blast
  have "resolve_verified_manifest demo_E (resolve_from_list [m]) (demo_aid 2) \<lparr>mc_now = 2000, mc_insecure_localhost = False\<rparr> = Ok m"
    using m by (simp add: published.resolve_verified_iff resolve_from_list_def designates_def)
  with that b b0 d p exp show thesis by simp
qed

lemma demo_delegation_header:
  "header_parses demo_E (jose_alg (aid_algorithm (sg_aid (key_signer demo_E (demo_key x))))) TYP_DELEGATION"
  using demo_headers(3) by (simp add: demo_key_aid demo_aid_props jose_alg_def)

lemma demo_delegation_accepted:
  "\<exists>(d :: issued_delegation) m. verify_delegation demo_E (idl_token d) (demo_delegation_ctx m) =
     Ok \<lparr>vd_token = idl_token d, vd_claims = idl_claims d, vd_voucher = voucher_of demo_claims, vd_effective_grants = [''demo.echo'']\<rparr>"
proof -
  obtain token voucher b\<^sub>0 d m payload
  where b: "build demo_E demo_jti 0 demo_builder = Ok \<lparr>it_token = token, it_claims = demo_claims, it_voucher = Some voucher\<rparr>"
    and r: "rooted_in_voucher demo_E (key_signer demo_E (demo_key 2)) voucher = Ok b\<^sub>0"
    and d: "build_delegation demo_E 0 (b\<^sub>0\<lparr>db_delegatee := Some (demo_aid 3), db_scope := [''demo.echo''], db_ttl := from_secs 600,
      db_now_override := Some 2000\<rparr>) = Ok d"
    and p: "jcs_prints demo_E (ser_delegation_claims demo_E (idl_claims d)) payload" "dl_exp (idl_claims d) = 2600"
    and m: "resolve_verified_manifest demo_E (resolve_from_list [m]) (demo_aid 2) \<lparr>mc_now = 2000, mc_insecure_localhost = False\<rparr> = Ok m"
    by (rule demo_delegation)
  have "verify_delegation demo_E (idl_token d) (demo_delegation_ctx m) =
      Ok \<lparr>vd_token = idl_token d, vd_claims = idl_claims d, vd_voucher = voucher_of demo_claims, vd_effective_grants = [''demo.echo'']\<rparr>"
    using built_delegation_accepted [OF ref_laws demo_signer_local demo_delegation_header demo_issue_env demo_builder_wf b _ _ r refl d, of "[2]" payload
        "demo_delegation_ctx m" "resolve_from_list [m]" m "\<lambda>_. Ok Clear"] demo_prints(2) p m
    by (simp add: demo_delegation_ctx_def with_issuer_manifests_def delegation_context_new_def demo_issuer demo_key_aid demo_aid_props)
  then show ?thesis by blast
qed

subsection \<open>Witnesses\<close>

theorem built_delegation_verifies_witness:
  "\<exists>(d :: issued_delegation) m. verify_delegation demo_E (idl_token d) (demo_delegation_ctx m) =
     Ok \<lparr>vd_token = idl_token d, vd_claims = idl_claims d, vd_voucher = voucher_of demo_claims, vd_effective_grants = [''demo.echo'']\<rparr>"
proof -
  obtain token voucher b\<^sub>0 d m payload
  where b: "build demo_E demo_jti 0 demo_builder = Ok \<lparr>it_token = token, it_claims = demo_claims, it_voucher = Some voucher\<rparr>"
    and r: "rooted_in_voucher demo_E (key_signer demo_E (demo_key 2)) voucher = Ok b\<^sub>0"
    and d: "build_delegation demo_E 0 (b\<^sub>0\<lparr>db_delegatee := Some (demo_aid 3), db_scope := [''demo.echo''], db_ttl := from_secs 600,
      db_now_override := Some 2000\<rparr>) = Ok d"
    and p: "jcs_prints demo_E (ser_delegation_claims demo_E (idl_claims d)) payload" "dl_exp (idl_claims d) = 2600"
    and m: "resolve_verified_manifest demo_E (resolve_from_list [m]) (demo_aid 2) \<lparr>mc_now = 2000, mc_insecure_localhost = False\<rparr> = Ok m"
    by (rule demo_delegation)
  have "verify_delegation demo_E (idl_token d) (demo_delegation_ctx m) =
      Ok \<lparr>vd_token = idl_token d, vd_claims = idl_claims d, vd_voucher = voucher_of demo_claims, vd_effective_grants = [''demo.echo'']\<rparr>"
    using built_delegation_verifies [OF ref_laws demo_signer_local demo_delegation_header demo_issue_env demo_builder_wf b _ _ r refl d, of "[2]" payload
        "demo_delegation_ctx m" "resolve_from_list [m]" m "\<lambda>_. Ok Clear"] demo_prints(2) p m
    by (simp add: demo_delegation_ctx_def with_issuer_manifests_def delegation_context_new_def demo_issuer demo_key_aid demo_aid_props)
  then show ?thesis by blast
qed

theorem delegation_attenuates_witness:
  "\<exists>token m v. verify_delegation demo_E token (demo_delegation_ctx m) = Ok v \<and>
     set (dl_scope (vd_claims v)) \<subseteq> set (gv_grants (vd_voucher v)) \<and> sint (dl_exp (vd_claims v)) \<le> 4600"
proof -
  obtain d :: issued_delegation and m where v: "verify_delegation demo_E (idl_token d) (demo_delegation_ctx m) =
      Ok \<lparr>vd_token = idl_token d, vd_claims = idl_claims d, vd_voucher = voucher_of demo_claims, vd_effective_grants = [''demo.echo'']\<rparr>"
    using demo_delegation_accepted by blast
  note a = delegation_attenuates [OF v]
  have "set (dl_scope (idl_claims d)) \<subseteq> set (gv_grants (voucher_of demo_claims)) \<and> sint (dl_exp (idl_claims d)) \<le> 4600"
    using a by (simp add: voucher_of_def demo_claims_def)
  then show ?thesis
    by (intro exI [of _ "idl_token d"] exI [of _ m]
        exI [of _ "\<lparr>vd_token = idl_token d, vd_claims = idl_claims d, vd_voucher = voucher_of demo_claims, vd_effective_grants = [''demo.echo'']\<rparr>"])
      (simp add: v)
qed

end
