(* ===== verification/Core_Error.thy ===== *)
theory Core_Error
  imports Aitp_Prelude
begin

text \<open>
  The registry of wire error codes (\<open>core/error.rs\<close>): the codes in declaration order, their
  wire strings, parsing, and which are retryable.

  Shown here: the wire string of a code parses back to it, for every code and in both
  directions, so no two codes share a string and none is left out of the table that parsing
  searches.
\<close>

datatype error_code =
    EcInvalidEnvelope
  | EcInvalidSignature
  | EcReplayDetected
  | EcTimestampExpired
  | EcUnknownVersion
  | EcTokenAlgMismatch
  | EcTokenTypMismatch
  | EcUnknownField
  | EcIdentityFailed
  | EcChallengeRefused
  | EcManifestExpired
  | EcManifestSignatureInvalid
  | EcManifestPopFailed
  | EcManifestVersionUnknown
  | EcTrustFailed
  | EcPolicyViolation
  | EcKeyResolutionFailed
  | EcIncompatibleTrustAnchors
  | EcIncompatibleIdentityType
  | EcPopVerificationFailed
  | EcNonceMismatch
  | EcAudienceMismatch
  | EcGrantOverflow
  | EcInsufficientGrants
  | EcHandshakeModeUnsupported
  | EcTctExpired
  | EcPopChallengeInvalid
  | EcPopResponseInvalid
  | EcDelegationAudienceMismatch
  | EcDelegationScopeExceeded
  | EcDelegationInvalidVoucher
  | EcDelegationSourceTctRevoked
  | EcDelegationInvalidSignature
  | EcDelegationExpired
  | EcDelegationPopFailed
  | EcDelegationMultihopNotSupported
  | EcManifestNotFound
  | EcTctSignatureInvalid
  | EcTctRevoked
  | EcTctExpiresAfterManifest
  | EcManifestInvalid
  | EcRevocationSnapshotInvalid
  | EcRevocationSnapshotSignatureInvalid
  | EcPeerMismatch

definition ERROR_CODE_ALL :: "error_code list" where
  "ERROR_CODE_ALL =
     [EcInvalidEnvelope, EcInvalidSignature, EcReplayDetected, EcTimestampExpired, EcUnknownVersion,
      EcTokenAlgMismatch, EcTokenTypMismatch, EcUnknownField, EcIdentityFailed, EcChallengeRefused,
      EcManifestExpired, EcManifestSignatureInvalid, EcManifestPopFailed, EcManifestVersionUnknown,
      EcTrustFailed, EcPolicyViolation, EcKeyResolutionFailed, EcIncompatibleTrustAnchors,
      EcIncompatibleIdentityType, EcPopVerificationFailed, EcNonceMismatch, EcAudienceMismatch,
      EcGrantOverflow, EcInsufficientGrants, EcHandshakeModeUnsupported, EcTctExpired, EcPopChallengeInvalid,
      EcPopResponseInvalid, EcDelegationAudienceMismatch, EcDelegationScopeExceeded,
      EcDelegationInvalidVoucher, EcDelegationSourceTctRevoked, EcDelegationInvalidSignature,
      EcDelegationExpired, EcDelegationPopFailed, EcDelegationMultihopNotSupported, EcManifestNotFound,
      EcTctSignatureInvalid, EcTctRevoked, EcTctExpiresAfterManifest, EcManifestInvalid,
      EcRevocationSnapshotInvalid, EcRevocationSnapshotSignatureInvalid, EcPeerMismatch]"

definition code_as_str :: "error_code \<Rightarrow> string" where
  "code_as_str c =
     (case c of
        EcInvalidEnvelope \<Rightarrow> ''INVALID_ENVELOPE''
      | EcInvalidSignature \<Rightarrow> ''INVALID_SIGNATURE''
      | EcReplayDetected \<Rightarrow> ''REPLAY_DETECTED''
      | EcTimestampExpired \<Rightarrow> ''TIMESTAMP_EXPIRED''
      | EcUnknownVersion \<Rightarrow> ''UNKNOWN_VERSION''
      | EcTokenAlgMismatch \<Rightarrow> ''TOKEN_ALG_MISMATCH''
      | EcTokenTypMismatch \<Rightarrow> ''TOKEN_TYP_MISMATCH''
      | EcUnknownField \<Rightarrow> ''UNKNOWN_FIELD''
      | EcIdentityFailed \<Rightarrow> ''IDENTITY_FAILED''
      | EcChallengeRefused \<Rightarrow> ''CHALLENGE_REFUSED''
      | EcManifestExpired \<Rightarrow> ''MANIFEST_EXPIRED''
      | EcManifestSignatureInvalid \<Rightarrow> ''MANIFEST_SIGNATURE_INVALID''
      | EcManifestPopFailed \<Rightarrow> ''MANIFEST_POP_FAILED''
      | EcManifestVersionUnknown \<Rightarrow> ''MANIFEST_VERSION_UNKNOWN''
      | EcTrustFailed \<Rightarrow> ''TRUST_FAILED''
      | EcPolicyViolation \<Rightarrow> ''POLICY_VIOLATION''
      | EcKeyResolutionFailed \<Rightarrow> ''KEY_RESOLUTION_FAILED''
      | EcIncompatibleTrustAnchors \<Rightarrow> ''INCOMPATIBLE_TRUST_ANCHORS''
      | EcIncompatibleIdentityType \<Rightarrow> ''INCOMPATIBLE_IDENTITY_TYPE''
      | EcPopVerificationFailed \<Rightarrow> ''POP_VERIFICATION_FAILED''
      | EcNonceMismatch \<Rightarrow> ''NONCE_MISMATCH''
      | EcAudienceMismatch \<Rightarrow> ''AUDIENCE_MISMATCH''
      | EcGrantOverflow \<Rightarrow> ''GRANT_OVERFLOW''
      | EcInsufficientGrants \<Rightarrow> ''INSUFFICIENT_GRANTS''
      | EcHandshakeModeUnsupported \<Rightarrow> ''HANDSHAKE_MODE_UNSUPPORTED''
      | EcTctExpired \<Rightarrow> ''TCT_EXPIRED''
      | EcPopChallengeInvalid \<Rightarrow> ''POP_CHALLENGE_INVALID''
      | EcPopResponseInvalid \<Rightarrow> ''POP_RESPONSE_INVALID''
      | EcDelegationAudienceMismatch \<Rightarrow> ''DELEGATION_AUDIENCE_MISMATCH''
      | EcDelegationScopeExceeded \<Rightarrow> ''DELEGATION_SCOPE_EXCEEDED''
      | EcDelegationInvalidVoucher \<Rightarrow> ''DELEGATION_INVALID_VOUCHER''
      | EcDelegationSourceTctRevoked \<Rightarrow> ''DELEGATION_SOURCE_TCT_REVOKED''
      | EcDelegationInvalidSignature \<Rightarrow> ''DELEGATION_INVALID_SIGNATURE''
      | EcDelegationExpired \<Rightarrow> ''DELEGATION_EXPIRED''
      | EcDelegationPopFailed \<Rightarrow> ''DELEGATION_POP_FAILED''
      | EcDelegationMultihopNotSupported \<Rightarrow> ''DELEGATION_MULTIHOP_NOT_SUPPORTED''
      | EcManifestNotFound \<Rightarrow> ''MANIFEST_NOT_FOUND''
      | EcTctSignatureInvalid \<Rightarrow> ''TCT_SIGNATURE_INVALID''
      | EcTctRevoked \<Rightarrow> ''TCT_REVOKED''
      | EcTctExpiresAfterManifest \<Rightarrow> ''TCT_EXPIRES_AFTER_MANIFEST''
      | EcManifestInvalid \<Rightarrow> ''MANIFEST_INVALID''
      | EcRevocationSnapshotInvalid \<Rightarrow> ''REVOCATION_SNAPSHOT_INVALID''
      | EcRevocationSnapshotSignatureInvalid \<Rightarrow> ''REVOCATION_SNAPSHOT_SIGNATURE_INVALID''
      | EcPeerMismatch \<Rightarrow> ''PEER_MISMATCH'')"

definition is_retryable :: "error_code \<Rightarrow> bool" where
  "is_retryable c = (case c of EcTimestampExpired \<Rightarrow> True | EcKeyResolutionFailed \<Rightarrow> True | EcChallengeRefused \<Rightarrow> True | _ \<Rightarrow> False)"

text \<open>\<open>UnknownErrorCode\<close> carries the text that was parsed.\<close>

definition code_from_str :: "string \<Rightarrow> (string, error_code) result" where
  "code_from_str s = ok_or s (find (\<lambda>c. code_as_str c = s) ERROR_CODE_ALL)"

subsection \<open>Lemmas\<close>

lemma ERROR_CODE_ALL_complete: "set ERROR_CODE_ALL = UNIV"
proof -
  have "c \<in> set ERROR_CODE_ALL" for c by (cases c) (simp_all add: ERROR_CODE_ALL_def)
  then show ?thesis by blast
qed

lemma code_strings_distinct: "distinct (map code_as_str ERROR_CODE_ALL)"
  by (simp add: ERROR_CODE_ALL_def code_as_str_def)

lemma find_key_inverse:
  "distinct (map f xs) \<Longrightarrow> x \<in> set xs \<Longrightarrow> find (\<lambda>y. f y = f x) xs = Some x"
  by (induction xs) (auto simp: image_iff)

subsection \<open>Properties\<close>

text \<open>
  C28: parsing a wire string and writing a code are inverse: a text parses exactly to the code
  it is the wire string of, every code has one, no two codes share one, and a text that is
  not a registered string is refused with itself as the reason.
\<close>

theorem error_code_roundtrip:
  "(code_from_str s = Ok c \<longleftrightarrow> s = code_as_str c) \<and> code_from_str (code_as_str c) = Ok c \<and>
   (code_from_str s = Err s \<longleftrightarrow> s \<notin> range code_as_str) \<and>
   distinct ERROR_CODE_ALL \<and> set ERROR_CODE_ALL = UNIV"
proof -
  have inv: "find (\<lambda>y. code_as_str y = code_as_str c) ERROR_CODE_ALL = Some c" for c
    using find_key_inverse [OF code_strings_distinct] ERROR_CODE_ALL_complete by blast
  have some: "find (\<lambda>y. code_as_str y = s) ERROR_CODE_ALL = Some c \<longleftrightarrow> s = code_as_str c" for s c
    using inv by (auto simp: find_Some_iff)
  have none: "find (\<lambda>y. code_as_str y = s) ERROR_CODE_ALL = None \<longleftrightarrow> s \<notin> range code_as_str"
    using ERROR_CODE_ALL_complete by (auto simp: find_None_iff)
  have "code_from_str s = Ok c \<longleftrightarrow> s = code_as_str c" "code_from_str (code_as_str c) = Ok c"
    by (simp_all add: code_from_str_def some)
  moreover have "code_from_str s = Err s \<longleftrightarrow> s \<notin> range code_as_str"
    unfolding none [symmetric] code_from_str_def ok_or_def by (simp split: option.split)
  moreover have "distinct ERROR_CODE_ALL" using code_strings_distinct by (simp add: distinct_map)
  ultimately show ?thesis using ERROR_CODE_ALL_complete by blast
qed

end
