(* ===== verification/Handshake_Error.thy ===== *)
theory Handshake_Error
  imports Handshake_Pinned Core_Error
begin

text \<open>
  The wire code of a handshake failure (\<open>HandshakeError::error_code\<close>, \<open>handshake/error.rs\<close>).

  Shown here: of all failures of a handshake exactly those of an unresolvable issuer key are
  reported as retryable. A failure of the local signing backend keeps a neutral code when it
  comes up on its own, but not inside a token or Manifest error.
\<close>

fun tct_error_code :: "tct_error \<Rightarrow> error_code" where
  "tct_error_code TctRevoked = EcTctRevoked"
| "tct_error_code RevocationUnavailable = EcTctRevoked"
| "tct_error_code TctExpired = EcTctExpired"
| "tct_error_code ExpiresAfterManifest = EcTctExpiresAfterManifest"
| "tct_error_code SafeSubsetEmpty = EcPolicyViolation"
| "tct_error_code _ = EcTctSignatureInvalid"

fun manifest_error_code :: "manifest_error \<Rightarrow> error_code" where
  "manifest_error_code ManifestExpired = EcManifestExpired"
| "manifest_error_code ManifestPopFailed = EcManifestPopFailed"
| "manifest_error_code ManifestVersionUnknown = EcManifestVersionUnknown"
| "manifest_error_code (ManifestUnknownField _) = EcUnknownField"
| "manifest_error_code (ManifestMalformed _) = EcManifestInvalid"
| "manifest_error_code (IncompatibleIdentityType _) = EcIncompatibleIdentityType"
| "manifest_error_code (IdentityHintMalformed _) = EcManifestInvalid"
| "manifest_error_code _ = EcManifestSignatureInvalid"

fun handshake_error_code :: "handshake_error \<Rightarrow> error_code" where
  "handshake_error_code HsIdentity = EcIdentityFailed"
| "handshake_error_code GrantPolicyFailed = EcPolicyViolation"
| "handshake_error_code (HsIdentityVerifier e) =
     (case e of KeyUnavailable \<Rightarrow> EcKeyResolutionFailed | _ \<Rightarrow> EcIdentityFailed)"
| "handshake_error_code (KeyResolutionFailed _) = EcKeyResolutionFailed"
| "handshake_error_code (HsTct e) = tct_error_code e"
| "handshake_error_code (HsManifest e) = manifest_error_code e"
| "handshake_error_code GrantOverflow = EcGrantOverflow"
| "handshake_error_code PolicyViolation = EcPolicyViolation"
| "handshake_error_code PopVerificationFailed = EcPopVerificationFailed"
| "handshake_error_code NonceMismatch = EcNonceMismatch"
| "handshake_error_code PeerMismatch = EcPeerMismatch"
| "handshake_error_code InsufficientGrants = EcInsufficientGrants"
| "handshake_error_code IncompatibleTrustAnchors = EcIncompatibleTrustAnchors"
| "handshake_error_code InvalidSignature = EcInvalidSignature"
| "handshake_error_code InvalidEnvelope = EcInvalidEnvelope"
| "handshake_error_code HsState = EcInvalidEnvelope"
| "handshake_error_code HsRng = EcInvalidEnvelope"
| "handshake_error_code HsCanonicalization = EcInvalidEnvelope"
| "handshake_error_code (HsCrypto (SignerFailed _)) = EcInvalidEnvelope"
| "handshake_error_code (HsCrypto _) = EcInvalidSignature"
| "handshake_error_code (HsUnknownField _) = EcUnknownField"

lemma tct_error_code_final: "\<not> is_retryable (tct_error_code e)"
  by (cases e) (simp_all add: is_retryable_def)

lemma manifest_error_code_final: "\<not> is_retryable (manifest_error_code e)"
  by (cases e) (simp_all add: is_retryable_def)

text \<open>
  C34: a failed handshake is reported as retryable exactly when a key of the peer's identity
  issuer could not be resolved, by the built-in OIDC verifier or by an attached one; no check
  that failed is.
\<close>

theorem handshake_error_retryable:
  "is_retryable (handshake_error_code e) \<longleftrightarrow>
     (\<exists>issuer. e = KeyResolutionFailed issuer) \<or> e = HsIdentityVerifier KeyUnavailable"
proof (cases e)
  case (HsCrypto c)
  then show ?thesis by (cases c) (simp_all add: is_retryable_def)
next
  case (HsIdentityVerifier v)
  then show ?thesis by (cases v) (simp_all add: is_retryable_def)
next
  case (HsTct t)
  then show ?thesis by (simp add: tct_error_code_final)
next
  case (HsManifest m)
  then show ?thesis by (simp add: manifest_error_code_final)
qed (simp_all add: is_retryable_def)

text \<open>
  The local signing backend failing while it signs the token for the peer is reported with the
  code of a bad signature in the peer's token.
\<close>

lemma local_signer_failure_blamed:
  "handshake_error_code (HsCrypto (SignerFailed f)) = EcInvalidEnvelope"
  "handshake_error_code (HsTct (TctCrypto (SignerFailed f))) = EcTctSignatureInvalid"
  "handshake_error_code (HsManifest (ManifestCrypto (SignerFailed f))) = EcManifestSignatureInvalid"
  by simp_all

end
