(* ===== verification/Core_Nonce_Store.thy ===== *)
theory Core_Nonce_Store
  imports Core_Time Core_Aid "HOL-Library.List_Lexorder" "HOL-Library.Product_Lexorder"
begin

text \<open>
  The in-memory single-use nonce store (\<open>core/nonce_store.rs\<close>): shards of a map
  and an expiry heap, a global count of outstanding nonces bounded by a capacity,
  and the two operations \<open>issue\<close> and \<open>consume\<close>.

  A shard's hash map is an association list with distinct keys and its binary heap
  of reversed pairs is a list sorted by (expiry, nonce): \<open>peek\<close> reads the head,
  \<open>pop\<close> drops it, \<open>push\<close> inserts in order. The outstanding count keeps its machine
  width, so that an unbalanced \<open>fetch_sub\<close> would show as a wrap-around.
\<close>

type_synonym nonce = bytes

record issued_nonce =
  in_nonce :: nonce
  in_verifier :: aid
  in_source :: string
  in_issued_at :: timestamp
  in_expires_at :: timestamp

datatype consume_outcome = Consumed | Unknown | Expired

datatype nonce_store_error =
    AtCapacity usize "duration option"
  | Duplicate
  | Backend

record entry =
  ent_verifier :: aid
  ent_expires_at :: timestamp

type_synonym heap = "(i64 \<times> nonce) list"

record shard =
  sh_map :: "(nonce \<times> entry) list"
  sh_expiry :: heap

definition heap_key :: "i64 \<times> nonce \<Rightarrow> int \<times> nat list" where
  "heap_key x = (sint (fst x), map unat (snd x))"

definition heap_push :: "i64 \<times> nonce \<Rightarrow> heap \<Rightarrow> heap" where
  "heap_push x h = insort_key heap_key x h"

definition heap_collect :: "(i64 \<times> nonce) list \<Rightarrow> heap" where
  "heap_collect xs = sort_key heap_key xs"

subsection \<open>Operations on one shard\<close>

text \<open>
  \<open>Shard::purge\<close>: pop while the earliest expiry is in the past; a popped pair whose
  record is gone, or was issued again with another expiry, is stale.
\<close>

fun purge_loop :: "heap \<Rightarrow> (nonce \<times> entry) list \<Rightarrow> timestamp \<Rightarrow> nat \<Rightarrow> heap \<times> (nonce \<times> entry) list \<times> nat" where
  "purge_loop [] m now removed = ([], m, removed)"
| "purge_loop ((exp, nonce) # h) m now removed =
     (if \<not> is_in_the_past exp now then ((exp, nonce) # h, m, removed)
      else if (case map_of m nonce of Some e \<Rightarrow> ent_expires_at e = exp | None \<Rightarrow> False)
      then purge_loop h (AList.delete nonce m) now (Suc removed)
      else purge_loop h m now removed)"

definition purge :: "shard \<Rightarrow> timestamp \<Rightarrow> shard \<times> nat" where
  "purge sh now =
     (let (h, m, removed) = purge_loop (sh_expiry sh) (sh_map sh) now 0
      in (sh\<lparr>sh_map := m, sh_expiry := h\<rparr>, removed))"

definition compact :: "shard \<Rightarrow> shard" where
  "compact sh =
     (if 2 * length (sh_map sh) + 64 < length (sh_expiry sh)
      then sh\<lparr>sh_expiry := heap_collect (map (\<lambda>(n, e). (ent_expires_at e, n)) (sh_map sh))\<rparr>
      else sh)"

definition earliest :: "shard \<Rightarrow> i64 option" where
  "earliest sh = (case sh_expiry sh of [] \<Rightarrow> None | (exp, _) # _ \<Rightarrow> Some exp)"

subsection \<open>The store\<close>

record nonce_store =
  shards :: "shard list"
  capacity :: usize
  outstanding :: usize
  last_sweep :: i64
  next_expiry :: i64
  full_sweeps :: usize

definition with_shards :: "usize \<Rightarrow> nat \<Rightarrow> nonce_store" where
  "with_shards cap n =
     \<lparr>shards = replicate (max n 1) \<lparr>sh_map = [], sh_expiry = []\<rparr>,
      capacity = cap, outstanding = 0, last_sweep = i64_MIN, next_expiry = i64_MAX,
      full_sweeps = 0\<rparr>"

definition store_len :: "nonce_store \<Rightarrow> usize" where
  "store_len s = outstanding s"

definition store_is_empty :: "nonce_store \<Rightarrow> bool" where
  "store_is_empty s \<longleftrightarrow> store_len s = 0"

definition release :: "nonce_store \<Rightarrow> nat \<Rightarrow> nonce_store" where
  "release s n = (if 0 < n then s\<lparr>outstanding := outstanding s - of_nat n\<rparr> else s)"

text \<open>The loop of \<open>sweep\<close> over the shards: shards done, removed, earliest expiry.\<close>

fun sweep_loop :: "shard list \<Rightarrow> timestamp \<Rightarrow> nat \<Rightarrow> i64 \<Rightarrow> shard list \<times> nat \<times> i64" where
  "sweep_loop [] now removed e = ([], removed, e)"
| "sweep_loop (sh # shs) now removed e =
     (let (sh', n) = purge sh now;
          sh'' = compact sh';
          e' = (case earliest sh'' of Some x \<Rightarrow> i64_min e x | None \<Rightarrow> e);
          (rest, removed', e'') = sweep_loop shs now (removed + n) e'
      in (sh'' # rest, removed', e''))"

definition sweep :: "nonce_store \<Rightarrow> timestamp \<Rightarrow> nonce_store \<times> nat" where
  "sweep s now =
     (let (shs, removed, e) = sweep_loop (shards s) now 0 i64_MAX
      in ((release (s\<lparr>shards := shs\<rparr>) removed)\<lparr>next_expiry := e\<rparr>, removed))"

text \<open>
  \<open>shard\<close>: the index chosen by the store's hasher. The hasher is keyed at random when
  the store is built, so it is an arbitrary function here.
\<close>

definition shard_index :: "(nonce \<Rightarrow> u64) \<Rightarrow> nonce_store \<Rightarrow> nonce \<Rightarrow> nat" where
  "shard_index hash s n = unat (hash n) mod length (shards s)"

definition set_shard :: "nonce_store \<Rightarrow> nat \<Rightarrow> shard \<Rightarrow> nonce_store" where
  "set_shard s i sh = s\<lparr>shards := (shards s)[i := sh]\<rparr>"

definition try_reserve :: "nonce_store \<Rightarrow> nonce_store \<times> bool" where
  "try_reserve s =
     (if outstanding s < capacity s then (s\<lparr>outstanding := outstanding s + 1\<rparr>, True) else (s, False))"

definition retry_after :: "nonce_store \<Rightarrow> timestamp \<Rightarrow> duration option" where
  "retry_after s now =
     (if next_expiry s = i64_MAX then None
      else Some (from_secs (i64_max (i64_saturating_sub (i64_saturating_add (next_expiry s) 1) now) 1)))"

definition reserve :: "nonce_store \<Rightarrow> timestamp \<Rightarrow> nonce_store \<times> (nonce_store_error, unit) result" where
  "reserve s now =
     (let (s1, ok) = try_reserve s in
      if ok then (s1, Ok ())
      else
        let previous = last_sweep s1;
            s2 = s1\<lparr>last_sweep := i64_max previous now\<rparr>
        in if sint previous < sint now then
             let s3 = fst (sweep (s2\<lparr>full_sweeps := full_sweeps s2 + 1\<rparr>) now);
                 (s4, ok') = try_reserve s3
             in if ok' then (s4, Ok ()) else (s4, Err (AtCapacity (capacity s4) (retry_after s4 now)))
           else (s2, Err (AtCapacity (capacity s2) (retry_after s2 now))))"

text \<open>
  The critical section of \<open>issue_sync\<close> after the slot is reserved: \<open>None\<close> when the
  nonce is already there. Outside the lock the code then gives the slot back, or
  lowers \<open>next_expiry\<close>.
\<close>

definition insert_locked :: "(nonce \<Rightarrow> u64) \<Rightarrow> nonce_store \<Rightarrow> issued_nonce \<Rightarrow> nonce_store option" where
  "insert_locked hash s rec =
     (let i = shard_index hash s (in_nonce rec); sh = shards s ! i in
      if map_of (sh_map sh) (in_nonce rec) \<noteq> None then None
      else
        let sh1 = sh\<lparr>sh_map := AList.update (in_nonce rec)
                       \<lparr>ent_verifier = in_verifier rec, ent_expires_at = in_expires_at rec\<rparr> (sh_map sh),
                     sh_expiry := heap_push (in_expires_at rec, in_nonce rec) (sh_expiry sh)\<rparr>
        in Some (set_shard s i (compact sh1)))"

definition insert_record :: "(nonce \<Rightarrow> u64) \<Rightarrow> nonce_store \<Rightarrow> issued_nonce \<Rightarrow> nonce_store \<times> (nonce_store_error, unit) result" where
  "insert_record hash s rec =
     (case insert_locked hash s rec of
        None \<Rightarrow> (release s 1, Err Duplicate)
      | Some s1 \<Rightarrow> (s1\<lparr>next_expiry := i64_min (next_expiry s1) (in_expires_at rec)\<rparr>, Ok ()))"

definition purge_shard :: "(nonce \<Rightarrow> u64) \<Rightarrow> nonce_store \<Rightarrow> nonce \<Rightarrow> timestamp \<Rightarrow> nonce_store \<times> nat" where
  "purge_shard hash s n now =
     (let i = shard_index hash s n; (sh, freed) = purge (shards s ! i) now
      in (set_shard s i sh, freed))"

definition issue_sync :: "(nonce \<Rightarrow> u64) \<Rightarrow> nonce_store \<Rightarrow> issued_nonce \<Rightarrow> nonce_store \<times> (nonce_store_error, unit) result" where
  "issue_sync hash s rec =
     (let now = in_issued_at rec;
          (s1, freed) = purge_shard hash s (in_nonce rec) now;
          s2 = release s1 freed;
          (s3, r) = reserve s2 now
      in case r of Inl e \<Rightarrow> (s3, Inl e) | Inr _ \<Rightarrow> insert_record hash s3 rec)"

text \<open>
  \<open>consume_sync\<close> in its two halves: what happens under the shard lock, and the
  release of the slots that the locked part freed.
\<close>

definition consume_locked :: "(nonce \<Rightarrow> u64) \<Rightarrow> nonce_store \<Rightarrow> nonce \<Rightarrow> aid \<Rightarrow> timestamp \<Rightarrow> nonce_store \<times> consume_outcome \<times> nat" where
  "consume_locked hash s n v now =
     (let i = shard_index hash s n; sh = shards s ! i in
      case map_of (sh_map sh) n of
        Some e \<Rightarrow>
          if ent_verifier e \<noteq> v
          then let (sh', freed) = purge sh now in (set_shard s i sh', Unknown, freed)
          else (set_shard s i (compact (sh\<lparr>sh_map := AList.delete n (sh_map sh)\<rparr>)),
                if is_in_the_past (ent_expires_at e) now then Expired else Consumed, 1)
      | None \<Rightarrow> let (sh', freed) = purge sh now in (set_shard s i sh', Unknown, freed))"

definition consume_sync :: "(nonce \<Rightarrow> u64) \<Rightarrow> nonce_store \<Rightarrow> nonce \<Rightarrow> aid \<Rightarrow> timestamp \<Rightarrow> nonce_store \<times> consume_outcome" where
  "consume_sync hash s n v now =
     (let (s1, outcome, freed) = consume_locked hash s n v now in (release s1 freed, outcome))"

subsection \<open>Lemmas on shards\<close>

abbreviation unexpired :: "timestamp \<Rightarrow> nonce \<times> entry \<Rightarrow> bool" where
  "unexpired now ne \<equiv> \<not> is_in_the_past (ent_expires_at (snd ne)) now"

text \<open>The heap knows of every record, and is in order; the map has one record per nonce.\<close>

definition shard_wf :: "shard \<Rightarrow> bool" where
  "shard_wf sh \<longleftrightarrow>
     distinct (map fst (sh_map sh)) \<and>
     sorted (map heap_key (sh_expiry sh)) \<and>
     (\<forall>(n, e)\<in>set (sh_map sh). (ent_expires_at e, n) \<in> set (sh_expiry sh))"

lemma length_alist_delete:
  "distinct (map fst m) \<Longrightarrow> map_of m k = Some v \<Longrightarrow> Suc (length (AList.delete k m)) = length m"
proof (induction m)
  case Nil
  then show ?case by simp
next
  case (Cons a m)
  obtain k' v' where a: "a = (k', v')" by (cases a)
  show ?case
  proof (cases "k' = k")
    case True
    with Cons.prems(1) have "k \<notin> fst ` set m" by (simp add: a)
    then have "AList.delete k m = m" by (rule AList.delete_id)
    with True show ?thesis by (simp add: a)
  next
    case False
    with Cons show ?thesis by (simp add: a)
  qed
qed

lemma alist_update_new: "k \<notin> fst ` set m \<Longrightarrow> AList.update k v m = m @ [(k, v)]"
  by (induction m) auto

lemma heap_sorted_future:
  assumes "sorted (map heap_key ((exp, n) # h))" "\<not> is_in_the_past exp now" "(x, k) \<in> set h"
  shows "\<not> is_in_the_past x now"
proof -
  from assms have "heap_key (exp, n) \<le> heap_key (x, k)" by auto
  then have "sint exp \<le> sint x" by (auto simp: heap_key_def less_eq_prod_def)
  with assms(2) show ?thesis by (simp add: is_in_the_past_def)
qed

lemma purge_loop_spec:
  assumes "sorted (map heap_key h)" "distinct (map fst m)"
    and "\<forall>(n, e)\<in>set m. is_in_the_past (ent_expires_at e) now \<longrightarrow> (ent_expires_at e, n) \<in> set h"
    and "purge_loop h m now r = (h', m', r')"
  shows "m' = filter (unexpired now) m \<and> r' + length m' = r + length m \<and>
    (\<exists>pre. h = pre @ h' \<and> (\<forall>(x, n)\<in>set pre. is_in_the_past x now))"
  using assms
proof (induction h m now r rule: purge_loop.induct)
  case (1 m now r)
  then have "filter (unexpired now) m = m" by (auto simp: filter_id_conv)
  with 1 show ?case by auto
next
  case (2 exp n h m now r)
  show ?case
  proof (cases "is_in_the_past exp now")
    case False
    with 2(3) have "\<forall>(x, k)\<in>set ((exp, n) # h). \<not> is_in_the_past x now"
      using heap_sorted_future [OF 2(3) False] by auto
    with 2(5) have "filter (unexpired now) m = m" by (fastforce simp: filter_id_conv)
    with False 2(6) show ?thesis by auto
  next
    case past: True
    have sorted: "sorted (map heap_key h)" using 2(3) by simp
    show ?thesis
    proof (cases "\<exists>e. map_of m n = Some e \<and> ent_expires_at e = exp")
      case True
      then obtain e where e: "map_of m n = Some e" "ent_expires_at e = exp" by blast
      have loop: "purge_loop h (AList.delete n m) now (Suc r) = (h', m', r')"
        using 2(6) past e by simp
      have "\<forall>(k, e)\<in>set (AList.delete n m). is_in_the_past (ent_expires_at e) now \<longrightarrow>
          (ent_expires_at e, k) \<in> set h"
        using 2(5) by (auto simp: AList.delete_eq)
      with 2(1) past e sorted 2(4) loop have IH:
        "m' = filter (unexpired now) (AList.delete n m)"
        "r' + length m' = Suc r + length (AList.delete n m)"
        "\<exists>pre. h = pre @ h' \<and> (\<forall>(x, n)\<in>set pre. is_in_the_past x now)"
        by (auto simp: distinct_delete)
      have "filter (unexpired now) (AList.delete n m) = filter (unexpired now) m"
      proof -
        have "ne \<in> set m \<Longrightarrow> unexpired now ne \<Longrightarrow> fst ne \<noteq> n" for ne
          using e past 2(4) by (cases ne) (auto simp: map_of_eq_Some_iff dest: eq_key_imp_eq_value)
        then show ?thesis
          by (auto simp: AList.delete_eq case_prod_beta intro!: filter_cong)
      qed
      with IH length_alist_delete [OF 2(4) e(1)] past show ?thesis
        by (auto intro: exI [of _ "(exp, n) # pre" for pre])
    next
      case False
      then have cond: "\<not> (case map_of m n of Some e \<Rightarrow> ent_expires_at e = exp | None \<Rightarrow> False)"
        by (auto split: option.splits)
      have loop: "purge_loop h m now r = (h', m', r')"
        using 2(6) past cond by simp
      have "\<forall>(k, e)\<in>set m. is_in_the_past (ent_expires_at e) now \<longrightarrow> (ent_expires_at e, k) \<in> set h"
        using 2(5) False 2(4) by (fastforce simp: map_of_eq_Some_iff)
      with 2(2) past cond sorted 2(4) loop have
        "m' = filter (unexpired now) m \<and> r' + length m' = r + length m \<and>
         (\<exists>pre. h = pre @ h' \<and> (\<forall>(x, n)\<in>set pre. is_in_the_past x now))"
        by auto
      with past show ?thesis by (auto intro: exI [of _ "(exp, n) # pre" for pre])
    qed
  qed
qed

lemma purge_spec:
  assumes "shard_wf sh" "purge sh now = (sh', freed)"
  shows "sh_map sh' = filter (unexpired now) (sh_map sh)"
    and "freed + length (sh_map sh') = length (sh_map sh)"
    and "shard_wf sh'"
proof -
  obtain h m r where loop: "purge_loop (sh_expiry sh) (sh_map sh) now 0 = (h, m, r)"
    by (cases "purge_loop (sh_expiry sh) (sh_map sh) now 0")
  with assms(2) have sh': "sh_map sh' = m" "sh_expiry sh' = h" "freed = r"
    by (auto simp: purge_def)
  have wf: "sorted (map heap_key (sh_expiry sh))" "distinct (map fst (sh_map sh))"
    "\<forall>(n, e)\<in>set (sh_map sh). (ent_expires_at e, n) \<in> set (sh_expiry sh)"
    using assms(1) by (simp_all add: shard_wf_def)
  then have live: "\<forall>(n, e)\<in>set (sh_map sh). is_in_the_past (ent_expires_at e) now \<longrightarrow>
      (ent_expires_at e, n) \<in> set (sh_expiry sh)" by auto
  from purge_loop_spec [OF wf(1,2) live loop] obtain pre where
    m: "m = filter (unexpired now) (sh_map sh)" and r: "r + length m = length (sh_map sh)"
    and pre: "sh_expiry sh = pre @ h" "\<forall>(x, n)\<in>set pre. is_in_the_past x now"
    by auto
  show "sh_map sh' = filter (unexpired now) (sh_map sh)" using sh' m by simp
  show "freed + length (sh_map sh') = length (sh_map sh)" using sh' r by simp
  have "sorted (map heap_key h)" using wf(1) pre(1) by (simp add: sorted_append)
  moreover have "distinct (map fst m)" using wf(2) m by (simp add: distinct_map_filter)
  moreover have "\<forall>(n, e)\<in>set m. (ent_expires_at e, n) \<in> set h"
    using wf(3) pre m by fastforce
  ultimately show "shard_wf sh'" using sh' by (simp add: shard_wf_def)
qed

lemma compact_map [simp]: "sh_map (compact sh) = sh_map sh"
  by (simp add: compact_def)

lemma compact_wf:
  assumes "distinct (map fst (sh_map sh))" "sorted (map heap_key (sh_expiry sh))"
    and "\<forall>(n, e)\<in>set (sh_map sh). (ent_expires_at e, n) \<in> set (sh_expiry sh)"
  shows "shard_wf (compact sh)"
  using assms by (force simp: compact_def shard_wf_def heap_collect_def)

lemma shard_wf_compact: "shard_wf sh \<Longrightarrow> shard_wf (compact sh)"
  by (rule compact_wf) (auto simp: shard_wf_def)

lemma set_heap_push [simp]: "set (heap_push x h) = insert x (set h)"
  by (simp add: heap_push_def set_insort_key)

lemma sorted_heap_push: "sorted (map heap_key h) \<Longrightarrow> sorted (map heap_key (heap_push x h))"
  by (simp add: heap_push_def sorted_insort_key)

text \<open>The bound the compaction keeps on the heap: linear in the live records.\<close>

lemma compact_bound: "length (sh_expiry (compact sh)) \<le> 2 * length (sh_map sh) + 64"
  by (auto simp: compact_def heap_collect_def)

subsection \<open>The store invariant\<close>

definition live_records :: "nonce_store \<Rightarrow> nat" where
  "live_records s = (\<Sum>sh\<leftarrow>shards s. length (sh_map sh))"

definition shards_wf :: "(nonce \<Rightarrow> u64) \<Rightarrow> nonce_store \<Rightarrow> bool" where
  "shards_wf hash s \<longleftrightarrow>
     shards s \<noteq> [] \<and>
     (\<forall>i<length (shards s). shard_wf (shards s ! i) \<and>
        (\<forall>n\<in>fst ` set (sh_map (shards s ! i)). shard_index hash s n = i))"

text \<open>
  The accounting between a store and \<open>p\<close> slots that running operations hold: reserved
  and not yet inserted, or removed and not yet released.
\<close>

definition slots_ok :: "nonce_store \<Rightarrow> nat \<Rightarrow> bool" where
  "slots_ok s p \<longleftrightarrow> unat (outstanding s) = live_records s + p \<and> outstanding s \<le> capacity s"

definition store_inv :: "(nonce \<Rightarrow> u64) \<Rightarrow> nonce_store \<Rightarrow> nat \<Rightarrow> bool" where
  "store_inv hash s p \<longleftrightarrow> shards_wf hash s \<and> slots_ok s p"

definition lookup :: "(nonce \<Rightarrow> u64) \<Rightarrow> nonce_store \<Rightarrow> nonce \<Rightarrow> entry option" where
  "lookup hash s n = map_of (sh_map (shards s ! shard_index hash s n)) n"

lemma shard_index_less: "shards s \<noteq> [] \<Longrightarrow> shard_index hash s n < length (shards s)"
  by (simp add: shard_index_def)

lemma shard_index_cong: "length (shards s') = length (shards s) \<Longrightarrow> shard_index hash s' n = shard_index hash s n"
  by (simp add: shard_index_def)

lemma set_shard_simps [simp]:
  "shards (set_shard s i sh) = (shards s)[i := sh]"
  "capacity (set_shard s i sh) = capacity s" "outstanding (set_shard s i sh) = outstanding s"
  "last_sweep (set_shard s i sh) = last_sweep s"
  by (simp_all add: set_shard_def)

lemma shard_index_set_shard [simp]: "shard_index hash (set_shard s i sh) n = shard_index hash s n"
  by (rule shard_index_cong) simp

lemma sum_list_update_nat:
  "i < length xs \<Longrightarrow> sum_list (map f (xs[i := x])) + f (xs ! i) = sum_list (map f xs) + (f x :: nat)"
  by (induction xs arbitrary: i) (auto split: nat.splits)

lemma live_records_set_shard:
  "i < length (shards s) \<Longrightarrow>
     live_records (set_shard s i sh) + length (sh_map (shards s ! i)) = live_records s + length (sh_map sh)"
  unfolding live_records_def set_shard_simps by (rule sum_list_update_nat)

lemma shards_wf_set_shard:
  assumes "shards_wf hash s" "i < length (shards s)" "shard_wf sh"
    and "\<forall>n\<in>fst ` set (sh_map sh). shard_index hash s n = i"
  shows "shards_wf hash (set_shard s i sh)"
  using assms by (auto simp: shards_wf_def nth_list_update)

lemma lookup_set_shard:
  assumes "i < length (shards s)"
  shows "lookup hash (set_shard s i sh) n =
    (if shard_index hash s n = i then map_of (sh_map sh) n else lookup hash s n)"
  using assms by (auto simp: lookup_def nth_list_update)

lemma unat_sub_of_nat: "n \<le> unat (x :: usize) \<Longrightarrow> unat (x - of_nat n) = unat x - n"
proof -
  assume *: "n \<le> unat x"
  have "unat x < 2 ^ LENGTH(64)" by (rule unsigned_less)
  with * have "n < 2 ^ 64" by simp
  then have n: "unat (of_nat n :: usize) = n" by (simp add: unat_of_nat)
  then have "(of_nat n :: usize) \<le> x" using * by (simp add: word_le_nat_alt)
  then show ?thesis by (simp add: unat_sub n)
qed

lemma release_simps [simp]:
  "shards (release s n) = shards s" "capacity (release s n) = capacity s"
  "last_sweep (release s n) = last_sweep s"
  by (simp_all add: release_def)

lemma lookup_release [simp]: "lookup hash (release s n) k = lookup hash s k"
  by (simp add: lookup_def shard_index_def)

subsection \<open>Concurrent callers\<close>

text \<open>
  The operations run from many threads: what happens under one shard lock and each
  atomic instruction is a step, and the steps of different calls interleave freely.
  A configuration is the store and the number of slots that running calls hold. A
  step is labelled with what a caller learns from it.
\<close>

datatype store_event = Issued nonce | WasConsumed nonce | Internal

inductive nstep :: "(nonce \<Rightarrow> u64) \<Rightarrow> nonce_store \<times> nat \<Rightarrow> store_event \<Rightarrow> nonce_store \<times> nat \<Rightarrow> bool"
  for hash where
  purge_step: "purge_shard hash s n now = (s', freed) \<Longrightarrow> nstep hash (s, p) Internal (s', p + freed)"
| sweep_step: "i < length (shards s) \<Longrightarrow> purge (shards s ! i) now = (sh, freed) \<Longrightarrow>
     nstep hash (s, p) Internal (set_shard s i (compact sh), p + freed)"
| release_step: "k \<le> p \<Longrightarrow> nstep hash (s, p) Internal (release s k, p - k)"
| reserve_step: "try_reserve s = (s', ok) \<Longrightarrow> nstep hash (s, p) Internal (s', if ok then Suc p else p)"
| insert_step: "insert_locked hash s rec = Some s' \<Longrightarrow>
     nstep hash (s, Suc p) (Issued (in_nonce rec)) (s', p)"
| consume_step: "consume_locked hash s n v now = (s', outcome, freed) \<Longrightarrow>
     nstep hash (s, p) (if outcome = Consumed then WasConsumed n else Internal) (s', p + freed)"
| clock_step: "nstep hash (s, p) Internal
     (s\<lparr>last_sweep := a, next_expiry := b, full_sweeps := c\<rparr>, p)"

inductive nrun :: "(nonce \<Rightarrow> u64) \<Rightarrow> nonce_store \<times> nat \<Rightarrow> store_event list \<Rightarrow> nonce_store \<times> nat \<Rightarrow> bool"
  for hash where
  nrun_Nil: "nrun hash c [] c"
| nrun_snoc: "nrun hash c evs c' \<Longrightarrow> nstep hash c' ev c'' \<Longrightarrow> nrun hash c (evs @ [ev]) c''"

lemma shards_wf_nth:
  "shards_wf hash s \<Longrightarrow> i < length (shards s) \<Longrightarrow> shard_wf (shards s ! i)"
  by (simp add: shards_wf_def)

lemma shards_wf_index:
  "shards_wf hash s \<Longrightarrow> i < length (shards s) \<Longrightarrow> n \<in> fst ` set (sh_map (shards s ! i)) \<Longrightarrow>
     shard_index hash s n = i"
  by (auto simp: shards_wf_def)

lemma shards_wf_nonempty: "shards_wf hash s \<Longrightarrow> shards s \<noteq> []"
  by (simp add: shards_wf_def)

text \<open>One shard replaced by a smaller one: the common part of purge, sweep and consume.\<close>

lemma store_inv_shrink:
  assumes "store_inv hash s p" "i < length (shards s)" "shard_wf sh"
    and "set (sh_map sh) \<subseteq> set (sh_map (shards s ! i))"
    and "freed + length (sh_map sh) = length (sh_map (shards s ! i))"
  shows "store_inv hash (set_shard s i sh) (p + freed)"
proof -
  have wf: "shards_wf hash s" and slots: "unat (outstanding s) = live_records s + p"
      "outstanding s \<le> capacity s"
    using assms(1) by (simp_all add: store_inv_def slots_ok_def)
  have "\<forall>n\<in>fst ` set (sh_map sh). shard_index hash s n = i"
    using shards_wf_index [OF wf assms(2)] assms(4) by blast
  then have "shards_wf hash (set_shard s i sh)"
    by (rule shards_wf_set_shard [OF wf assms(2,3)])
  moreover have "live_records (set_shard s i sh) + freed = live_records s"
    using live_records_set_shard [OF assms(2), of sh] assms(5) by linarith
  ultimately show ?thesis
    using slots by (simp add: store_inv_def slots_ok_def)
qed

lemma store_inv_purge:
  assumes "store_inv hash s p" "i < length (shards s)" "purge (shards s ! i) now = (sh, freed)"
  shows "store_inv hash (set_shard s i sh) (p + freed)"
    and "store_inv hash (set_shard s i (compact sh)) (p + freed)"
proof -
  have wf: "shard_wf (shards s ! i)"
    using assms(1,2) by (auto simp: store_inv_def intro: shards_wf_nth)
  note ps = purge_spec [OF wf assms(3)]
  have sub: "set (sh_map sh) \<subseteq> set (sh_map (shards s ! i))" by (auto simp: ps(1))
  show "store_inv hash (set_shard s i sh) (p + freed)"
    using store_inv_shrink [OF assms(1,2) ps(3) sub ps(2)] .
  show "store_inv hash (set_shard s i (compact sh)) (p + freed)"
    using store_inv_shrink [OF assms(1,2) shard_wf_compact [OF ps(3)]] sub ps(2) by simp
qed

lemma set_delete_subset: "set (AList.delete n m) \<subseteq> set m"
  by (auto simp: AList.delete_eq)

lemma shard_wf_delete:
  "shard_wf sh \<Longrightarrow> shard_wf (compact (sh\<lparr>sh_map := AList.delete n (sh_map sh)\<rparr>))"
  by (rule compact_wf)
    (auto simp: shard_wf_def distinct_delete dest: set_mp [OF set_delete_subset])

lemma shard_wf_insert:
  assumes "shard_wf sh" "n \<notin> fst ` set (sh_map sh)"
  shows "shard_wf (compact (sh\<lparr>sh_map := AList.update n e (sh_map sh),
                              sh_expiry := heap_push (ent_expires_at e, n) (sh_expiry sh)\<rparr>))"
  using assms by (intro compact_wf)
    (auto simp: shard_wf_def alist_update_new sorted_heap_push image_iff)

lemma store_inv_consume_locked:
  assumes "store_inv hash s p" "consume_locked hash s n v now = (s', outcome, freed)"
  shows "store_inv hash s' (p + freed)"
proof -
  let ?i = "shard_index hash s n"
  let ?sh = "shards s ! ?i"
  have wf: "shards_wf hash s" using assms(1) by (simp add: store_inv_def)
  have i: "?i < length (shards s)" by (rule shard_index_less [OF shards_wf_nonempty [OF wf]])
  have sh: "shard_wf ?sh" by (rule shards_wf_nth [OF wf i])
  obtain shp fp where pu: "purge ?sh now = (shp, fp)" by (cases "purge ?sh now")
  show ?thesis
  proof (cases "\<exists>e. map_of (sh_map ?sh) n = Some e \<and> ent_verifier e = v")
    case True
    then obtain e where e: "map_of (sh_map ?sh) n = Some e" "ent_verifier e = v" by blast
    let ?sh' = "compact (?sh\<lparr>sh_map := AList.delete n (sh_map ?sh)\<rparr>)"
    have "distinct (map fst (sh_map ?sh))" using sh by (simp add: shard_wf_def)
    then have "1 + length (sh_map ?sh') = length (sh_map ?sh)"
      using length_alist_delete e(1) by fastforce
    moreover have "set (sh_map ?sh') \<subseteq> set (sh_map ?sh)" by (auto simp: AList.delete_eq)
    ultimately have "store_inv hash (set_shard s ?i ?sh') (p + 1)"
      by (intro store_inv_shrink [OF assms(1) i shard_wf_delete [OF sh]])
    with assms(2) e show ?thesis by (auto simp: consume_locked_def Let_def)
  next
    case False
    then have "s' = set_shard s ?i shp" "freed = fp"
      using assms(2) pu by (auto simp: consume_locked_def Let_def split: option.splits if_splits)
    with store_inv_purge(1) [OF assms(1) i pu] show ?thesis by simp
  qed
qed

definition entry_of :: "issued_nonce \<Rightarrow> entry" where
  "entry_of rec = \<lparr>ent_verifier = in_verifier rec, ent_expires_at = in_expires_at rec\<rparr>"

definition shard_insert :: "issued_nonce \<Rightarrow> shard \<Rightarrow> shard" where
  "shard_insert rec sh = compact (sh
     \<lparr>sh_map := AList.update (in_nonce rec) (entry_of rec) (sh_map sh),
      sh_expiry := heap_push (ent_expires_at (entry_of rec), in_nonce rec) (sh_expiry sh)\<rparr>)"

lemma insert_lockedD:
  assumes "insert_locked hash s rec = Some s'"
  shows "in_nonce rec \<notin> fst ` set (sh_map (shards s ! shard_index hash s (in_nonce rec)))"
    and "s' = set_shard s (shard_index hash s (in_nonce rec))
           (shard_insert rec (shards s ! shard_index hash s (in_nonce rec)))"
  using assms
  by (auto simp: insert_locked_def shard_insert_def entry_of_def Let_def map_of_eq_None_iff split: if_splits)

lemma shard_insert_map:
  "in_nonce rec \<notin> fst ` set (sh_map sh) \<Longrightarrow>
     sh_map (shard_insert rec sh) = sh_map sh @ [(in_nonce rec, entry_of rec)]"
  by (simp add: shard_insert_def alist_update_new)

lemma store_inv_insert_locked:
  assumes "store_inv hash s (Suc p)" "insert_locked hash s rec = Some s'"
  shows "store_inv hash s' p"
proof -
  let ?i = "shard_index hash s (in_nonce rec)"
  let ?sh = "shards s ! ?i"
  let ?sh' = "shard_insert rec ?sh"
  note ins = insert_lockedD [OF assms(2)]
  have wf: "shards_wf hash s" and slots: "unat (outstanding s) = live_records s + Suc p"
      "outstanding s \<le> capacity s"
    using assms(1) by (simp_all add: store_inv_def slots_ok_def)
  have i: "?i < length (shards s)" by (rule shard_index_less [OF shards_wf_nonempty [OF wf]])
  note m = shard_insert_map [OF ins(1)]
  have "shard_wf ?sh'"
    unfolding shard_insert_def by (rule shard_wf_insert [OF shards_wf_nth [OF wf i] ins(1)])
  moreover have "\<forall>n\<in>fst ` set (sh_map ?sh'). shard_index hash s n = ?i"
    by (auto simp: m intro!: shards_wf_index [OF wf i])
  ultimately have "shards_wf hash s'"
    unfolding ins(2) by (intro shards_wf_set_shard [OF wf i])
  moreover have "live_records s' = Suc (live_records s)"
    using live_records_set_shard [OF i, of ?sh'] m ins(2) by simp
  moreover have "outstanding s' = outstanding s" "capacity s' = capacity s"
    using ins(2) by simp_all
  ultimately show ?thesis
    using slots by (simp add: store_inv_def slots_ok_def)
qed

end
