(* ===== verification/Clocked.thy ===== *)
theory Clocked
  imports Core_Time
begin

text \<open>
  Components whose answers depend on a clock: readings of the monotonic clock
  (\<open>std::time::Instant\<close>), and the interface between such a component and its specification, a
  simulation that holds as long as the clock does not run backwards.
\<close>

subsection \<open>The monotonic clock\<close>

text \<open>
  An \<open>Instant\<close> is a number of nanoseconds since some fixed point. Its range depends on the
  platform and is an argument of \<open>instant_checked_add\<close>; \<open>duration_since\<close> saturates at zero.
\<close>

type_synonym instant = nat

definition duration_nanos :: "duration \<Rightarrow> nat" where
  "duration_nanos d = unat (as_secs d) * 1000000000 + unat (subsec_nanos d)"

definition instant_checked_add :: "nat \<Rightarrow> instant \<Rightarrow> duration \<Rightarrow> instant option" where
  "instant_checked_add lim t d = (if t + duration_nanos d < lim then Some (t + duration_nanos d) else None)"

definition duration_since :: "instant \<Rightarrow> instant \<Rightarrow> nat" where
  "duration_since now t = now - t"

text \<open>\<open>HashMap::retain\<close>.\<close>

definition map_retain :: "('v \<Rightarrow> bool) \<Rightarrow> ('k \<rightharpoonup> 'v) \<Rightarrow> ('k \<rightharpoonup> 'v)" where
  "map_retain P m k = (case m k of Some v \<Rightarrow> if P v then Some v else None | None \<Rightarrow> None)"

lemma map_retain_eq_Some [simp]: "map_retain P m k = Some v \<longleftrightarrow> m k = Some v \<and> P v"
  by (auto simp: map_retain_def split: option.splits)

lemma map_retain_eq_None: "map_retain P m k = None \<longleftrightarrow> (\<forall>v. m k = Some v \<longrightarrow> \<not> P v)"
  by (auto simp: map_retain_def split: option.splits)

lemma length_filter_mono: "(\<And>x. x \<in> set xs \<Longrightarrow> P x \<Longrightarrow> Q x) \<Longrightarrow> length (filter P xs) \<le> length (filter Q xs)"
  by (induction xs) (auto intro: le_SucI)

subsection \<open>Simulation\<close>

fun answers :: "('s \<Rightarrow> 'c \<Rightarrow> 's \<times> 'a) \<Rightarrow> 's \<Rightarrow> 'c list \<Rightarrow> 'a list" where
  "answers step s [] = []"
| "answers step s (c # cs) = (let (s', a) = step s c in a # answers step s' cs)"

lemma length_answers [simp]: "length (answers step s cs) = length cs"
  by (induction cs arbitrary: s) (simp_all add: case_prod_beta)

text \<open>
  A component that simulates its specification, given a clock that does not run backwards,
  answers every sequence of calls like it.
\<close>

locale clocked_simulation =
  fixes before :: "'t \<Rightarrow> 't \<Rightarrow> bool"
    and time :: "'c \<Rightarrow> 't"
    and rel :: "'t \<Rightarrow> 'm \<Rightarrow> 's \<Rightarrow> bool"
    and spec :: "'m \<Rightarrow> 'c \<Rightarrow> 'm \<times> 'a"
    and step :: "'s \<Rightarrow> 'c \<Rightarrow> 's \<times> 'a"
  assumes simulates: "rel t m s \<Longrightarrow> before t (time c) \<Longrightarrow>
      snd (step s c) = snd (spec m c) \<and> rel (time c) (fst (spec m c)) (fst (step s c))"
begin

lemma answers_eq: "rel t m s \<Longrightarrow> successively before (t # map time cs) \<Longrightarrow> answers step s cs = answers spec m cs"
proof (induction cs arbitrary: t m s)
  case Nil
  show ?case by simp
next
  case (Cons c cs)
  have "before t (time c)" "successively before (time c # map time cs)"
    using Cons.prems(2) by (simp_all add: successively_Cons)
  with simulates [OF Cons.prems(1), of c] show ?case
    by (simp add: case_prod_beta Cons.IH [of "time c" "fst (spec m c)" "fst (step s c)"])
qed

end

lemma successively_le_iff: "successively (\<lambda>a b. f a \<le> (f b :: 'b :: linorder)) xs \<longleftrightarrow> sorted (map f xs)"
  by (induction xs rule: induct_list012) (auto intro: order_trans)

end
