(* ===== verification/Admission_Deny_List.thy ===== *)
theory Admission_Deny_List
  imports Core_Ids Core_Nonce_Store Clocked
begin

text \<open>
  The \<open>message_id\<close> deny list of pinned-key admission (\<open>handshake/admission/deny_list.rs\<close>):
  sharded maps from identifiers to the last second they are listed, an expiry heap per shard
  and a counter that bounds the records.

  Shown here: with a clock that does not run backwards the list answers exactly like a bounded
  map whose records expire, whatever the hash function and the number of shards (a refinement,
  through a locale for the \<open>MessageIdDenyList\<close> trait). Concurrent callers are the subject
  of \<open>Admission_Deny_Runs\<close>.
\<close>

datatype deny_list_error = DenyAtCapacity usize | DenyBackend

record deny_shard =
  ds_map :: "(uuid \<times> i64) list"
  ds_expiry :: "(i64 \<times> uuid) list"

fun deny_purge_loop :: "(i64 \<times> uuid) list \<Rightarrow> (uuid \<times> i64) list \<Rightarrow> timestamp \<Rightarrow> nat \<Rightarrow>
    (i64 \<times> uuid) list \<times> (uuid \<times> i64) list \<times> nat" where
  "deny_purge_loop [] m now removed = ([], m, removed)"
| "deny_purge_loop ((until, i) # h) m now removed =
     (if \<not> is_in_the_past until now then ((until, i) # h, m, removed)
      else if map_of m i = Some until
      then deny_purge_loop h (AList.delete i m) now (Suc removed)
      else deny_purge_loop h m now removed)"

definition deny_purge :: "deny_shard \<Rightarrow> timestamp \<Rightarrow> deny_shard \<times> nat" where
  "deny_purge sh now =
     (let (h, m, removed) = deny_purge_loop (ds_expiry sh) (ds_map sh) now 0
      in (sh\<lparr>ds_map := m, ds_expiry := h\<rparr>, removed))"

record deny_list =
  dn_shards :: "deny_shard list"
  dn_capacity :: usize
  dn_live :: usize

definition DENY_DEFAULT_CAPACITY :: usize where "DENY_DEFAULT_CAPACITY = 100000"

text \<open>\<open>usize::next_power_of_two\<close> for the values that occur here, and the number of shards.\<close>

function next_power_of_two_from :: "nat \<Rightarrow> nat \<Rightarrow> nat" where
  "next_power_of_two_from p n = (if p = 0 \<or> n \<le> p then p else next_power_of_two_from (2 * p) n)"
  by pat_completeness auto

termination by (relation "measure (\<lambda>(p, n). n - p)") auto

declare next_power_of_two_from.simps [simp del]

definition next_power_of_two :: "nat \<Rightarrow> nat" where
  "next_power_of_two n = next_power_of_two_from 1 n"

definition deny_shard_count :: "nat option \<Rightarrow> nat" where
  "deny_shard_count available =
     min 256 (max 1 (case available of Some n \<Rightarrow> next_power_of_two (n * 4) | None \<Rightarrow> 16))"

definition deny_list_new :: "nat option \<Rightarrow> usize \<Rightarrow> deny_list" where
  "deny_list_new available cap =
     \<lparr>dn_shards = replicate (deny_shard_count available) \<lparr>ds_map = [], ds_expiry = []\<rparr>,
      dn_capacity = cap, dn_live = 0\<rparr>"

definition deny_len :: "deny_list \<Rightarrow> usize" where
  "deny_len s = dn_live s"

definition deny_is_empty :: "deny_list \<Rightarrow> bool" where
  "deny_is_empty s \<longleftrightarrow> deny_len s = 0"

definition deny_release :: "deny_list \<Rightarrow> nat \<Rightarrow> deny_list" where
  "deny_release s n = s\<lparr>dn_live := dn_live s - of_nat n\<rparr>"

text \<open>\<open>sweep\<close>: every shard is purged in turn, then the counter is lowered once.\<close>

definition deny_sweep :: "deny_list \<Rightarrow> timestamp \<Rightarrow> deny_list \<times> nat" where
  "deny_sweep s now =
     (let purged = map (\<lambda>sh. deny_purge sh now) (dn_shards s);
          removed = sum_list (map snd purged)
      in (deny_release (s\<lparr>dn_shards := map fst purged\<rparr>) removed, removed))"

definition deny_shard_index :: "(uuid \<Rightarrow> u64) \<Rightarrow> deny_list \<Rightarrow> uuid \<Rightarrow> nat" where
  "deny_shard_index hash s i = unat (hash i) mod length (dn_shards s)"

definition deny_set_shard :: "deny_list \<Rightarrow> nat \<Rightarrow> deny_shard \<Rightarrow> deny_list" where
  "deny_set_shard s k sh = s\<lparr>dn_shards := (dn_shards s)[k := sh]\<rparr>"

definition deny_purge_at :: "deny_list \<Rightarrow> nat \<Rightarrow> timestamp \<Rightarrow> deny_list" where
  "deny_purge_at s k now =
     (let (sh, removed) = deny_purge (dn_shards s ! k) now in deny_release (deny_set_shard s k sh) removed)"

definition deny_holds :: "deny_list \<Rightarrow> nat \<Rightarrow> uuid \<Rightarrow> bool" where
  "deny_holds s k i \<longleftrightarrow> map_of (ds_map (dn_shards s ! k)) i \<noteq> None"

definition contains_sync :: "(uuid \<Rightarrow> u64) \<Rightarrow> deny_list \<Rightarrow> uuid \<Rightarrow> timestamp \<Rightarrow> deny_list \<times> bool" where
  "contains_sync hash s i now =
     (let k = deny_shard_index hash s i; s1 = deny_purge_at s k now in (s1, deny_holds s1 k i))"

definition deny_put :: "deny_list \<Rightarrow> nat \<Rightarrow> uuid \<Rightarrow> timestamp \<Rightarrow> deny_list" where
  "deny_put s k i until =
     (let sh = dn_shards s ! k;
          s1 = deny_set_shard s k (sh\<lparr>ds_map := AList.update i until (ds_map sh),
                                      ds_expiry := heap_push (until, i) (ds_expiry sh)\<rparr>)
      in s1\<lparr>dn_live := dn_live s1 + 1\<rparr>)"

definition insert_sync :: "(uuid \<Rightarrow> u64) \<Rightarrow> deny_list \<Rightarrow> uuid \<Rightarrow> timestamp \<Rightarrow> timestamp \<Rightarrow>
    deny_list \<times> (deny_list_error, bool) result" where
  "insert_sync hash s i until now =
     (let k = deny_shard_index hash s i; s1 = deny_purge_at s k now in
      if deny_holds s1 k i then (s1, Ok False)
      else if dn_capacity s1 \<le> deny_len s1 then
        let s2 = fst (deny_sweep s1 now) in
        if dn_capacity s2 \<le> deny_len s2 then (s2, Err (DenyAtCapacity (dn_capacity s2)))
        else if deny_holds s2 k i then (s2, Ok False)
        else (deny_put s2 k i until, Ok True)
      else (deny_put s1 k i until, Ok True))"

subsection \<open>The contract\<close>

text \<open>
  What the trait promises, as a machine of its own: a map from identifiers to the last second
  they are listed, with room for \<open>cap\<close> live records.
\<close>

datatype deny_call = CallContains uuid timestamp | CallInsert uuid timestamp timestamp

datatype deny_answer = Listed bool | Inserted "(deny_list_error, bool) result"

fun deny_call_time :: "deny_call \<Rightarrow> timestamp" where
  "deny_call_time (CallContains i now) = now"
| "deny_call_time (CallInsert i until now) = now"

definition listed :: "(uuid \<rightharpoonup> i64) \<Rightarrow> uuid \<Rightarrow> timestamp \<Rightarrow> bool" where
  "listed m i now \<longleftrightarrow> (case m i of Some u \<Rightarrow> \<not> is_in_the_past u now | None \<Rightarrow> False)"

definition spec_step :: "usize \<Rightarrow> (uuid \<rightharpoonup> i64) \<Rightarrow> deny_call \<Rightarrow> (uuid \<rightharpoonup> i64) \<times> deny_answer" where
  "spec_step cap m c =
     (case c of
        CallContains i now \<Rightarrow> (m, Listed (listed m i now))
      | CallInsert i until now \<Rightarrow>
          if listed m i now then (m, Inserted (Ok False))
          else if unat cap \<le> card {j. listed m j now} then (m, Inserted (Err (DenyAtCapacity cap)))
          else (m(i \<mapsto> until), Inserted (Ok True)))"

definition deny_step :: "(uuid \<Rightarrow> u64) \<Rightarrow> deny_list \<Rightarrow> deny_call \<Rightarrow> deny_list \<times> deny_answer" where
  "deny_step hash s c =
     (case c of
        CallContains i now \<Rightarrow> map_prod id Listed (contains_sync hash s i now)
      | CallInsert i until now \<Rightarrow> map_prod id Inserted (insert_sync hash s i until now))"

text \<open>
  An implementation of the trait simulates the specification, given a clock that does not run
  backwards.
\<close>

locale deny_list_contract =
  clocked_simulation "\<lambda>s t. sint s \<le> sint t" deny_call_time rel "spec_step cap" step
  for cap :: usize and rel :: "timestamp \<Rightarrow> (uuid \<rightharpoonup> i64) \<Rightarrow> 's \<Rightarrow> bool" and step :: "'s \<Rightarrow> deny_call \<Rightarrow> 's \<times> deny_answer"

subsection \<open>Purging a shard\<close>

text \<open>
  A shard of the deny list is a shard of the nonce store whose records name no verifier, so
  what purging does carries over.
\<close>

definition as_entry :: "i64 \<Rightarrow> entry" where
  "as_entry u = \<lparr>ent_verifier = Aid [], ent_expires_at = u\<rparr>"

abbreviation as_entries :: "(uuid \<times> i64) list \<Rightarrow> (nonce \<times> entry) list" where
  "as_entries m \<equiv> map (\<lambda>(i, u). (i, as_entry u)) m"

lemma as_entry_inject [simp]: "as_entry u = as_entry v \<longleftrightarrow> u = v"
  by (simp add: as_entry_def)

lemma ent_expires_at_as_entry [simp]: "ent_expires_at (as_entry u) = u"
  by (simp add: as_entry_def)

lemma keys_as_entries [simp]: "map fst (as_entries m) = map fst m"
  by (induction m) auto

lemma map_of_as_entries: "map_of (as_entries m) i = map_option as_entry (map_of m i)"
  by (induction m) auto

lemma delete_as_entries: "AList.delete i (as_entries m) = as_entries (AList.delete i m)"
  by (induction m) auto

lemma as_entries_inject: "as_entries m = as_entries m' \<longleftrightarrow> m = m'"
  by (rule inj_map_eq_map) (auto simp: inj_def)

lemma purge_loop_as_entries:
  "deny_purge_loop h m now r = (h', m', r') \<Longrightarrow> purge_loop h (as_entries m) now r = (h', as_entries m', r')"
proof (induction h m now r rule: deny_purge_loop.induct)
  case (2 u i h m now r)
  have "(case map_of (as_entries m) i of Some e \<Rightarrow> ent_expires_at e = u | None \<Rightarrow> False) \<longleftrightarrow> map_of m i = Some u"
    by (auto simp: map_of_as_entries split: option.splits)
  with 2 show ?case by (simp add: delete_as_entries split: if_splits)
qed simp

definition deny_shard_wf :: "deny_shard \<Rightarrow> bool" where
  "deny_shard_wf sh \<longleftrightarrow>
     distinct (map fst (ds_map sh)) \<and> sorted (map heap_key (ds_expiry sh)) \<and>
     (\<forall>(i, u)\<in>set (ds_map sh). (u, i) \<in> set (ds_expiry sh))"

abbreviation listed_at :: "timestamp \<Rightarrow> uuid \<times> i64 \<Rightarrow> bool" where
  "listed_at now iu \<equiv> \<not> is_in_the_past (snd iu) now"

lemma deny_purge_spec:
  assumes "deny_shard_wf sh" "deny_purge sh now = (sh', removed)"
  shows "ds_map sh' = filter (listed_at now) (ds_map sh)"
    and "removed + length (ds_map sh') = length (ds_map sh)"
    and "deny_shard_wf sh'"
proof -
  let ?n = "\<lparr>sh_map = as_entries (ds_map sh), sh_expiry = ds_expiry sh\<rparr>"
  obtain h m r where loop: "deny_purge_loop (ds_expiry sh) (ds_map sh) now 0 = (h, m, r)"
    by (cases "deny_purge_loop (ds_expiry sh) (ds_map sh) now 0")
  then have sh': "sh' = sh\<lparr>ds_map := m, ds_expiry := h\<rparr>" "removed = r"
    using assms(2) by (simp_all add: deny_purge_def)
  have wf: "shard_wf ?n"
    unfolding shard_wf_def shard.select_convs keys_as_entries
    using assms(1) by (auto simp: deny_shard_wf_def)
  have pu: "purge ?n now = (\<lparr>sh_map = as_entries m, sh_expiry = h\<rparr>, r)"
    by (simp add: purge_def purge_loop_as_entries [OF loop])
  note ps = purge_spec [OF wf pu]
  have "as_entries m = as_entries (filter (listed_at now) (ds_map sh))"
    using ps(1) by (simp add: filter_map comp_def case_prod_beta)
  then have m: "m = filter (listed_at now) (ds_map sh)" unfolding as_entries_inject .
  show "ds_map sh' = filter (listed_at now) (ds_map sh)" using sh' m by simp
  show "removed + length (ds_map sh') = length (ds_map sh)" using ps(2) sh' by simp
  show "deny_shard_wf sh'"
    using ps(3) unfolding shard_wf_def shard.select_convs keys_as_entries
    by (auto simp: deny_shard_wf_def sh')
qed

subsection \<open>The invariant of the list\<close>

definition deny_records :: "deny_list \<Rightarrow> nat" where
  "deny_records s = (\<Sum>sh\<leftarrow>dn_shards s. length (ds_map sh))"

definition deny_lookup :: "(uuid \<Rightarrow> u64) \<Rightarrow> deny_list \<Rightarrow> uuid \<rightharpoonup> i64" where
  "deny_lookup hash s i = map_of (ds_map (dn_shards s ! deny_shard_index hash s i)) i"

definition deny_shards_wf :: "(uuid \<Rightarrow> u64) \<Rightarrow> deny_list \<Rightarrow> bool" where
  "deny_shards_wf hash s \<longleftrightarrow>
     dn_shards s \<noteq> [] \<and>
     (\<forall>k<length (dn_shards s). deny_shard_wf (dn_shards s ! k) \<and>
        (\<forall>i\<in>fst ` set (ds_map (dn_shards s ! k)). deny_shard_index hash s i = k))"

text \<open>\<open>p\<close> is the number of records that running calls removed and did not subtract yet.\<close>

definition deny_inv :: "(uuid \<Rightarrow> u64) \<Rightarrow> deny_list \<Rightarrow> nat \<Rightarrow> bool" where
  "deny_inv hash s p \<longleftrightarrow> deny_shards_wf hash s \<and> unat (dn_live s) = deny_records s + p"

lemma deny_shard_index_less: "deny_shards_wf hash s \<Longrightarrow> deny_shard_index hash s i < length (dn_shards s)"
  by (simp add: deny_shards_wf_def deny_shard_index_def)

lemma deny_set_shard_simps [simp]:
  "dn_shards (deny_set_shard s k sh) = (dn_shards s)[k := sh]"
  "dn_capacity (deny_set_shard s k sh) = dn_capacity s" "dn_live (deny_set_shard s k sh) = dn_live s"
  by (simp_all add: deny_set_shard_def)

lemma deny_release_simps [simp]:
  "dn_shards (deny_release s n) = dn_shards s" "dn_capacity (deny_release s n) = dn_capacity s"
  "dn_live (deny_release s n) = dn_live s - of_nat n"
  by (simp_all add: deny_release_def)

lemma deny_index_cong:
  "length (dn_shards s') = length (dn_shards s) \<Longrightarrow> deny_shard_index hash s' i = deny_shard_index hash s i"
  by (simp add: deny_shard_index_def)

lemma deny_cong:
  assumes "dn_shards s' = dn_shards s"
  shows "deny_lookup hash s' = deny_lookup hash s" "deny_shards_wf hash s' = deny_shards_wf hash s"
    "deny_records s' = deny_records s"
  using assms by (simp_all add: fun_eq_iff deny_lookup_def deny_shards_wf_def deny_records_def deny_shard_index_def)

lemma deny_lookup_set_shard:
  assumes "k < length (dn_shards s)"
  shows "deny_lookup hash (deny_set_shard s k sh) i =
    (if deny_shard_index hash s i = k then map_of (ds_map sh) i else deny_lookup hash s i)"
  using assms deny_index_cong [of "deny_set_shard s k sh" s hash i]
  by (auto simp: deny_lookup_def nth_list_update)

lemma deny_shards_wf_set_shard:
  assumes "deny_shards_wf hash s" "k < length (dn_shards s)" "deny_shard_wf sh"
    and "\<forall>i\<in>fst ` set (ds_map sh). deny_shard_index hash s i = k"
  shows "deny_shards_wf hash (deny_set_shard s k sh)"
  using assms deny_index_cong [of "deny_set_shard s k sh" s hash]
  by (auto simp: deny_shards_wf_def nth_list_update)

lemma deny_records_set_shard:
  "k < length (dn_shards s) \<Longrightarrow>
     deny_records (deny_set_shard s k sh) + length (ds_map (dn_shards s ! k)) = deny_records s + length (ds_map sh)"
  unfolding deny_records_def deny_set_shard_simps by (rule sum_list_update_nat)

lemma map_of_filter_listed:
  assumes "distinct (map fst m)"
  shows "map_of (filter (listed_at now) m) i =
    (case map_of m i of Some u \<Rightarrow> if is_in_the_past u now then None else Some u | None \<Rightarrow> None)"
  using assms by (induction m) (force split: option.splits)+

text \<open>The records are as many as the identifiers that have one.\<close>

lemma deny_records_card:
  assumes "deny_shards_wf hash s"
  shows "finite (dom (deny_lookup hash s))" "deny_records s = card (dom (deny_lookup hash s))"
proof -
  let ?n = "length (dn_shards s)" and ?K = "\<lambda>k. fst ` set (ds_map (dn_shards s ! k))"
  have idx: "k < ?n \<Longrightarrow> i \<in> ?K k \<Longrightarrow> deny_shard_index hash s i = k" for k i
    using assms by (auto simp: deny_shards_wf_def)
  have dom: "dom (deny_lookup hash s) = (\<Union>k<?n. ?K k)"
  proof (intro set_eqI)
    fix i
    have "i \<in> dom (deny_lookup hash s) \<longleftrightarrow> i \<in> ?K (deny_shard_index hash s i)"
      by (simp add: deny_lookup_def domIff map_of_eq_None_iff)
    also have "\<dots> \<longleftrightarrow> (\<exists>k<?n. i \<in> ?K k)"
      using idx [of _ i] deny_shard_index_less [OF assms, of i] by metis
    finally show "i \<in> dom (deny_lookup hash s) \<longleftrightarrow> i \<in> (\<Union>k<?n. ?K k)" by (simp add: Bex_def)
  qed
  then show "finite (dom (deny_lookup hash s))" by simp
  have len: "length (ds_map (dn_shards s ! k)) = card (?K k)" if "k < ?n" for k
    using assms that distinct_card [of "map fst (ds_map (dn_shards s ! k))"]
    by (simp add: deny_shards_wf_def deny_shard_wf_def)
  have "deny_records s = (\<Sum>k<?n. card (?K k))"
    using len by (simp add: deny_records_def sum_list_sum_nth atLeast0LessThan)
  also have "\<dots> = card (\<Union>k<?n. ?K k)"
  proof (intro card_UN_disjoint [symmetric] ballI impI)
    show "?K k \<inter> ?K j = {}" if "k \<in> {..<?n}" "j \<in> {..<?n}" "k \<noteq> j" for k j
      using idx [of k] idx [of j] that by (metis disjoint_iff lessThan_iff)
  qed simp_all
  finally show "deny_records s = card (dom (deny_lookup hash s))" unfolding dom .
qed

lemma deny_shard_wf_at:
  "deny_shards_wf hash s \<Longrightarrow> k < length (dn_shards s) \<Longrightarrow> deny_shard_wf (dn_shards s ! k)"
  by (simp add: deny_shards_wf_def)

definition live_at :: "timestamp \<Rightarrow> i64 option \<Rightarrow> i64 option" where
  "live_at now r = (case r of Some u \<Rightarrow> if is_in_the_past u now then None else Some u | None \<Rightarrow> None)"

lemma deny_purge_set_shard:
  assumes "deny_inv hash s p" "k < length (dn_shards s)" "deny_purge (dn_shards s ! k) now = (sh, removed)"
  shows "deny_inv hash (deny_set_shard s k sh) (p + removed)"
    and "deny_lookup hash (deny_set_shard s k sh) i =
      (if deny_shard_index hash s i = k then live_at now (deny_lookup hash s i) else deny_lookup hash s i)"
proof -
  have wf: "deny_shards_wf hash s" and live: "unat (dn_live s) = deny_records s + p"
    using assms(1) by (simp_all add: deny_inv_def)
  note ps = deny_purge_spec [OF deny_shard_wf_at [OF wf assms(2)] assms(3)]
  have "deny_shards_wf hash (deny_set_shard s k sh)"
    using wf assms(2) by (intro deny_shards_wf_set_shard [OF wf assms(2) ps(3)]) (auto simp: ps(1) deny_shards_wf_def)
  moreover have "deny_records (deny_set_shard s k sh) + removed = deny_records s"
    using deny_records_set_shard [OF assms(2), of sh] ps(2) by linarith
  ultimately show "deny_inv hash (deny_set_shard s k sh) (p + removed)"
    using live by (simp add: deny_inv_def)
  have "distinct (map fst (ds_map (dn_shards s ! k)))"
    using deny_shard_wf_at [OF wf assms(2)] by (simp add: deny_shard_wf_def)
  then show "deny_lookup hash (deny_set_shard s k sh) i =
      (if deny_shard_index hash s i = k then live_at now (deny_lookup hash s i) else deny_lookup hash s i)"
    unfolding deny_lookup_set_shard [OF assms(2)]
    by (auto simp: ps(1) map_of_filter_listed live_at_def deny_lookup_def)
qed

lemma deny_inv_release:
  assumes "deny_inv hash s p" "n \<le> p"
  shows "deny_inv hash (deny_release s n) (p - n)"
proof -
  have live: "unat (dn_live s) = deny_records s + p" using assms(1) by (simp add: deny_inv_def)
  then have "unat (dn_live s - of_nat n) = deny_records s + (p - n)"
    using unat_sub_of_nat [of n "dn_live s"] assms(2) by simp
  then show ?thesis
    using assms(1) deny_cong [of "deny_release s n" s] by (simp add: deny_inv_def)
qed

lemma deny_purge_at:
  assumes "deny_inv hash s p" "k < length (dn_shards s)"
  shows "deny_inv hash (deny_purge_at s k now) p" "dn_capacity (deny_purge_at s k now) = dn_capacity s"
    "length (dn_shards (deny_purge_at s k now)) = length (dn_shards s)"
    "deny_lookup hash (deny_purge_at s k now) i =
      (if deny_shard_index hash s i = k then live_at now (deny_lookup hash s i) else deny_lookup hash s i)"
proof -
  obtain sh r where pu: "deny_purge (dn_shards s ! k) now = (sh, r)" by (cases "deny_purge (dn_shards s ! k) now")
  then have eq: "deny_purge_at s k now = deny_release (deny_set_shard s k sh) r" by (simp add: deny_purge_at_def)
  note ps = deny_purge_set_shard [OF assms pu]
  show "deny_inv hash (deny_purge_at s k now) p"
    using deny_inv_release [OF ps(1), of r] by (simp add: eq)
  show "dn_capacity (deny_purge_at s k now) = dn_capacity s"
    "length (dn_shards (deny_purge_at s k now)) = length (dn_shards s)" by (simp_all add: eq)
  show "deny_lookup hash (deny_purge_at s k now) i =
      (if deny_shard_index hash s i = k then live_at now (deny_lookup hash s i) else deny_lookup hash s i)"
    unfolding eq deny_cong(1) [of "deny_release (deny_set_shard s k sh) r" "deny_set_shard s k sh", simplified] by (rule ps(2))
qed

lemma deny_sweep:
  assumes "deny_inv hash s p" "deny_sweep s now = (s', removed)"
  shows "deny_inv hash s' p" "dn_capacity s' = dn_capacity s" "length (dn_shards s') = length (dn_shards s)"
    "deny_lookup hash s' i = live_at now (deny_lookup hash s i)"
proof -
  let ?m = "s\<lparr>dn_shards := map (\<lambda>sh. fst (deny_purge sh now)) (dn_shards s)\<rparr>"
  have wf: "deny_shards_wf hash s" and live: "unat (dn_live s) = deny_records s + p"
    using assms(1) by (simp_all add: deny_inv_def)
  have ps: "ds_map (fst (deny_purge sh now)) = filter (listed_at now) (ds_map sh)"
    "snd (deny_purge sh now) + length (ds_map (fst (deny_purge sh now))) = length (ds_map sh)"
    "deny_shard_wf (fst (deny_purge sh now))" if "sh \<in> set (dn_shards s)" for sh
  proof -
    have w: "deny_shard_wf sh" using that wf by (auto simp: deny_shards_wf_def in_set_conv_nth)
    note sp = deny_purge_spec [OF w, of now "fst (deny_purge sh now)" "snd (deny_purge sh now)"]
    show "ds_map (fst (deny_purge sh now)) = filter (listed_at now) (ds_map sh)"
      "snd (deny_purge sh now) + length (ds_map (fst (deny_purge sh now))) = length (ds_map sh)"
      "deny_shard_wf (fst (deny_purge sh now))" using sp by simp_all
  qed
  have s': "s' = deny_release ?m removed" and rem: "removed = (\<Sum>sh\<leftarrow>dn_shards s. snd (deny_purge sh now))"
    using assms(2) by (auto simp: deny_sweep_def Let_def comp_def)
  have ix: "deny_shard_index hash ?m j = deny_shard_index hash s j" for j by (rule deny_index_cong) simp
  have "deny_shards_wf hash ?m"
    using wf ps(1,3) by (auto simp: deny_shards_wf_def ix)
  moreover have "deny_records ?m + removed = deny_records s"
  proof -
    have "deny_records ?m + removed =
        (\<Sum>sh\<leftarrow>dn_shards s. snd (deny_purge sh now) + length (ds_map (fst (deny_purge sh now))))"
      by (simp add: deny_records_def rem comp_def sum_list_addf add.commute)
    also have "\<dots> = deny_records s"
      unfolding deny_records_def by (intro arg_cong [where f = sum_list] map_cong refl ps(2))
    finally show ?thesis .
  qed
  ultimately have "deny_inv hash ?m (p + removed)" using live by (simp add: deny_inv_def)
  from deny_inv_release [OF this, of removed] show "deny_inv hash s' p" by (simp add: s')
  show "dn_capacity s' = dn_capacity s" "length (dn_shards s') = length (dn_shards s)" by (simp_all add: s')
  have k: "deny_shard_index hash s i < length (dn_shards s)" by (rule deny_shard_index_less [OF wf])
  then have "distinct (map fst (ds_map (dn_shards s ! deny_shard_index hash s i)))"
    using wf by (simp add: deny_shards_wf_def deny_shard_wf_def)
  then show "deny_lookup hash s' i = live_at now (deny_lookup hash s i)"
    using k ix by (simp add: s' deny_cong(1) [of "deny_release ?m removed" ?m] deny_lookup_def ps(1)
        map_of_filter_listed live_at_def)
qed

lemma deny_put:
  assumes "deny_inv hash s p" "deny_lookup hash s i = None" "unat (dn_live s) < 2 ^ 64 - 1"
    and "k = deny_shard_index hash s i"
  shows "deny_inv hash (deny_put s k i until) p" "dn_capacity (deny_put s k i until) = dn_capacity s"
    "length (dn_shards (deny_put s k i until)) = length (dn_shards s)"
    "unat (dn_live (deny_put s k i until)) = Suc (unat (dn_live s))"
    "deny_lookup hash (deny_put s k i until) = (deny_lookup hash s)(i \<mapsto> until)"
proof -
  let ?sh = "dn_shards s ! k"
  let ?sh' = "?sh\<lparr>ds_map := AList.update i until (ds_map ?sh), ds_expiry := heap_push (until, i) (ds_expiry ?sh)\<rparr>"
  let ?s1 = "deny_set_shard s k ?sh'"
  have wf: "deny_shards_wf hash s" and live: "unat (dn_live s) = deny_records s + p"
    using assms(1) by (simp_all add: deny_inv_def)
  have k: "k < length (dn_shards s)" unfolding assms(4) by (rule deny_shard_index_less [OF wf])
  have eq: "deny_put s k i until = ?s1\<lparr>dn_live := dn_live s + 1\<rparr>"
    by (simp add: deny_put_def Let_def)
  have new: "i \<notin> fst ` set (ds_map ?sh)"
    using assms(2) by (simp add: deny_lookup_def assms(4) map_of_eq_None_iff)
  have swf: "deny_shard_wf ?sh" by (rule deny_shard_wf_at [OF wf k])
  then have "deny_shard_wf ?sh'"
    using new by (auto simp: deny_shard_wf_def alist_update_new intro: sorted_heap_push)
  moreover have "\<forall>j\<in>fst ` set (ds_map ?sh). deny_shard_index hash s j = k"
    using wf k by (simp add: deny_shards_wf_def)
  ultimately have wf1: "deny_shards_wf hash ?s1"
    by (intro deny_shards_wf_set_shard [OF wf k]) (auto simp: alist_update_new [OF new] assms(4) [symmetric])
  have "deny_records ?s1 = Suc (deny_records s)"
    using deny_records_set_shard [OF k, of ?sh'] by (simp add: alist_update_new [OF new])
  moreover show u: "unat (dn_live (deny_put s k i until)) = Suc (unat (dn_live s))"
    using assms(3) by (simp add: eq unat_word_ariths)
  ultimately show "deny_inv hash (deny_put s k i until) p"
    using wf1 live deny_cong [of "deny_put s k i until" ?s1] by (simp add: deny_inv_def) (simp add: eq)
  show "dn_capacity (deny_put s k i until) = dn_capacity s"
    "length (dn_shards (deny_put s k i until)) = length (dn_shards s)" by (simp_all add: eq)
  show "deny_lookup hash (deny_put s k i until) = (deny_lookup hash s)(i \<mapsto> until)"
  proof
    fix j
    have "deny_lookup hash (deny_put s k i until) j = deny_lookup hash ?s1 j"
      by (rule fun_cong [OF deny_cong(1)]) (simp add: eq)
    also have "\<dots> = ((deny_lookup hash s)(i \<mapsto> until)) j"
      unfolding deny_lookup_set_shard [OF k] using assms(4) by (auto simp: AList.update_conv deny_lookup_def)
    finally show "deny_lookup hash (deny_put s k i until) j = ((deny_lookup hash s)(i \<mapsto> until)) j" .
  qed
qed

subsection \<open>The refinement\<close>

definition deny_rel :: "(uuid \<Rightarrow> u64) \<Rightarrow> usize \<Rightarrow> timestamp \<Rightarrow> (uuid \<rightharpoonup> i64) \<Rightarrow> deny_list \<Rightarrow> bool" where
  "deny_rel hash cap t m s \<longleftrightarrow>
     deny_inv hash s 0 \<and> dn_capacity s = cap \<and> dn_live s \<le> cap \<and>
     (\<forall>i. deny_lookup hash s i = m i \<or> deny_lookup hash s i = None \<and> live_at t (m i) = None)"

lemma live_at_later: "live_at t r = None \<Longrightarrow> sint t \<le> sint now \<Longrightarrow> live_at now r = None"
  by (auto simp: live_at_def is_in_the_past_def split: option.splits if_splits)

lemma live_at_idem [simp]: "live_at now (live_at now r) = live_at now r"
  by (auto simp: live_at_def split: option.splits)

lemma live_at_cases: "live_at now r = r \<or> live_at now r = None"
  by (auto simp: live_at_def split: option.splits)

lemma listed_live: "listed m i now \<longleftrightarrow> live_at now (m i) \<noteq> None"
  by (auto simp: listed_def live_at_def split: option.splits)

lemma deny_rel_listed:
  assumes "deny_rel hash cap t m s" "sint t \<le> sint now"
  shows "live_at now (deny_lookup hash s i) = live_at now (m i)"
  using assms live_at_later unfolding deny_rel_def by (metis live_at_cases)

lemma deny_rel_drop:
  assumes "deny_rel hash cap t m s" "sint t \<le> sint now" "deny_inv hash s' 0" "dn_capacity s' = dn_capacity s"
    and "dn_live s' \<le> dn_live s"
    and "\<And>i. deny_lookup hash s' i = deny_lookup hash s i \<or> deny_lookup hash s' i = live_at now (deny_lookup hash s i)"
  shows "deny_rel hash cap now m s'"
proof -
  have "deny_lookup hash s' i = m i \<or> deny_lookup hash s' i = None \<and> live_at now (m i) = None" for i
    using assms(1) assms(6) [of i] deny_rel_listed [OF assms(1,2), of i] live_at_later [OF _ assms(2)] live_at_cases [of now "m i"]
    unfolding deny_rel_def by metis
  with assms(1,3,4,5) show ?thesis unfolding deny_rel_def by (auto intro: order_trans)
qed

lemma deny_live_le:
  assumes "deny_inv hash s 0" "deny_inv hash s' 0" "dom (deny_lookup hash s') \<subseteq> dom (deny_lookup hash s)"
  shows "dn_live s' \<le> dn_live s"
  using assms deny_records_card [of hash s] deny_records_card [of hash s']
  by (simp add: deny_inv_def word_le_nat_alt card_mono)

lemma deny_rel_purge_at:
  assumes "deny_rel hash cap t m s" "sint t \<le> sint now" "k = deny_shard_index hash s i"
  shows "deny_rel hash cap now m (deny_purge_at s k now)"
    and "deny_holds (deny_purge_at s k now) k i \<longleftrightarrow> listed m i now"
    and "deny_shard_index hash (deny_purge_at s k now) i = k"
proof -
  have inv: "deny_inv hash s 0" using assms(1) by (simp add: deny_rel_def)
  then have k: "k < length (dn_shards s)"
    unfolding assms(3) by (simp add: deny_inv_def deny_shard_index_less)
  note pa = deny_purge_at [OF inv k, of now]
  have "dom (deny_lookup hash (deny_purge_at s k now)) \<subseteq> dom (deny_lookup hash s)"
    unfolding dom_def pa(4) by (auto simp: live_at_def split: if_splits option.splits)
  from deny_live_le [OF inv pa(1) this] show "deny_rel hash cap now m (deny_purge_at s k now)"
    using pa by (intro deny_rel_drop [OF assms(1,2)]) simp_all
  show ix: "deny_shard_index hash (deny_purge_at s k now) i = k"
    using deny_index_cong [OF pa(3)] assms(3) by simp
  show "deny_holds (deny_purge_at s k now) k i \<longleftrightarrow> listed m i now"
    using pa(4) [of i] ix deny_rel_listed [OF assms(1,2), of i] assms(3)
    by (simp add: deny_holds_def deny_lookup_def listed_live)
qed

lemma deny_rel_sweep:
  assumes "deny_rel hash cap t m s" "sint t \<le> sint now" "deny_sweep s now = (s', r)"
  shows "deny_rel hash cap now m s'" "deny_lookup hash s' i = live_at now (m i)"
    "unat (dn_live s') = card {j. listed m j now}" "deny_shard_index hash s' i = deny_shard_index hash s i"
proof -
  have inv: "deny_inv hash s 0" using assms(1) by (simp add: deny_rel_def)
  note sw = deny_sweep [OF inv assms(3)]
  have lk: "deny_lookup hash s' j = live_at now (m j)" for j
    using sw(4) deny_rel_listed [OF assms(1,2)] by simp
  then show "deny_lookup hash s' i = live_at now (m i)" .
  have "dom (deny_lookup hash s') \<subseteq> dom (deny_lookup hash s)"
    unfolding dom_def sw(4) by (auto simp: live_at_def split: option.splits)
  from deny_live_le [OF inv sw(1) this] show "deny_rel hash cap now m s'"
    using sw by (intro deny_rel_drop [OF assms(1,2)]) simp_all
  have "dom (deny_lookup hash s') = {j. listed m j now}" by (auto simp: dom_def lk listed_live)
  then show "unat (dn_live s') = card {j. listed m j now}"
    using sw(1) deny_records_card(2) [of hash s'] by (simp add: deny_inv_def)
  show "deny_shard_index hash s' i = deny_shard_index hash s i" by (rule deny_index_cong [OF sw(3)])
qed

lemma deny_rel_put:
  assumes "deny_rel hash cap now m s" "\<not> listed m i now" "dn_live s < cap" "deny_lookup hash s i = None"
    and "k = deny_shard_index hash s i"
  shows "deny_rel hash cap now (m(i \<mapsto> until)) (deny_put s k i until)"
proof -
  have inv: "deny_inv hash s 0" and cap: "dn_capacity s = cap" using assms(1) by (simp_all add: deny_rel_def)
  have "unat (dn_live s) < unat cap" using assms(3) by (simp add: word_less_nat_alt)
  moreover have "unat cap < 2 ^ 64" using unsigned_less [of cap] by simp
  ultimately have small: "unat (dn_live s) < 2 ^ 64 - 1" by linarith
  note pu = deny_put [OF inv assms(4) small assms(5), of until]
  have "dn_live (deny_put s k i until) \<le> cap"
    using pu(4) \<open>unat (dn_live s) < unat cap\<close> by (simp add: word_le_nat_alt)
  then show ?thesis using assms(1) pu cap by (simp add: deny_rel_def)
qed

lemma deny_rel_room:
  assumes "deny_rel hash cap now m s" "dn_live s < cap"
  shows "\<not> unat cap \<le> card {j. listed m j now}"
proof -
  have inv: "deny_inv hash s 0" using assms(1) by (simp add: deny_rel_def)
  then have wf: "deny_shards_wf hash s" by (simp add: deny_inv_def)
  have "{j. listed m j now} \<subseteq> dom (deny_lookup hash s)"
  proof
    fix j assume "j \<in> {j. listed m j now}"
    then have "live_at now (deny_lookup hash s j) \<noteq> None"
      using deny_rel_listed [OF assms(1) order_refl, of j] by (simp add: listed_live)
    then show "j \<in> dom (deny_lookup hash s)" by (auto simp: live_at_def split: option.splits)
  qed
  then have "card {j. listed m j now} \<le> unat (dn_live s)"
    using inv deny_records_card [OF wf] by (simp add: deny_inv_def card_mono)
  with assms(2) show ?thesis by (simp add: word_less_nat_alt)
qed

lemma deny_rel_insert:
  assumes "deny_rel hash cap t m s" "sint t \<le> sint now"
  shows "snd (insert_sync hash s i until now) = (if listed m i now then Ok False
      else if unat cap \<le> card {j. listed m j now} then Err (DenyAtCapacity cap) else Ok True)"
    and "deny_rel hash cap now (if \<not> listed m i now \<and> \<not> unat cap \<le> card {j. listed m j now} then m(i \<mapsto> until) else m)
      (fst (insert_sync hash s i until now))"
proof -
  let ?k = "deny_shard_index hash s i"
  let ?s1 = "deny_purge_at s ?k now"
  obtain s2 r where sw: "deny_sweep ?s1 now = (s2, r)" by (cases "deny_sweep ?s1 now")
  note p1 = deny_rel_purge_at [OF assms refl, of i]
  note p2 = deny_rel_sweep [OF p1(1) order_refl sw]
  have cap: "dn_capacity ?s1 = cap" "dn_capacity s2 = cap" using p1(1) p2(1) by (simp_all add: deny_rel_def)
  have none: "deny_lookup hash ?s1 i = None" if "\<not> listed m i now"
    using that p1(2,3) by (simp add: deny_holds_def deny_lookup_def)
  have none2: "deny_lookup hash s2 i = None" if "\<not> listed m i now" using that p2(2) by (simp add: listed_live)
  have full: "cap \<le> dn_live s2 \<longleftrightarrow> unat cap \<le> card {j. listed m j now}"
    using p2(3) by (simp add: word_le_nat_alt)
  have h2: "deny_holds s2 ?k i \<longleftrightarrow> listed m i now"
    using p1(3) p2(2,4) [of i] by (simp add: deny_holds_def deny_lookup_def listed_live)
  note eqs = insert_sync_def Let_def sw p1(2) cap deny_len_def full h2
  consider (listed) "listed m i now" | (room) "\<not> listed m i now" "\<not> cap \<le> dn_live ?s1"
    | (swept) "\<not> listed m i now" "cap \<le> dn_live ?s1" by blast
  then have "snd (insert_sync hash s i until now) = (if listed m i now then Ok False
      else if unat cap \<le> card {j. listed m j now} then Err (DenyAtCapacity cap) else Ok True) \<and>
    deny_rel hash cap now (if \<not> listed m i now \<and> \<not> unat cap \<le> card {j. listed m j now} then m(i \<mapsto> until) else m)
      (fst (insert_sync hash s i until now))"
  proof cases
    case listed
    then show ?thesis using p1(1) by (simp add: eqs)
  next
    case room
    then have "dn_live ?s1 < cap" by simp
    with deny_rel_room [OF p1(1)] deny_rel_put [OF p1(1) room(1) _ none [OF room(1)]] room p1(3) show ?thesis
      by (simp add: eqs)
  next
    case swept
    moreover have "dn_live s2 < cap \<longleftrightarrow> card {j. listed m j now} < unat cap"
      using p2(3) by (simp add: word_less_nat_alt)
    ultimately show ?thesis
      using p2(1,4) full p1(3) deny_rel_put [OF p2(1) swept(1) _ none2 [OF swept(1)], of ?k until]
      by (auto simp: eqs not_le)
  qed
  then show "snd (insert_sync hash s i until now) = (if listed m i now then Ok False
      else if unat cap \<le> card {j. listed m j now} then Err (DenyAtCapacity cap) else Ok True)"
    and "deny_rel hash cap now (if \<not> listed m i now \<and> \<not> unat cap \<le> card {j. listed m j now} then m(i \<mapsto> until) else m)
      (fst (insert_sync hash s i until now))" by blast+
qed

interpretation mem_deny: deny_list_contract cap "deny_rel hash cap" "deny_step hash"
proof (unfold_locales, goal_cases)
  case (1 t m s c)
  then show ?case
  proof (cases c)
    case (CallContains i now)
    with 1 deny_rel_purge_at [OF 1(1), of now _ i] show ?thesis
      by (simp add: deny_step_def spec_step_def contains_sync_def Let_def)
  next
    case (CallInsert i until now)
    with 1 deny_rel_insert [OF 1(1), of now i until] show ?thesis
      by (auto simp: deny_step_def spec_step_def split: if_splits)
  qed
qed

lemma next_power_of_two_pos: "0 < next_power_of_two n"
proof -
  have "0 < p \<Longrightarrow> 0 < next_power_of_two_from p n" for p
    by (induction p n rule: next_power_of_two_from.induct) (subst next_power_of_two_from.simps, auto)
  then show ?thesis by (simp add: next_power_of_two_def)
qed

lemma deny_rel_new: "deny_rel hash cap t Map.empty (deny_list_new available cap)"
proof -
  let ?s = "deny_list_new available cap"
  have n: "dn_shards ?s = replicate (deny_shard_count available) \<lparr>ds_map = [], ds_expiry = []\<rparr>" "0 < deny_shard_count available"
    by (simp_all add: deny_list_new_def deny_shard_count_def)
  then have wf: "deny_shards_wf hash ?s" by (simp add: deny_shards_wf_def deny_shard_wf_def)
  have "deny_records ?s = 0" by (simp add: deny_records_def n sum_list_replicate)
  moreover have "deny_lookup hash ?s i = None" for i
    using deny_shard_index_less [OF wf, of i] by (simp add: deny_lookup_def n)
  ultimately show ?thesis using wf by (simp add: deny_rel_def deny_inv_def) (simp add: deny_list_new_def)
qed

text \<open>
  C8: with a clock that does not run backwards, the in-memory deny list answers every
  sequence of calls exactly like a bounded map whose records expire, for every hash function,
  every number of shards and every capacity: a listed identifier is reported and refused until
  the last second of its record, and a full list refuses exactly when it holds that many
  unexpired records.
\<close>

theorem deny_list_refines:
  assumes "sorted (map (sint \<circ> deny_call_time) cs)"
  shows "answers (deny_step hash) (deny_list_new available cap) cs = answers (spec_step cap) Map.empty cs"
proof (rule mem_deny.answers_eq)
  show "deny_rel hash cap i64_MIN Map.empty (deny_list_new available cap)" by (rule deny_rel_new)
  show "successively (\<lambda>s t. sint s \<le> sint t) (i64_MIN # map deny_call_time cs)"
    using assms sint_i64_bounds(1) unfolding successively_le_iff by (simp add: comp_def i64_values)
qed

theorem deny_list_refines_witness:
  "answers (deny_step (\<lambda>_. 0)) (deny_list_new None 1) [CallInsert [1] 5 0, CallContains [1] 5, CallInsert [2] 9 5, CallInsert [2] 9 6] =
     [Inserted (Ok True), Listed True, Inserted (Err (DenyAtCapacity 1)), Inserted (Ok True)]"
  using deny_list_refines [of "[CallInsert [1] 5 0, CallContains [1] 5, CallInsert [2] 9 5, CallInsert [2] 9 6]" "\<lambda>_. 0" None 1]
  by (simp add: spec_step_def listed_def is_in_the_past_def)

end
