(* ===== verification/Admission_Deny_Runs.thy ===== *)
theory Admission_Deny_Runs
  imports Admission_Deny_List
begin

text \<open>
  Concurrent callers of the \<open>message_id\<close> deny list (\<open>handshake/admission/deny_list.rs\<close>). A
  configuration is the list, the number of records that running calls removed and have not yet
  subtracted from the counter, and for each shard whose lock is held by a call that saw room
  for its record, the identifier about to be recorded there.

  A step is a purge of one shard under its lock, a subtraction from the counter, the checks of
  \<open>insert_sync\<close> that let it go on (the lock stays held), or its insertion, which counts the
  record before the lock is given back: until then nobody else sees the shard.
\<close>

datatype deny_event = Purged timestamp | Taken uuid timestamp | Quiet

type_synonym deny_config = "deny_list \<times> nat \<times> (nat \<rightharpoonup> uuid)"

inductive dstep :: "(uuid \<Rightarrow> u64) \<Rightarrow> deny_config \<Rightarrow> deny_event \<Rightarrow> deny_config \<Rightarrow> bool" for hash where
  purge_step: "k < length (dn_shards s) \<Longrightarrow> H k = None \<Longrightarrow> deny_purge (dn_shards s ! k) now = (sh, removed) \<Longrightarrow>
     dstep hash (s, p, H) (Purged now) (deny_set_shard s k sh, p + removed, H)"
| release_step: "n \<le> p \<Longrightarrow> dstep hash (s, p, H) Quiet (deny_release s n, p - n, H)"
| enter_step: "k = deny_shard_index hash s i \<Longrightarrow> H k = None \<Longrightarrow> \<not> deny_holds s k i \<Longrightarrow> deny_len s < dn_capacity s \<Longrightarrow>
     dstep hash (s, p, H) Quiet (s, p, H(k \<mapsto> i))"
| put_step: "H k = Some i \<Longrightarrow> dstep hash (s, p, H) (Taken i until) (deny_put s k i until, p, H(k := None))"

inductive drun :: "(uuid \<Rightarrow> u64) \<Rightarrow> deny_config \<Rightarrow> deny_event list \<Rightarrow> deny_config \<Rightarrow> bool" for hash where
  drun_Nil: "drun hash c [] c"
| drun_snoc: "drun hash c evs c' \<Longrightarrow> dstep hash c' ev c'' \<Longrightarrow> drun hash c (evs @ [ev]) c''"

inductive_cases drun_NilE: "drun hash c [] c'"
inductive_cases drun_snocE: "drun hash c (evs @ [ev]) c'"

subsection \<open>The invariant\<close>

text \<open>The least capacity bound that leaves the counter room for one record per shard.\<close>

definition counter_fits :: "usize \<Rightarrow> nat \<Rightarrow> bool" where
  "counter_fits cap n \<longleftrightarrow> unat cap + n \<le> 2 ^ 64"

fun dinv :: "(uuid \<Rightarrow> u64) \<Rightarrow> usize \<Rightarrow> nat \<Rightarrow> deny_config \<Rightarrow> bool" where
  "dinv hash cap n (s, p, H) \<longleftrightarrow>
     deny_inv hash s p \<and> dn_capacity s = cap \<and> length (dn_shards s) = n \<and>
     (\<forall>k i. H k = Some i \<longrightarrow> k = deny_shard_index hash s i \<and> deny_lookup hash s i = None) \<and>
     unat (dn_live s) + card (dom H) \<le> unat cap + n - 1"

lemma dinv_locks:
  assumes "dinv hash cap n (s, p, H)"
  shows "dom H \<subseteq> {..<n}" "finite (dom H)"
proof -
  have "k < n" if "H k = Some i" for k i
  proof -
    have "k = deny_shard_index hash s i" "deny_shards_wf hash s" "length (dn_shards s) = n"
      using assms that by (auto simp: deny_inv_def)
    then show ?thesis using deny_shard_index_less by blast
  qed
  then show "dom H \<subseteq> {..<n}" by auto
  then show "finite (dom H)" by (rule finite_subset) simp
qed

lemma dinv_put:
  assumes "dinv hash cap n (s, p, H)" "counter_fits cap n" "H k = Some i"
  shows "k = deny_shard_index hash s i" "deny_lookup hash s i = None" "deny_inv hash s p"
    "unat (dn_live s) < 2 ^ 64 - 1" "card (dom H) = Suc (card (dom (H(k := None))))"
proof -
  show k: "k = deny_shard_index hash s i" "deny_lookup hash s i = None" "deny_inv hash s p"
    using assms(1,3) by auto
  show c: "card (dom H) = Suc (card (dom (H(k := None))))"
    using dinv_locks(2) [OF assms(1)] assms(3) card_Suc_Diff1 [of "dom H" k] by (auto simp: domI)
  have "unat (dn_live s) + card (dom H) \<le> unat cap + n - 1" "0 < n"
    using assms(1) by (auto simp: deny_inv_def deny_shards_wf_def)
  then show "unat (dn_live s) < 2 ^ 64 - 1" using c assms(2) unfolding counter_fits_def by linarith
qed

lemma dinv_dstep:
  assumes "dinv hash cap n (s, p, H)" "dstep hash (s, p, H) ev (s', p', H')" "counter_fits cap n"
  shows "dinv hash cap n (s', p', H')"
  using assms(2)
proof cases
  case (purge_step k now sh removed)
  have inv: "deny_inv hash s p" using assms(1) by simp
  note ps = deny_purge_set_shard [OF inv purge_step(5,7)]
  have "deny_lookup hash s' i = None" if "deny_lookup hash s i = None" for i
    using ps(2) [of i] that by (simp add: purge_step live_at_def)
  moreover have "deny_shard_index hash s' i = deny_shard_index hash s i" for i
    by (rule deny_index_cong) (simp add: purge_step)
  ultimately show ?thesis using assms(1) ps(1) by (simp add: purge_step)
next
  case (release_step m)
  have "deny_inv hash s' p'" using deny_inv_release [of hash s p m] assms(1) by (simp add: release_step)
  moreover have "m \<le> unat (dn_live s)" using assms(1) \<open>m \<le> p\<close> by (auto simp: deny_inv_def)
  then have "unat (dn_live s') \<le> unat (dn_live s)"
    using unat_sub_of_nat [of m "dn_live s"] by (simp add: release_step)
  moreover have "deny_lookup hash s' = deny_lookup hash s" by (rule deny_cong) (simp add: release_step)
  moreover have "deny_shard_index hash s' i = deny_shard_index hash s i" for i
    by (rule deny_index_cong) (simp add: release_step)
  ultimately show ?thesis using assms(1) by (auto simp: release_step)
next
  case (enter_step k i)
  have "dom H' \<subseteq> {..<n}"
  proof -
    have "k < n" using enter_step assms(1) deny_shard_index_less [of hash s i] by (simp add: deny_inv_def)
    then show ?thesis using dinv_locks(1) [OF assms(1)] by (auto simp: enter_step)
  qed
  then have "card (dom H') \<le> n" by (metis card_lessThan card_mono finite_lessThan)
  moreover have "unat (dn_live s) < unat cap" using enter_step assms(1) by (simp add: deny_len_def word_less_nat_alt)
  moreover have "deny_lookup hash s i = None" using enter_step by (simp add: deny_holds_def deny_lookup_def)
  ultimately show ?thesis using assms(1) by (auto simp: enter_step)
next
  case (put_step k i u)
  note H = dinv_put [OF assms(1,3) \<open>H k = Some i\<close>]
  note pu = deny_put [OF H(3,2,4,1), of u]
  have "k' = deny_shard_index hash s j \<and> deny_lookup hash s' j = None" if "H' k' = Some j" for k' j
  proof -
    have "H k' = Some j" "k' \<noteq> k" using that put_step by (auto split: if_splits)
    then have "k' = deny_shard_index hash s j" "deny_lookup hash s j = None" using assms(1) by auto
    then show ?thesis using pu(5) \<open>k' \<noteq> k\<close> H(1) by (auto simp: put_step)
  qed
  moreover have "deny_shard_index hash s' j = deny_shard_index hash s j" for j
    using deny_index_cong [OF pu(3)] by (simp add: put_step)
  ultimately show ?thesis using pu H(5) assms(1) by (simp add: put_step)
qed

lemma dinv_drun: "drun hash c evs c' \<Longrightarrow> dinv hash cap n c \<Longrightarrow> counter_fits cap n \<Longrightarrow> dinv hash cap n c'"
  by (induction rule: drun.induct) (metis dinv_dstep prod_cases3)+

lemma dinv_new:
  "dinv hash cap (deny_shard_count available) (deny_list_new available cap, 0, Map.empty)"
  using deny_rel_new [of hash cap 0 available] by (auto simp: deny_rel_def deny_list_new_def)

subsection \<open>A record stays until it is purged after its time\<close>

lemma dstep_keeps:
  assumes "dinv hash cap n (s, p, H)" "counter_fits cap n" "dstep hash (s, p, H) ev (s', p', H')"
    and "deny_lookup hash s i = Some u" "\<forall>now. ev = Purged now \<longrightarrow> \<not> is_in_the_past u now"
  shows "deny_lookup hash s' i = Some u" "ev \<noteq> Taken i u'"
proof -
  have inv: "deny_inv hash s p" using assms(1) by simp
  have no: "H k \<noteq> Some i" for k using assms(1,4) by auto
  from assms(3) have "deny_lookup hash s' i = Some u \<and> ev \<noteq> Taken i u'"
  proof cases
    case (purge_step k now sh removed)
    then show ?thesis using deny_purge_set_shard(2) [OF inv purge_step(5,7), of i] assms(4,5) by (simp add: live_at_def)
  next
    case (release_step m)
    then show ?thesis using deny_cong(1) [of s' s hash] assms(4) by simp
  next
    case (enter_step k j)
    then show ?thesis using assms(4) by simp
  next
    case (put_step k j v)
    note H = dinv_put [OF assms(1,2) \<open>H k = Some j\<close>]
    from deny_put(5) [OF H(3,2,4,1), of v] put_step no [of k] assms(4) show ?thesis by auto
  qed
  then show "deny_lookup hash s' i = Some u" "ev \<noteq> Taken i u'" by blast+
qed

lemma dstep_taken:
  assumes "dinv hash cap n (s, p, H)" "counter_fits cap n" "dstep hash (s, p, H) (Taken i u) (s', p', H')"
  shows "deny_lookup hash s' i = Some u"
  using assms(3)
proof cases
  case (put_step k)
  note H = dinv_put [OF assms(1,2) \<open>H k = Some i\<close>]
  from deny_put(5) [OF H(3,2,4,1), of u] put_step show ?thesis by simp
qed

text \<open>After an identifier was taken, with no purge later than its time, its record is there.\<close>

lemma drun_append: "drun hash c' evs' c'' \<Longrightarrow> drun hash c evs c' \<Longrightarrow> drun hash c (evs @ evs') c''"
  by (induction rule: drun.induct) (simp, metis append_assoc drun_snoc)

lemma drun_split:
  "drun hash c (evs @ evs') c'' \<Longrightarrow> \<exists>c'. drun hash c evs c' \<and> drun hash c' evs' c''"
proof (induction evs' arbitrary: c'' rule: rev_induct)
  case Nil
  then show ?case by (metis append_Nil2 drun_Nil)
next
  case (snoc ev evs')
  then have "drun hash c ((evs @ evs') @ [ev]) c''" by simp
  then obtain c1 where "drun hash c (evs @ evs') c1" "dstep hash c1 ev c''" by (rule drun_snocE) auto
  with snoc.IH show ?case by (blast intro: drun_snoc)
qed

lemma drun_keeps:
  assumes "drun hash c evs c'" "dinv hash cap n c" "counter_fits cap n"
    and "deny_lookup hash (fst c) i = Some u" "\<forall>now. Purged now \<in> set evs \<longrightarrow> \<not> is_in_the_past u now"
  shows "deny_lookup hash (fst c') i = Some u \<and> (\<forall>u'. Taken i u' \<notin> set evs)"
  using assms
proof (induction rule: drun.induct)
  case (drun_Nil c)
  then show ?case by simp
next
  case (drun_snoc c evs c' ev c'')
  obtain s p H s' p' H' where c: "c' = (s, p, H)" "c'' = (s', p', H')" by (cases c', cases c'') auto
  have IH: "deny_lookup hash s i = Some u" "\<forall>u'. Taken i u' \<notin> set evs"
    using drun_snoc.IH drun_snoc.prems c by auto
  have inv: "dinv hash cap n (s, p, H)" using dinv_drun [OF drun_snoc.hyps(1)] drun_snoc.prems(1,2) c by simp
  have st: "dstep hash (s, p, H) ev (s', p', H')" using drun_snoc.hyps(2) c by simp
  have ev: "\<forall>now. ev = Purged now \<longrightarrow> \<not> is_in_the_past u now" using drun_snoc.prems(4) by auto
  from dstep_keeps [OF inv drun_snoc.prems(2) st IH(1) ev] IH(2) show ?case
    unfolding c by auto
qed

subsection \<open>The operations as runs\<close>

lemma drun_one: "dstep hash c ev c' \<Longrightarrow> drun hash c [ev] c'"
  using drun_snoc [OF drun_Nil] by fastforce

lemma purge_at_run:
  assumes "k < length (dn_shards s)" "H k = None"
  shows "drun hash (s, p, H) [Purged now, Quiet] (deny_purge_at s k now, p, H)"
proof -
  obtain sh r where pu: "deny_purge (dn_shards s ! k) now = (sh, r)" by (cases "deny_purge (dn_shards s ! k) now")
  have "dstep hash (s, p, H) (Purged now) (deny_set_shard s k sh, p + r, H)" using assms pu by (rule purge_step)
  moreover have "dstep hash (deny_set_shard s k sh, p + r, H) Quiet (deny_release (deny_set_shard s k sh) r, p, H)"
    using release_step [of r "p + r"] by simp
  ultimately show ?thesis
    using drun_snoc [OF drun_one] pu by (fastforce simp: deny_purge_at_def)
qed

lemma sweep_prefix_run:
  assumes "m \<le> length (dn_shards s)"
  shows "drun hash (s, p, Map.empty) (replicate m (Purged now))
    (s\<lparr>dn_shards := map (\<lambda>sh. fst (deny_purge sh now)) (take m (dn_shards s)) @ drop m (dn_shards s)\<rparr>,
     p + (\<Sum>sh\<leftarrow>take m (dn_shards s). snd (deny_purge sh now)), Map.empty)"
  using assms
proof (induction m)
  case 0
  then show ?case by (simp add: drun_Nil)
next
  case (Suc m)
  let ?f = "\<lambda>sh. fst (deny_purge sh now)" and ?xs = "dn_shards s"
  let ?s1 = "s\<lparr>dn_shards := map ?f (take m ?xs) @ drop m ?xs\<rparr>"
  let ?q = "p + (\<Sum>sh\<leftarrow>take m ?xs. snd (deny_purge sh now))"
  have m: "m < length ?xs" using Suc.prems by simp
  then have nth: "dn_shards ?s1 ! m = ?xs ! m" by (simp add: nth_append)
  have "dstep hash (?s1, ?q, Map.empty) (Purged now)
      (deny_set_shard ?s1 m (?f (?xs ! m)), ?q + snd (deny_purge (?xs ! m) now), Map.empty)"
    using m nth by (intro purge_step) simp_all
  moreover have "deny_set_shard ?s1 m (?f (?xs ! m)) = s\<lparr>dn_shards := map ?f (take (Suc m) ?xs) @ drop (Suc m) ?xs\<rparr>"
    using m by (simp add: deny_set_shard_def list_update_append take_Suc_conv_app_nth)
      (metis Cons_nth_drop_Suc list_update_code(2))
  moreover have "?q + snd (deny_purge (?xs ! m) now) = p + (\<Sum>sh\<leftarrow>take (Suc m) ?xs. snd (deny_purge sh now))"
    using m by (simp add: take_Suc_conv_app_nth)
  ultimately have "dstep hash (?s1, ?q, Map.empty) (Purged now)
      (s\<lparr>dn_shards := map ?f (take (Suc m) ?xs) @ drop (Suc m) ?xs\<rparr>,
       p + (\<Sum>sh\<leftarrow>take (Suc m) ?xs. snd (deny_purge sh now)), Map.empty)" by (simp only:)
  then have "drun hash (s, p, Map.empty) (replicate m (Purged now) @ [Purged now])
      (s\<lparr>dn_shards := map ?f (take (Suc m) ?xs) @ drop (Suc m) ?xs\<rparr>,
       p + (\<Sum>sh\<leftarrow>take (Suc m) ?xs. snd (deny_purge sh now)), Map.empty)"
    using drun_snoc [OF Suc.IH] m by simp
  then show ?case by (simp only: replicate_append_same replicate_Suc)
qed

lemma sweep_run:
  assumes "deny_sweep s now = (s', r)"
  shows "drun hash (s, p, Map.empty) (replicate (length (dn_shards s)) (Purged now) @ [Quiet]) (s', p, Map.empty)"
proof -
  let ?s1 = "s\<lparr>dn_shards := map (\<lambda>sh. fst (deny_purge sh now)) (dn_shards s)\<rparr>"
  have "s' = deny_release ?s1 r" "r = (\<Sum>sh\<leftarrow>dn_shards s. snd (deny_purge sh now))"
    using assms by (auto simp: deny_sweep_def Let_def comp_def)
  then show ?thesis
    using drun_snoc [OF sweep_prefix_run [of "length (dn_shards s)" s hash p now], of Quiet "(s', p, Map.empty)"]
      release_step [of r "p + r" hash ?s1 Map.empty] by simp
qed

text \<open>
  \<open>insert_sync\<close> without interference is one of these runs: it purges, and it takes the
  identifier exactly when it answers \<open>Ok(true)\<close>.
\<close>

lemma insert_sync_run:
  assumes "deny_shards_wf hash s" "insert_sync hash s i until now = (s', r)"
  shows "\<exists>evs. drun hash (s, p, Map.empty) (evs @ (if r = Ok True then [Taken i until] else [])) (s', p, Map.empty) \<and>
    set evs \<subseteq> {Purged now, Quiet}"
proof -
  let ?k = "deny_shard_index hash s i"
  let ?s1 = "deny_purge_at s ?k now"
  obtain s2 n where sw: "deny_sweep ?s1 now = (s2, n)" by (cases "deny_sweep ?s1 now")
  have k: "?k < length (dn_shards s)" by (rule deny_shard_index_less [OF assms(1)])
  have r1: "drun hash (s, p, Map.empty) [Purged now, Quiet] (?s1, p, Map.empty)" by (rule purge_at_run [OF k]) simp
  let ?evs = "[Purged now, Quiet] @ replicate (length (dn_shards ?s1)) (Purged now) @ [Quiet]"
  have r2: "drun hash (s, p, Map.empty) ?evs (s2, p, Map.empty)"
    by (rule drun_append [OF sweep_run [OF sw] r1])
  have len1: "length (dn_shards ?s1) = length (dn_shards s)"
    by (simp add: deny_purge_at_def split: prod.splits)
  have len2: "length (dn_shards s2) = length (dn_shards s)"
    using sw len1 by (auto simp: deny_sweep_def Let_def)
  have put: "drun hash (s, p, Map.empty) ((evs @ [Quiet]) @ [Taken i until]) (deny_put t ?k i until, p, Map.empty)"
    if "drun hash (s, p, Map.empty) evs (t, p, Map.empty)" "length (dn_shards t) = length (dn_shards s)"
      "\<not> deny_holds t ?k i" "deny_len t < dn_capacity t" for evs t
  proof -
    have "?k = deny_shard_index hash t i" using that(2) by (simp add: deny_shard_index_def)
    then have "dstep hash (t, p, Map.empty) Quiet (t, p, [?k \<mapsto> i])" using that by (intro enter_step) simp_all
    moreover have "dstep hash (t, p, [?k \<mapsto> i]) (Taken i until) (deny_put t ?k i until, p, Map.empty)"
      using put_step [of "[?k \<mapsto> i]" ?k i hash t p until] by simp
    ultimately show ?thesis by (rule drun_snoc [OF drun_snoc [OF that(1)]])
  qed
  consider (a) "s' = ?s1" "r \<noteq> Ok True" | (b) "s' = s2" "r \<noteq> Ok True"
    | (c) "s' = deny_put ?s1 ?k i until" "r = Ok True" "\<not> deny_holds ?s1 ?k i" "deny_len ?s1 < dn_capacity ?s1"
    | (d) "s' = deny_put s2 ?k i until" "r = Ok True" "\<not> deny_holds s2 ?k i" "deny_len s2 < dn_capacity s2"
    using assms(2) by (auto simp: insert_sync_def Let_def sw not_le split: if_splits)
  then show ?thesis
  proof cases
    case a
    then show ?thesis using r1 by (intro exI [of _ "[Purged now, Quiet]"]) simp
  next
    case b
    then show ?thesis using r2 by (intro exI [of _ ?evs]) auto
  next
    case c
    then show ?thesis using put [OF r1 len1] by (intro exI [of _ "[Purged now, Quiet] @ [Quiet]"]) simp
  next
    case d
    then show ?thesis using put [OF r2 len2] by (intro exI [of _ "?evs @ [Quiet]"]) auto
  qed
qed

subsection \<open>Properties\<close>



text \<open>Two callers in different shards that both read the counter before either adds to it.\<close>

definition race_hash :: "uuid \<Rightarrow> u64" where "race_hash i = of_nat (length i)"

definition race_end :: deny_list where
  "race_end = deny_put (deny_put (deny_list_new None 1) 1 [7] 100) 2 [7, 7] 100"

lemma race_run:
  "drun race_hash (deny_list_new None 1, 0, Map.empty) [Quiet, Quiet, Taken [7] 100, Taken [7, 7] 100] (race_end, 0, Map.empty)"
proof -
  let ?s = "deny_list_new None 1"
  let ?s1 = "deny_put ?s 1 [7] 100"
  have idx: "deny_shard_index race_hash ?s [7] = 1" "deny_shard_index race_hash ?s [7, 7] = 2"
    "\<not> deny_holds ?s 1 [7]" "\<not> deny_holds ?s 2 [7, 7]" "deny_len ?s < dn_capacity ?s"
    by (code_simp, code_simp, code_simp, code_simp, code_simp)
  have 1: "dstep race_hash (?s, 0, Map.empty) Quiet (?s, 0, [1 \<mapsto> [7]])"
    using idx by (intro enter_step) simp_all
  have 2: "dstep race_hash (?s, 0, [1 \<mapsto> [7]]) Quiet (?s, 0, [1 \<mapsto> [7], 2 \<mapsto> [7, 7]])"
    using idx by (intro enter_step) simp_all
  have 3: "dstep race_hash (?s, 0, [1 \<mapsto> [7], 2 \<mapsto> [7, 7]]) (Taken [7] 100) (?s1, 0, [2 \<mapsto> [7, 7]])"
    using put_step [of "[1 \<mapsto> [7], 2 \<mapsto> [7, 7]]" 1 "[7]" race_hash ?s 0 100] by (simp add: fun_upd_twist)
  have 4: "dstep race_hash (?s1, 0, [2 \<mapsto> [7, 7]]) (Taken [7, 7] 100) (race_end, 0, Map.empty)"
    using put_step [of "[2 \<mapsto> [7, 7]]" 2 "[7, 7]" race_hash ?s1 0 100] by (simp add: race_end_def)
  show ?thesis using drun_snoc [OF drun_snoc [OF drun_snoc [OF drun_one [OF 1] 2] 3] 4] by simp
qed

lemma race_fits: "counter_fits 1 (deny_shard_count None)"
  by (simp add: counter_fits_def deny_shard_count_def)

text \<open>The documented bound is not kept: two records in a list of capacity one.\<close>

lemma deny_list_overshoots: "dn_capacity race_end = 1 \<and> deny_records race_end = 2"
  by (intro conjI) code_simp+


text \<open>The identifier of the race again, once its record was purged past its last second.\<close>

definition race_again :: deny_list where
  "race_again = fst (insert_sync race_hash (deny_list_new None 1) [7] 5 0)"


end
