(* ===== verification/Handshake_Payloads.thy ===== *)
theory Handshake_Payloads
  imports Handshake
begin

text \<open>
  The JSON form of identity descriptors (\<open>handshake/identity.rs\<close>) and of the payloads of the
  four handshake messages (\<open>handshake/payloads.rs\<close>): member sets, serialization and strict
  deserialization.

  Shown here: each payload is read back unchanged from its JSON form, and that form stays
  inside the member set that receivers check first.
\<close>

subsection \<open>Identity descriptors\<close>

fun svid_as_str :: "svid_type \<Rightarrow> string" where
  "svid_as_str JwtSvid = ''jwt-svid''"
| "svid_as_str X509Svid = ''x509-svid''"

definition svid_of_name :: "string \<Rightarrow> (serde_error, svid_type) result" where
  "svid_of_name s =
     (if s = ''jwt-svid'' then Ok JwtSvid else if s = ''x509-svid'' then Ok X509Svid else Err SerdeOther)"

fun de_svid :: "json \<Rightarrow> (serde_error, svid_type) result" where
  "de_svid (JStr s) = svid_of_name s"
| "de_svid (JObj [(s, JNull)]) = svid_of_name s"
| "de_svid _ = Err SerdeOther"

definition descriptor_fields :: "field_spec list" where
  "descriptor_fields =
     [(''type'', Required, de_void de_kind), (''issuer'', Defaulted, de_void_opt de_url),
      (''subject'', Required, de_void de_string), (''svid_type'', Defaulted, de_void_opt de_svid),
      (''proof'', Required, de_void de_string), (''x5c'', Defaulted, de_void_opt (de_vec de_string)),
      (''public_key'', Defaulted, de_void_opt de_string), (''extensions'', Defaulted, de_void_opt de_ext)]"

definition de_descriptor :: "json \<Rightarrow> (serde_error, identity_descriptor) result" where
  "de_descriptor j =
     and_then (de_struct descriptor_fields j) (\<lambda>ms.
     and_then (de_field ms ''type'' de_kind) (\<lambda>kind.
     and_then (de_opt_field ms ''issuer'' de_url) (\<lambda>issuer.
     and_then (de_field ms ''subject'' de_string) (\<lambda>subject.
     and_then (de_opt_field ms ''svid_type'' de_svid) (\<lambda>svid.
     and_then (de_field ms ''proof'' de_string) (\<lambda>proof.
     and_then (de_opt_field ms ''x5c'' (de_vec de_string)) (\<lambda>x5c.
     and_then (de_opt_field ms ''public_key'' de_string) (\<lambda>public_key.
     and_then (de_opt_field ms ''extensions'' de_ext) (\<lambda>extensions.
     Ok \<lparr>id_kind = kind, id_issuer = issuer, id_subject = subject, id_svid_type = svid, id_proof = proof, id_x5c = x5c,
         id_public_key = public_key, id_extensions = extensions\<rparr>)))))))))"

definition descriptor_members :: "identity_descriptor \<Rightarrow> (string \<times> json) list" where
  "descriptor_members d =
     [(''type'', JStr (kind_as_str (id_kind d)))] @ opt_str_member ''issuer'' (map_option url_as_str (id_issuer d)) @
     [(''subject'', JStr (id_subject d))] @ opt_str_member ''svid_type'' (map_option svid_as_str (id_svid_type d)) @
     [(''proof'', JStr (id_proof d))] @ opt_strs_member ''x5c'' (id_x5c d) @
     opt_str_member ''public_key'' (id_public_key d) @ opt_member ''extensions'' (id_extensions d)"

definition ser_descriptor :: "identity_descriptor \<Rightarrow> json" where
  "ser_descriptor d = JObj (descriptor_members d)"

lemma svid_of_name_str [simp]: "svid_of_name (svid_as_str s) = Ok s"
  by (cases s) (simp_all add: svid_of_name_def)

lemma de_opt_field_present:
  "map_of ms k = Some j \<Longrightarrow> j \<noteq> JNull \<Longrightarrow> de_opt_field ms k de = and_then (de j) (\<lambda>x. Ok (Some x))"
  by (cases j) (simp_all add: de_opt_field_def)

lemma de_opt_field_absent: "map_of ms k = None \<Longrightarrow> de_opt_field ms k de = Ok None"
  by (simp add: de_opt_field_def)

lemma ser_strings_not_null [simp]: "ser_strings xs \<noteq> JNull"
  by (simp add: ser_strings_def)

lemma de_ser_descriptor:
  assumes "opt_all wf_ext (id_extensions d)"
  shows "de_descriptor (ser_descriptor d) = Ok d"
proof -
  have ext: "de_ext (JObj m) = Ok m" if "id_extensions d = Some m" for m
    using that assms by (simp add: de_ext_wf del: de_ext.simps)
  have fields: "de_map descriptor_fields [] (descriptor_members d) = Ok ()"
    unfolding de_map_iff
    by (auto simp: descriptor_members_def descriptor_fields_def set_opt_members de_void_def de_void_opt_def ext simp del: de_ext.simps)
  have iss: "de_opt_field (descriptor_members d) ''issuer'' de_url = Ok (id_issuer d)"
    by (cases "id_issuer d"; cases "the (id_issuer d)") (simp_all add: de_opt_field_def descriptor_members_def map_add_def)
  have svid: "de_opt_field (descriptor_members d) ''svid_type'' de_svid = Ok (id_svid_type d)"
    by (cases "id_svid_type d") (simp_all add: de_opt_field_def descriptor_members_def map_add_def)
  have x5c: "de_opt_field (descriptor_members d) ''x5c'' (de_vec de_string) = Ok (id_x5c d)"
    by (cases "id_x5c d")
      (simp_all add: de_opt_field_absent de_opt_field_present [of _ _ "ser_strings (the (id_x5c d))"]
        descriptor_members_def map_add_def)
  have pk: "de_opt_field (descriptor_members d) ''public_key'' de_string = Ok (id_public_key d)"
    by (cases "id_public_key d") (simp_all add: de_opt_field_def descriptor_members_def map_add_def)
  have ex: "de_opt_field (descriptor_members d) ''extensions'' de_ext = Ok (id_extensions d)"
    using ext by (cases "id_extensions d") (simp_all add: de_opt_field_def descriptor_members_def map_add_def del: de_ext.simps)
  have req: "de_field (descriptor_members d) ''type'' de_kind = Ok (id_kind d)"
    "de_field (descriptor_members d) ''subject'' de_string = Ok (id_subject d)"
    "de_field (descriptor_members d) ''proof'' de_string = Ok (id_proof d)"
    by (simp_all add: de_field_def descriptor_members_def map_add_def)
  show ?thesis
    by (simp add: de_descriptor_def ser_descriptor_def de_struct_def fields iss svid x5c pk ex req)
qed

subsection \<open>Handshake payloads\<close>

definition MUTUAL_HELLO_PAYLOAD_MEMBERS :: "string list" where
  "MUTUAL_HELLO_PAYLOAD_MEMBERS = [''identity'', ''manifest'', ''requested_grants'', ''pop_nonce'', ''extensions'']"

definition MUTUAL_HELLO_ACK_PAYLOAD_MEMBERS :: "string list" where
  "MUTUAL_HELLO_ACK_PAYLOAD_MEMBERS =
     [''identity'', ''manifest'', ''requested_grants'', ''pop_nonce'', ''pop_nonce_echo'', ''extensions'']"

definition MUTUAL_COMMIT_PAYLOAD_MEMBERS :: "string list" where
  "MUTUAL_COMMIT_PAYLOAD_MEMBERS = [''tct'', ''grant_voucher'', ''pop_signature'', ''pop_nonce_echo'', ''extensions'']"

definition MUTUAL_COMMIT_ACK_PAYLOAD_MEMBERS :: "string list" where
  "MUTUAL_COMMIT_ACK_PAYLOAD_MEMBERS = [''tct'', ''grant_voucher'', ''pop_signature'', ''pop_nonce_echo'', ''extensions'']"

definition de_hello :: "externals \<Rightarrow> json \<Rightarrow> (serde_error, mutual_hello_payload) result" where
  "de_hello E j =
     and_then (de_struct
        [(''identity'', Required, de_void de_descriptor), (''manifest'', Required, de_void (de_manifest E)),
         (''requested_grants'', Required, de_void (de_vec de_string)), (''pop_nonce'', Required, de_void de_string),
         (''extensions'', Defaulted, de_void_opt de_ext)] j) (\<lambda>ms.
     and_then (de_field ms ''identity'' de_descriptor) (\<lambda>identity.
     and_then (de_field ms ''manifest'' (de_manifest E)) (\<lambda>manifest.
     and_then (de_field ms ''requested_grants'' (de_vec de_string)) (\<lambda>requested_grants.
     and_then (de_field ms ''pop_nonce'' de_string) (\<lambda>pop_nonce.
     and_then (de_opt_field ms ''extensions'' de_ext) (\<lambda>extensions.
     Ok \<lparr>mh_identity = identity, mh_manifest = manifest, mh_requested_grants = requested_grants, mh_pop_nonce = pop_nonce,
         mh_extensions = extensions\<rparr>))))))"

definition ser_hello :: "mutual_hello_payload \<Rightarrow> json" where
  "ser_hello p =
     JObj ([(''identity'', ser_descriptor (mh_identity p)), (''manifest'', ser_manifest (mh_manifest p)),
            (''requested_grants'', ser_strings (mh_requested_grants p)), (''pop_nonce'', JStr (mh_pop_nonce p))] @
           opt_member ''extensions'' (mh_extensions p))"

definition de_hello_ack :: "externals \<Rightarrow> json \<Rightarrow> (serde_error, mutual_hello_ack_payload) result" where
  "de_hello_ack E j =
     and_then (de_struct
        [(''identity'', Required, de_void de_descriptor), (''manifest'', Required, de_void (de_manifest E)),
         (''requested_grants'', Required, de_void (de_vec de_string)), (''pop_nonce'', Required, de_void de_string),
         (''pop_nonce_echo'', Required, de_void de_string), (''extensions'', Defaulted, de_void_opt de_ext)] j) (\<lambda>ms.
     and_then (de_field ms ''identity'' de_descriptor) (\<lambda>identity.
     and_then (de_field ms ''manifest'' (de_manifest E)) (\<lambda>manifest.
     and_then (de_field ms ''requested_grants'' (de_vec de_string)) (\<lambda>requested_grants.
     and_then (de_field ms ''pop_nonce'' de_string) (\<lambda>pop_nonce.
     and_then (de_field ms ''pop_nonce_echo'' de_string) (\<lambda>pop_nonce_echo.
     and_then (de_opt_field ms ''extensions'' de_ext) (\<lambda>extensions.
     Ok \<lparr>mha_identity = identity, mha_manifest = manifest, mha_requested_grants = requested_grants, mha_pop_nonce = pop_nonce,
         mha_pop_nonce_echo = pop_nonce_echo, mha_extensions = extensions\<rparr>)))))))"

definition ser_hello_ack :: "mutual_hello_ack_payload \<Rightarrow> json" where
  "ser_hello_ack p =
     JObj ([(''identity'', ser_descriptor (mha_identity p)), (''manifest'', ser_manifest (mha_manifest p)),
            (''requested_grants'', ser_strings (mha_requested_grants p)), (''pop_nonce'', JStr (mha_pop_nonce p)),
            (''pop_nonce_echo'', JStr (mha_pop_nonce_echo p))] @
           opt_member ''extensions'' (mha_extensions p))"

text \<open>The two COMMIT payloads have the same members.\<close>

definition commit_fields :: "field_spec list" where
  "commit_fields =
     [(''tct'', Required, de_void de_string), (''grant_voucher'', Defaulted, de_void_opt de_string),
      (''pop_signature'', Required, de_void de_string), (''pop_nonce_echo'', Required, de_void de_string),
      (''extensions'', Defaulted, de_void_opt de_ext)]"

definition commit_members :: "string \<Rightarrow> string option \<Rightarrow> string \<Rightarrow> string \<Rightarrow> extensions_map option \<Rightarrow> (string \<times> json) list" where
  "commit_members tct voucher sig echo ext =
     [(''tct'', JStr tct)] @ opt_str_member ''grant_voucher'' voucher @
     [(''pop_signature'', JStr sig), (''pop_nonce_echo'', JStr echo)] @ opt_member ''extensions'' ext"

definition de_commit :: "json \<Rightarrow> (serde_error, mutual_commit_payload) result" where
  "de_commit j =
     and_then (de_struct commit_fields j) (\<lambda>ms.
     and_then (de_field ms ''tct'' de_string) (\<lambda>tct.
     and_then (de_opt_field ms ''grant_voucher'' de_string) (\<lambda>grant_voucher.
     and_then (de_field ms ''pop_signature'' de_string) (\<lambda>pop_signature.
     and_then (de_field ms ''pop_nonce_echo'' de_string) (\<lambda>pop_nonce_echo.
     and_then (de_opt_field ms ''extensions'' de_ext) (\<lambda>extensions.
     Ok \<lparr>mc_tct = tct, mc_grant_voucher = grant_voucher, mc_pop_signature = pop_signature, mc_pop_nonce_echo = pop_nonce_echo,
         mc_extensions = extensions\<rparr>))))))"

definition ser_commit :: "mutual_commit_payload \<Rightarrow> json" where
  "ser_commit p =
     JObj (commit_members (mc_tct p) (mc_grant_voucher p) (mc_pop_signature p) (mc_pop_nonce_echo p) (mc_extensions p))"

definition de_commit_ack :: "json \<Rightarrow> (serde_error, mutual_commit_ack_payload) result" where
  "de_commit_ack j =
     and_then (de_struct commit_fields j) (\<lambda>ms.
     and_then (de_field ms ''tct'' de_string) (\<lambda>tct.
     and_then (de_opt_field ms ''grant_voucher'' de_string) (\<lambda>grant_voucher.
     and_then (de_field ms ''pop_signature'' de_string) (\<lambda>pop_signature.
     and_then (de_field ms ''pop_nonce_echo'' de_string) (\<lambda>pop_nonce_echo.
     and_then (de_opt_field ms ''extensions'' de_ext) (\<lambda>extensions.
     Ok \<lparr>mca_tct = tct, mca_grant_voucher = grant_voucher, mca_pop_signature = pop_signature, mca_pop_nonce_echo = pop_nonce_echo,
         mca_extensions = extensions\<rparr>))))))"

definition ser_commit_ack :: "mutual_commit_ack_payload \<Rightarrow> json" where
  "ser_commit_ack p =
     JObj (commit_members (mca_tct p) (mca_grant_voucher p) (mca_pop_signature p) (mca_pop_nonce_echo p) (mca_extensions p))"

subsection \<open>Round trips\<close>

lemma de_opt_ext:
  assumes "opt_all wf_ext x" "map_of ms ''extensions'' = map_option JObj x"
  shows "de_opt_field ms ''extensions'' de_ext = Ok x"
  using assms by (cases x) (simp_all add: de_opt_field_absent de_opt_field_present de_ext_wf del: de_ext.simps)

lemma de_void_opt_ext: "opt_all wf_ext (Some m) \<Longrightarrow> de_void_opt de_ext (JObj m) = Ok ()"
  by (simp add: de_void_opt_def de_void_def de_ext_wf del: de_ext.simps)

lemma de_ser_hello:
  assumes "opt_all wf_ext (id_extensions (mh_identity p))" "wf_manifest E (mh_manifest p)" "opt_all wf_ext (mh_extensions p)"
  shows "de_hello E (ser_hello p) = Ok p"
  using assms
  by (cases p; cases "mh_extensions p")
    (simp_all add: de_hello_def ser_hello_def de_struct_def de_field_def de_void_def de_ser_descriptor de_ser_manifest
      opt_member_def de_opt_field_absent de_opt_field_present de_void_opt_ext de_ext_wf del: de_ext.simps)

lemma de_ser_hello_ack:
  assumes "opt_all wf_ext (id_extensions (mha_identity p))" "wf_manifest E (mha_manifest p)" "opt_all wf_ext (mha_extensions p)"
  shows "de_hello_ack E (ser_hello_ack p) = Ok p"
  using assms
  by (cases p; cases "mha_extensions p")
    (simp_all add: de_hello_ack_def ser_hello_ack_def de_struct_def de_field_def de_void_def de_ser_descriptor de_ser_manifest
      opt_member_def de_opt_field_absent de_opt_field_present de_void_opt_ext de_ext_wf del: de_ext.simps)

lemma commit_members_read:
  assumes "opt_all wf_ext ext"
  shows "de_struct commit_fields (JObj (commit_members tct v sig echo ext)) = Ok (commit_members tct v sig echo ext)"
    "de_field (commit_members tct v sig echo ext) ''tct'' de_string = Ok tct"
    "de_opt_field (commit_members tct v sig echo ext) ''grant_voucher'' de_string = Ok v"
    "de_field (commit_members tct v sig echo ext) ''pop_signature'' de_string = Ok sig"
    "de_field (commit_members tct v sig echo ext) ''pop_nonce_echo'' de_string = Ok echo"
    "de_opt_field (commit_members tct v sig echo ext) ''extensions'' de_ext = Ok ext"
proof -
  let ?ms = "commit_members tct v sig echo ext"
  have "de_map commit_fields [] ?ms = Ok ()"
    unfolding de_map_iff using assms
    by (auto simp: commit_members_def commit_fields_def set_opt_members de_void_def de_void_opt_ext de_void_opt_def [of de_string]
        simp del: de_ext.simps)
  then show "de_struct commit_fields (JObj ?ms) = Ok ?ms" by (simp add: de_struct_def)
  show "de_opt_field ?ms ''extensions'' de_ext = Ok ext"
    using assms by (intro de_opt_ext) (auto simp: commit_members_def map_add_def)
  show "de_opt_field ?ms ''grant_voucher'' de_string = Ok v"
    by (cases v) (simp_all add: de_opt_field_def commit_members_def map_add_def)
qed (simp_all add: de_field_def commit_members_def map_add_def)

lemma de_ser_commits:
  "opt_all wf_ext (mc_extensions c) \<Longrightarrow> de_commit (ser_commit c) = Ok c"
  "opt_all wf_ext (mca_extensions k) \<Longrightarrow> de_commit_ack (ser_commit_ack k) = Ok k"
  by (simp_all add: de_commit_def ser_commit_def de_commit_ack_def ser_commit_ack_def commit_members_read)

lemma payload_members_allowed:
  "check_members obj (ser_hello h) MUTUAL_HELLO_PAYLOAD_MEMBERS = Ok ()"
  "check_members obj (ser_hello_ack a) MUTUAL_HELLO_ACK_PAYLOAD_MEMBERS = Ok ()"
  "check_members obj (ser_commit c) MUTUAL_COMMIT_PAYLOAD_MEMBERS = Ok ()"
  "check_members obj (ser_commit_ack k) MUTUAL_COMMIT_ACK_PAYLOAD_MEMBERS = Ok ()"
  by (auto simp: ser_hello_def ser_hello_ack_def ser_commit_def ser_commit_ack_def commit_members_def check_members_object set_opt_members
      MUTUAL_HELLO_PAYLOAD_MEMBERS_def MUTUAL_HELLO_ACK_PAYLOAD_MEMBERS_def MUTUAL_COMMIT_PAYLOAD_MEMBERS_def
      MUTUAL_COMMIT_ACK_PAYLOAD_MEMBERS_def)

text \<open>
  C33: every handshake payload is read back unchanged from its JSON form, and that form has
  only the members that a receiver allows.
\<close>

theorem handshake_payload_roundtrip:
  assumes "opt_all wf_ext (id_extensions (mh_identity h))" "wf_manifest E (mh_manifest h)" "opt_all wf_ext (mh_extensions h)"
    and "opt_all wf_ext (id_extensions (mha_identity a))" "wf_manifest E (mha_manifest a)" "opt_all wf_ext (mha_extensions a)"
    and "opt_all wf_ext (mc_extensions c)" "opt_all wf_ext (mca_extensions k)"
  shows "de_hello E (ser_hello h) = Ok h \<and> check_members obj (ser_hello h) MUTUAL_HELLO_PAYLOAD_MEMBERS = Ok () \<and>
    de_hello_ack E (ser_hello_ack a) = Ok a \<and> check_members obj (ser_hello_ack a) MUTUAL_HELLO_ACK_PAYLOAD_MEMBERS = Ok () \<and>
    de_commit (ser_commit c) = Ok c \<and> check_members obj (ser_commit c) MUTUAL_COMMIT_PAYLOAD_MEMBERS = Ok () \<and>
    de_commit_ack (ser_commit_ack k) = Ok k \<and> check_members obj (ser_commit_ack k) MUTUAL_COMMIT_ACK_PAYLOAD_MEMBERS = Ok ()"
  using de_ser_hello [OF assms(1-3)] de_ser_hello_ack [OF assms(4-6)] assms(7,8) by (simp add: de_ser_commits payload_members_allowed)

end
