(* ===== verification/Net_Addr.thy ===== *)
theory Net_Addr
  imports Handshake_Pinned
begin

text \<open>
  Network addresses as the repository keys its rate limits on them: \<open>std::net::IpAddr\<close>, the
  source of an admission challenge (\<open>handshake/admission/rate_limit.rs\<close>) and the transport key
  of the handshake server (\<open>transport/server.rs\<close>).

  Shown here: two addresses share a rate-limit key exactly when they are one IPv4 address, in
  either notation, or lie in one IPv6 /64.
\<close>

subsection \<open>Addresses\<close>

datatype ip_addr = V4 "32 word" | V6 "128 word"

definition to_ipv4_mapped :: "128 word \<Rightarrow> 32 word option" where
  "to_ipv4_mapped a = (if drop_bit 32 a = 0xffff then Some (ucast a) else None)"

definition to_canonical :: "ip_addr \<Rightarrow> ip_addr" where
  "to_canonical ip =
     (case ip of
        V4 a \<Rightarrow> V4 a
      | V6 a \<Rightarrow> (case to_ipv4_mapped a of Some v \<Rightarrow> V4 v | None \<Rightarrow> V6 a))"

definition octet :: "32 word \<Rightarrow> nat \<Rightarrow> nat" where
  "octet a i = unat (drop_bit (24 - 8 * i) a) mod 256"

definition segment :: "128 word \<Rightarrow> nat \<Rightarrow> nat" where
  "segment a i = unat (drop_bit (112 - 16 * i) a) mod 65536"

text \<open>The \<open>Display\<close> text of an IPv4 address and the \<open>LowerHex\<close> text of a number.\<close>

definition ipv4_str :: "32 word \<Rightarrow> string" where
  "ipv4_str a = nat_str (octet a 0) @ ''.'' @ nat_str (octet a 1) @ ''.'' @ nat_str (octet a 2) @ ''.'' @ nat_str (octet a 3)"

definition hex_char :: "nat \<Rightarrow> char" where
  "hex_char d = (if d < 10 then char_of (48 + d) else char_of (87 + d))"

fun hex_str :: "nat \<Rightarrow> string" where
  "hex_str n = (if n < 16 then [hex_char n] else hex_str (n div 16) @ [hex_char (n mod 16)])"

declare hex_str.simps [simp del]

definition ipv6_prefix_str :: "128 word \<Rightarrow> string" where
  "ipv6_prefix_str a =
     hex_str (segment a 0) @ '':'' @ hex_str (segment a 1) @ '':'' @ hex_str (segment a 2) @ '':'' @ hex_str (segment a 3) @ ''::/64''"

subsection \<open>Rate-limit keys\<close>

datatype transport_id = Ip ip_addr | TlsClientCertSha256 bytes

record challenge_source =
  cs_transport :: transport_id
  cs_transport_key :: string
  cs_label :: "string option"

definition source_ip :: "ip_addr \<Rightarrow> challenge_source" where
  "source_ip addr =
     (let addr = (case addr of
                    V6 v6 \<Rightarrow> (case to_ipv4_mapped v6 of Some v4 \<Rightarrow> V4 v4 | None \<Rightarrow> addr)
                  | V4 v4 \<Rightarrow> V4 v4);
          transport_key = (case addr of
                             V4 v4 \<Rightarrow> ''ip4:'' @ ipv4_str v4
                           | V6 v6 \<Rightarrow> ''ip6:'' @ ipv6_prefix_str v6)
      in \<lparr>cs_transport = Ip addr, cs_transport_key = transport_key, cs_label = None\<rparr>)"

definition source_tls_client_cert :: "externals \<Rightarrow> bytes \<Rightarrow> challenge_source" where
  "source_tls_client_cert E fingerprint =
     \<lparr>cs_transport = TlsClientCertSha256 fingerprint, cs_transport_key = ''cert:'' @ encode E fingerprint, cs_label = None\<rparr>"

definition with_label :: "challenge_source \<Rightarrow> string \<Rightarrow> challenge_source" where
  "with_label s label = s\<lparr>cs_label := Some label\<rparr>"

text \<open>The \<open>Display\<close> text; \<open>dbg\<close> is the \<open>Debug\<close> text of a string.\<close>

definition source_str :: "(string \<Rightarrow> string) \<Rightarrow> challenge_source \<Rightarrow> string" where
  "source_str dbg s = cs_transport_key s @ (case cs_label s of Some l \<Rightarrow> '' label='' @ dbg l | None \<Rightarrow> [])"

definition transport_key :: "ip_addr option \<Rightarrow> string" where
  "transport_key source =
     (case map_option to_canonical source of
        Some (V4 v4) \<Rightarrow> ''ip:'' @ ipv4_str v4
      | Some (V6 v6) \<Rightarrow> ''ip6:'' @ ipv6_prefix_str v6
      | None \<Rightarrow> ''ip:unknown'')"

subsection \<open>What a key identifies\<close>

fun str_hex :: "string \<Rightarrow> nat" where
  "str_hex s = foldl (\<lambda>n c. 16 * n + (if of_char c < (58 :: nat) then of_char c - 48 else of_char c - 87)) 0 s"

declare str_hex.simps [simp del]

lemma of_hex_char: "d < 16 \<Longrightarrow> (of_char (hex_char d) :: nat) = (if d < 10 then 48 + d else 87 + d)"
  by (simp add: hex_char_def of_char_of)

lemma str_hex_snoc: "d < 16 \<Longrightarrow> str_hex (s @ [hex_char d]) = 16 * str_hex s + d"
  by (simp add: str_hex.simps of_hex_char)

lemma str_hex_hex_str: "str_hex (hex_str n) = n"
proof (induction n rule: hex_str.induct)
  case (1 n)
  show ?case
  proof (cases "n < 16")
    case True
    then show ?thesis using str_hex_snoc [of n "[]"] by (subst hex_str.simps) (simp add: str_hex.simps)
  next
    case False
    then have "str_hex (hex_str n) = 16 * (n div 16) + n mod 16"
      using 1 str_hex_snoc [of "n mod 16"] by (subst hex_str.simps) simp
    then show ?thesis by simp
  qed
qed

lemma hex_str_chars: "\<forall>c\<in>set (hex_str n). c \<noteq> CHR '':''"
proof (induction n rule: hex_str.induct)
  case (1 n)
  have "d < 16 \<Longrightarrow> hex_char d \<noteq> CHR '':''" for d using of_hex_char [of d] by (auto split: if_splits)
  then show ?case using 1 by (subst hex_str.simps) auto
qed

lemma nat_str_no_dot: "\<forall>c\<in>set (nat_str n). c \<noteq> CHR ''.''"
  using nat_str_digits [of n] by fastforce

lemma sep_inject:
  "\<forall>c\<in>set a. c \<noteq> s \<Longrightarrow> \<forall>c\<in>set b. c \<noteq> s \<Longrightarrow> a @ s # x = b @ s # y \<longleftrightarrow> a = b \<and> x = y"
proof (induction a arbitrary: b)
  case Nil
  then show ?case by (cases b) auto
next
  case (Cons c a)
  then show ?case by (cases b) auto
qed

lemma nat_str_inject: "nat_str m = nat_str n \<longleftrightarrow> m = n"
  by (metis str_nat_nat_str)

lemma hex_str_inject: "hex_str m = hex_str n \<longleftrightarrow> m = n"
  by (metis str_hex_hex_str)

lemma radix4:
  fixes n b :: nat
  shows "n = (((n div b div b div b) * b + n div b div b mod b) * b + n div b mod b) * b + n mod b"
  by (metis div_mult_mod_eq)

lemma octet_values:
  "octet a 3 = unat a mod 256" "octet a 2 = unat a div 256 mod 256" "octet a 1 = unat a div 256 div 256 mod 256"
  "octet a 0 = unat a div 256 div 256 div 256"
proof -
  have o: "octet a i = unat a div 2 ^ (24 - 8 * i) mod 256" for i
    unfolding octet_def unat_drop_bit_eq by (simp add: drop_bit_eq_div)
  have "unat a < 2 ^ 32" using unsigned_less [of a] by simp
  then have "unat a div 256 div 256 div 256 < 256" by (simp add: div_mult2_eq [symmetric] less_mult_imp_div_less)
  then show "octet a 3 = unat a mod 256" "octet a 2 = unat a div 256 mod 256" "octet a 1 = unat a div 256 div 256 mod 256"
    "octet a 0 = unat a div 256 div 256 div 256"
    unfolding o by (simp_all add: div_mult2_eq [symmetric])
qed

lemma segment_values:
  fixes a :: "128 word"
  defines "n \<equiv> unat (drop_bit 64 a)"
  shows "segment a 3 = n mod 65536" "segment a 2 = n div 65536 mod 65536" "segment a 1 = n div 65536 div 65536 mod 65536"
    "segment a 0 = n div 65536 div 65536 div 65536"
proof -
  have s: "segment a i = unat a div 2 ^ (112 - 16 * i) mod 65536" for i
    unfolding segment_def unat_drop_bit_eq by (simp add: drop_bit_eq_div)
  have n: "n = unat a div 2 ^ 64" unfolding n_def unat_drop_bit_eq by (simp add: drop_bit_eq_div)
  have "unat a < 2 ^ 128" using unsigned_less [of a] by simp
  then have "unat a div 2 ^ 112 < 65536" by (simp add: less_mult_imp_div_less)
  then show "segment a 3 = n mod 65536" "segment a 2 = n div 65536 mod 65536" "segment a 1 = n div 65536 div 65536 mod 65536"
    "segment a 0 = n div 65536 div 65536 div 65536"
    unfolding s n by (simp_all add: div_mult2_eq [symmetric])
qed

lemma octets_eq: "(\<forall>i<4. octet a i = octet b i) \<longleftrightarrow> a = b"
proof
  assume e: "\<forall>i<4. octet a i = octet b i"
  then have o: "octet a 0 = octet b 0" "octet a 1 = octet b 1" "octet a 2 = octet b 2" "octet a 3 = octet b 3" by simp_all
  have "unat a = unat b"
    using radix4 [of "unat a" 256] radix4 [of "unat b" 256] o unfolding octet_values by metis
  then show "a = b" by (simp only: word_unat_eq_iff)
qed simp

lemma ipv4_str_inject: "ipv4_str a = ipv4_str b \<longleftrightarrow> a = b"
proof -
  have "ipv4_str a = ipv4_str b \<longleftrightarrow> octet a 0 = octet b 0 \<and> octet a 1 = octet b 1 \<and> octet a 2 = octet b 2 \<and> octet a 3 = octet b 3"
    by (simp add: ipv4_str_def sep_inject [OF nat_str_no_dot nat_str_no_dot] nat_str_inject)
  also have "\<dots> \<longleftrightarrow> (\<forall>i<4. octet a i = octet b i)" by (simp add: numeral_eq_Suc less_Suc_eq all_conj_distrib conj_ac)
  finally show ?thesis by (simp add: octets_eq)
qed

lemma ipv6_prefix_str_inject: "ipv6_prefix_str a = ipv6_prefix_str b \<longleftrightarrow> drop_bit 64 a = drop_bit 64 b"
proof -
  have "ipv6_prefix_str a = ipv6_prefix_str b \<longleftrightarrow>
      segment a 0 = segment b 0 \<and> segment a 1 = segment b 1 \<and> segment a 2 = segment b 2 \<and> segment a 3 = segment b 3"
    by (simp add: ipv6_prefix_str_def sep_inject [OF hex_str_chars hex_str_chars] hex_str_inject)
  also have "\<dots> \<longleftrightarrow> unat (drop_bit 64 a) = unat (drop_bit 64 b)"
    using radix4 [of "unat (drop_bit 64 a)" 65536] radix4 [of "unat (drop_bit 64 b)" 65536] unfolding segment_values by metis
  finally show ?thesis by (simp add: word_unat_eq_iff)
qed

text \<open>One IPv4 address, or one /64 of IPv6.\<close>

definition same_subscriber :: "ip_addr \<Rightarrow> ip_addr \<Rightarrow> bool" where
  "same_subscriber p q \<longleftrightarrow>
     (case (to_canonical p, to_canonical q) of
        (V4 a, V4 b) \<Rightarrow> a = b
      | (V6 a, V6 b) \<Rightarrow> drop_bit 64 a = drop_bit 64 b
      | _ \<Rightarrow> False)"

text \<open>
  Two requests share a rate-limit bucket exactly when their addresses are the same IPv4
  address, written as IPv4 or mapped into IPv6, or lie in the same IPv6 /64; a request without
  an address has a bucket of its own. The admission challenge and the handshake server agree.
\<close>

lemma rate_limit_key_identifies_subscriber:
  "(transport_key (Some p) = transport_key (Some q) \<longleftrightarrow> same_subscriber p q) \<and>
   (cs_transport_key (source_ip p) = cs_transport_key (source_ip q) \<longleftrightarrow> same_subscriber p q) \<and>
   transport_key (Some p) \<noteq> transport_key None"
proof (intro conjI)
  have src: "cs_transport_key (source_ip r) =
      (case to_canonical r of V4 a \<Rightarrow> ''ip4:'' @ ipv4_str a | V6 a \<Rightarrow> ''ip6:'' @ ipv6_prefix_str a)" for r
    by (simp add: source_ip_def to_canonical_def Let_def split: ip_addr.splits option.splits)
  have no_u: "ipv4_str a \<noteq> ''unknown''" for a
  proof
    assume "ipv4_str a = ''unknown''"
    then have "CHR ''.'' \<in> set ''unknown''" by (metis ipv4_str_def in_set_conv_decomp append_Cons append_Nil)
    then show False by simp
  qed
  show "transport_key (Some p) = transport_key (Some q) \<longleftrightarrow> same_subscriber p q"
    by (cases "to_canonical p"; cases "to_canonical q")
      (simp_all add: transport_key_def same_subscriber_def ipv4_str_inject ipv6_prefix_str_inject)
  show "cs_transport_key (source_ip p) = cs_transport_key (source_ip q) \<longleftrightarrow> same_subscriber p q"
    by (cases "to_canonical p"; cases "to_canonical q")
      (simp_all add: src same_subscriber_def ipv4_str_inject ipv6_prefix_str_inject)
  show "transport_key (Some p) \<noteq> transport_key None"
    using no_u by (cases "to_canonical p") (simp_all add: transport_key_def)
qed

end
