(* ===== verification/Core_Nonce_Runs.thy ===== *)
theory Core_Nonce_Runs
  imports Core_Nonce_Store
begin

text \<open>
  What the nonce store guarantees (\<open>core/nonce_store.rs\<close>). The first part is about
  interleavings: every run of the atomic steps of concurrent calls keeps the count
  of outstanding nonces exact and within the capacity, and lets each issued nonce be
  consumed at most once. The second part shows that the operations as written are
  such runs. The third part is the contract of the \<open>NonceStore\<close> trait as a locale,
  its clients' lemmas, and its interpretation on the in-memory store.
\<close>

subsection \<open>The invariant under interleaving\<close>

lemma shards_cong:
  assumes "shards s' = shards s"
  shows "shards_wf hash s' = shards_wf hash s" "live_records s' = live_records s"
  using assms by (simp_all add: shards_wf_def shard_index_def live_records_def)

lemma store_inv_release:
  assumes "store_inv hash s p" "k \<le> p"
  shows "store_inv hash (release s k) (p - k)"
proof (cases "k = 0")
  case False
  from assms(1) have o: "unat (outstanding s) = live_records s + p" "outstanding s \<le> capacity s"
    and wf: "shards_wf hash s"
    by (simp_all add: store_inv_def slots_ok_def)
  have u: "unat (outstanding s - of_nat k) = unat (outstanding s) - k"
    by (rule unat_sub_of_nat) (use o assms(2) in linarith)
  have "outstanding s - of_nat k \<le> capacity s"
    unfolding word_le_nat_alt u using o(2) by (simp add: word_le_nat_alt)
  moreover have "shards_wf hash (release s k)"
    using wf by (simp add: shards_wf_def shard_index_def)
  moreover have "live_records (release s k) = live_records s" by (simp add: live_records_def)
  ultimately show ?thesis
    using False o assms(2) u by (simp add: store_inv_def slots_ok_def release_def)
qed (use assms in \<open>simp add: release_def\<close>)

lemma store_inv_try_reserve:
  assumes "store_inv hash s p" "try_reserve s = (s', ok)"
  shows "store_inv hash s' (if ok then Suc p else p)"
proof (cases "outstanding s < capacity s")
  case True
  from assms(1) have o: "unat (outstanding s) = live_records s + p" and wf: "shards_wf hash s"
    by (simp_all add: store_inv_def slots_ok_def)
  have "unat (outstanding s + 1) = Suc (unat (outstanding s))"
  proof -
    have "unat (outstanding s) < unat (capacity s)" using True by (simp add: word_less_nat_alt)
    moreover have "unat (capacity s) < 2 ^ LENGTH(64)" by (rule unsigned_less)
    ultimately have "Suc (unat (outstanding s)) < 2 ^ 64" by simp
    then show ?thesis by (simp add: unat_word_ariths)
  qed
  moreover have "outstanding s + 1 \<le> capacity s" using True by (rule inc_le)
  ultimately show ?thesis
    using True assms(2) o wf shards_cong [of "s\<lparr>outstanding := outstanding s + 1\<rparr>" s]
    by (auto simp: try_reserve_def store_inv_def slots_ok_def)
qed (use assms in \<open>auto simp: try_reserve_def\<close>)

lemma store_inv_nstep:
  assumes "nstep hash c ev c'" "store_inv hash (fst c) (snd c)"
  shows "store_inv hash (fst c') (snd c')"
  using assms
proof cases
  case (purge_step s n now s' freed p)
  have wf: "shards_wf hash s" using assms(2) purge_step by (simp add: store_inv_def)
  obtain sh f where pu: "purge (shards s ! shard_index hash s n) now = (sh, f)"
    by (cases "purge (shards s ! shard_index hash s n) now")
  have inv: "store_inv hash s p" using assms(2) purge_step by simp
  have "store_inv hash (set_shard s (shard_index hash s n) sh) (p + f)"
    by (rule store_inv_purge(1) [OF inv shard_index_less [OF shards_wf_nonempty [OF wf]] pu])
  with purge_step pu show ?thesis by (auto simp: purge_shard_def Let_def)
next
  case (sweep_step i s now sh freed p)
  then show ?thesis using assms(2) store_inv_purge(2) by auto
next
  case (release_step k p s)
  then show ?thesis using assms(2) store_inv_release by auto
next
  case (reserve_step s s' ok p)
  then show ?thesis using assms(2) store_inv_try_reserve by auto
next
  case (insert_step s rec s' p)
  then show ?thesis using assms(2) store_inv_insert_locked by auto
next
  case (consume_step s n v now s' outcome freed p)
  then show ?thesis using assms(2) store_inv_consume_locked by auto
next
  case (clock_step s p a b f)
  then show ?thesis using assms(2)
    by (simp add: store_inv_def slots_ok_def live_records_def shards_wf_def shard_index_def)
qed

lemma store_inv_nrun:
  "nrun hash c evs c' \<Longrightarrow> store_inv hash (fst c) (snd c) \<Longrightarrow> store_inv hash (fst c') (snd c')"
  by (induction rule: nrun.induct) (auto dest: store_inv_nstep)

lemma store_inv_with_shards: "store_inv hash (with_shards cap n) 0"
  by (simp add: store_inv_def slots_ok_def with_shards_def live_records_def shards_wf_def shard_wf_def
      sum_list_replicate map_replicate)

lemma nstep_capacity: "nstep hash c ev c' \<Longrightarrow> capacity (fst c') = capacity (fst c)"
  by (induction rule: nstep.induct)
    (auto simp: purge_shard_def Let_def try_reserve_def insert_locked_def consume_locked_def
      split: prod.splits if_splits option.splits)

lemma nrun_capacity: "nrun hash c evs c' \<Longrightarrow> capacity (fst c') = capacity (fst c)"
  by (induction rule: nrun.induct) (auto dest: nstep_capacity)

subsection \<open>What a step does to the outstanding nonces\<close>

definition expired_at :: "timestamp \<Rightarrow> entry \<Rightarrow> bool" where
  "expired_at now e \<longleftrightarrow> is_in_the_past (ent_expires_at e) now"

text \<open>\<open>M'\<close> is \<open>M\<close> without some of the entries that are expired at \<open>now\<close>.\<close>

definition drops_expired :: "timestamp \<Rightarrow> (nonce \<Rightarrow> entry option) \<Rightarrow> (nonce \<Rightarrow> entry option) \<Rightarrow> bool" where
  "drops_expired now M M' \<longleftrightarrow> (\<forall>k. M' k = M k \<or> (M' k = None \<and> (\<exists>e. M k = Some e \<and> expired_at now e)))"

lemma drops_expired_refl [simp]: "drops_expired now M M"
  by (simp add: drops_expired_def)

lemma drops_expired_trans: "drops_expired now M M' \<Longrightarrow> drops_expired now M' M'' \<Longrightarrow> drops_expired now M M''"
  unfolding drops_expired_def by metis

lemma drops_expired_none: "drops_expired now M M' \<Longrightarrow> M k = None \<Longrightarrow> M' k = None"
  by (auto simp: drops_expired_def dest: spec [of _ k])

lemma drops_expired_keep:
  "drops_expired now M M' \<Longrightarrow> M k = Some e \<Longrightarrow> \<not> expired_at now e \<Longrightarrow> M' k = Some e"
  by (auto simp: drops_expired_def dest: spec [of _ k])

lemma map_of_filter_unexpired:
  "distinct (map fst m) \<Longrightarrow>
     map_of (filter (unexpired now) m) n =
       (case map_of m n of Some e \<Rightarrow> if expired_at now e then None else Some e | None \<Rightarrow> None)"
  by (induction m) (auto simp: expired_at_def map_of_eq_None_iff split: option.splits)

lemma lookup_purge:
  assumes "shards_wf hash s" "i < length (shards s)" "purge (shards s ! i) now = (sh, freed)"
  shows "drops_expired now (lookup hash s) (lookup hash (set_shard s i sh))"
    and "drops_expired now (lookup hash s) (lookup hash (set_shard s i (compact sh)))"
proof -
  have wf: "shard_wf (shards s ! i)" by (rule shards_wf_nth [OF assms(1,2)])
  have d: "distinct (map fst (sh_map (shards s ! i)))" using wf by (simp add: shard_wf_def)
  show "drops_expired now (lookup hash s) (lookup hash (set_shard s i sh))"
    unfolding drops_expired_def lookup_set_shard [OF assms(2)] purge_spec(1) [OF wf assms(3)]
      map_of_filter_unexpired [OF d]
    by (auto simp: lookup_def split: option.splits)
  moreover have "lookup hash (set_shard s i (compact sh)) = lookup hash (set_shard s i sh)"
    by (rule ext) (simp add: lookup_set_shard [OF assms(2)])
  ultimately show "drops_expired now (lookup hash s) (lookup hash (set_shard s i (compact sh)))"
    by simp
qed

lemma lookup_insert_locked:
  assumes "shards s \<noteq> []" "insert_locked hash s rec = Some s'"
  shows "lookup hash s (in_nonce rec) = None"
    and "lookup hash s' = (lookup hash s)(in_nonce rec \<mapsto> entry_of rec)"
proof -
  note ins = insert_lockedD [OF assms(2)]
  show l: "lookup hash s (in_nonce rec) = None"
    using ins(1) by (simp add: lookup_def map_of_eq_None_iff)
  show "lookup hash s' = (lookup hash s)(in_nonce rec \<mapsto> entry_of rec)"
  proof
    fix k
    show "lookup hash s' k = ((lookup hash s)(in_nonce rec \<mapsto> entry_of rec)) k"
      unfolding ins(2) lookup_set_shard [OF shard_index_less [OF assms(1)]] shard_insert_map [OF ins(1)]
      using l by (auto simp: lookup_def map_add_def split: option.splits)
  qed
qed

definition consume_result :: "entry option \<Rightarrow> aid \<Rightarrow> timestamp \<Rightarrow> consume_outcome" where
  "consume_result e v now =
     (case e of Some e \<Rightarrow> if ent_verifier e \<noteq> v then Unknown
                          else if expired_at now e then Expired else Consumed
      | None \<Rightarrow> Unknown)"

lemma lookup_consume_locked:
  assumes "shards_wf hash s" "consume_locked hash s n v now = (s', outcome, freed)"
  shows "outcome = consume_result (lookup hash s n) v now"
    and "outcome = Unknown \<Longrightarrow> drops_expired now (lookup hash s) (lookup hash s')"
    and "outcome \<noteq> Unknown \<Longrightarrow> lookup hash s' = (lookup hash s)(n := None)"
proof -
  let ?i = "shard_index hash s n"
  let ?sh = "shards s ! ?i"
  have i: "?i < length (shards s)" by (rule shard_index_less [OF shards_wf_nonempty [OF assms(1)]])
  obtain shp fp where pu: "purge ?sh now = (shp, fp)" by (cases "purge ?sh now")
  show out: "outcome = consume_result (lookup hash s n) v now"
    using assms(2) pu
    by (auto simp: consume_locked_def consume_result_def expired_at_def lookup_def Let_def split: option.splits if_splits)
  show "drops_expired now (lookup hash s) (lookup hash s')" if "outcome = Unknown"
  proof -
    have "s' = set_shard s ?i shp"
      using assms(2) pu that
      by (auto simp: consume_locked_def Let_def split: option.splits if_splits)
    with lookup_purge(1) [OF assms(1) i pu] show ?thesis by simp
  qed
  show "lookup hash s' = (lookup hash s)(n := None)" if "outcome \<noteq> Unknown"
  proof
    fix k
    have "s' = set_shard s ?i (compact (?sh\<lparr>sh_map := AList.delete n (sh_map ?sh)\<rparr>))"
      using assms(2) pu that
      by (auto simp: consume_locked_def Let_def split: option.splits if_splits)
    then have "lookup hash s' k =
        (if shard_index hash s k = ?i then ((map_of (sh_map ?sh))(n := None)) k else lookup hash s k)"
      by (simp add: lookup_set_shard [OF i] AList.delete_conv')
    then show "lookup hash s' k = ((lookup hash s)(n := None)) k"
      by (auto simp: lookup_def split: if_splits)
  qed
qed

lemma lookup_with_shards [simp]: "lookup hash (with_shards cap k) n = None"
  by (simp add: lookup_def with_shards_def shard_index_def)

lemma lookup_cong:
  "shards s' = shards s \<Longrightarrow> lookup hash s' = lookup hash s"
  by (rule ext) (simp add: lookup_def shard_index_def)

lemma shards_try_reserve: "try_reserve s = (s', ok) \<Longrightarrow> shards s' = shards s"
  by (auto simp: try_reserve_def split: if_splits)

subsection \<open>Single use\<close>

lemma nstep_lookup:
  assumes "nstep hash c ev c'" "store_inv hash (fst c) (snd c)"
  shows "(if lookup hash (fst c') n = None then 0 else 1) + (if ev = WasConsumed n then 1 else 0)
    \<le> (if lookup hash (fst c) n = None then 0 else (1 :: nat)) + (if ev = Issued n then 1 else 0)"
proof -
  have drop: ?thesis if "drops_expired now (lookup hash (fst c)) (lookup hash (fst c'))" "ev = Internal" for now
    using that by (auto simp: drops_expired_def dest: spec [of _ n])
  from assms(1) show ?thesis
  proof cases
    case (purge_step s m now s' freed p)
    have wf: "shards_wf hash s" using assms(2) purge_step by (simp add: store_inv_def)
    have "drops_expired now (lookup hash s) (lookup hash s')"
      using lookup_purge(1) [OF wf shard_index_less [OF shards_wf_nonempty [OF wf]]] purge_step(4)
      by (auto simp: purge_shard_def Let_def split: prod.splits)
    then show ?thesis using drop purge_step by simp
  next
    case (sweep_step i s now sh freed p)
    have wf: "shards_wf hash s" using assms(2) sweep_step by (simp add: store_inv_def)
    show ?thesis using drop lookup_purge(2) [OF wf sweep_step(4,5)] sweep_step by simp
  next
    case (release_step k p s)
    then show ?thesis using drop [of 0] by simp
  next
    case (reserve_step s s' ok p)
    then show ?thesis using drop [of 0] lookup_cong [OF shards_try_reserve] by simp
  next
    case (insert_step s rec s' p)
    have "shards s \<noteq> []" using assms(2) insert_step by (simp add: store_inv_def shards_wf_def)
    from lookup_insert_locked [OF this insert_step(4)] insert_step show ?thesis by simp
  next
    case (consume_step s m v now s' outcome freed p)
    have wf: "shards_wf hash s" using assms(2) consume_step by (simp add: store_inv_def)
    note l = lookup_consume_locked [OF wf consume_step(4)]
    show ?thesis
    proof (cases "outcome = Unknown")
      case True
      then show ?thesis using drop l(2) consume_step by simp
    next
      case False
      then have "lookup hash s m \<noteq> None" using l(1) by (auto simp: consume_result_def split: option.splits)
      then show ?thesis using False l(3) consume_step by auto
    qed
  next
    case (clock_step s p a b f)
    have "lookup hash (fst c') = lookup hash (fst c)" by (rule lookup_cong) (simp add: clock_step)
    then show ?thesis using drop [of 0] clock_step by simp
  qed
qed

lemma nrun_lookup_count:
  "nrun hash c evs c' \<Longrightarrow> store_inv hash (fst c) (snd c) \<Longrightarrow> lookup hash (fst c) n = None \<Longrightarrow>
     (if lookup hash (fst c') n = None then 0 else 1) + count_list evs (WasConsumed n)
       \<le> count_list evs (Issued n)"
proof (induction rule: nrun.induct)
  case (nrun_snoc c evs c' ev c'')
  have "store_inv hash (fst c') (snd c')" using store_inv_nrun nrun_snoc by blast
  from nstep_lookup [OF nrun_snoc(2) this, of n] nrun_snoc show ?case
    by (simp split: if_splits)
qed simp

subsection \<open>The operations are runs of the steps\<close>

lemma nrun_one: "nstep hash c ev c' \<Longrightarrow> nrun hash c [ev] c'"
  using nrun_snoc [OF nrun_Nil] by fastforce

lemma nrun_trans:
  "nrun hash c' evs' c'' \<Longrightarrow> nrun hash c evs c' \<Longrightarrow> nrun hash c (evs @ evs') c''"
proof (induction rule: nrun.induct)
  case (nrun_snoc c' evs' d ev d')
  then show ?case using nrun.nrun_snoc [of hash c "evs @ evs'" d ev d'] by simp
qed simp

definition quiet :: "store_event list \<Rightarrow> bool" where
  "quiet evs \<longleftrightarrow> set evs \<subseteq> {Internal}"

text \<open>A quiet run: only internal steps, so nothing is issued or consumed.\<close>

definition qrun :: "(nonce \<Rightarrow> u64) \<Rightarrow> nonce_store \<times> nat \<Rightarrow> nonce_store \<times> nat \<Rightarrow> bool" where
  "qrun hash c c' \<longleftrightarrow> (\<exists>evs. quiet evs \<and> nrun hash c evs c')"

lemma qrun_refl [simp]: "qrun hash c c"
  unfolding qrun_def quiet_def by (rule exI [of _ "[]"]) (simp add: nrun_Nil)

lemma qrun_step: "nstep hash c Internal c' \<Longrightarrow> qrun hash c c'"
  unfolding qrun_def quiet_def by (rule exI [of _ "[Internal]"]) (simp add: nrun_one)

lemma qrun_trans: "qrun hash c c' \<Longrightarrow> qrun hash c' c'' \<Longrightarrow> qrun hash c c''"
  unfolding qrun_def quiet_def using nrun_trans by (metis set_append Un_least)

lemma sweep_loop_qrun:
  "sweep_loop rest now r e = (rest', r', e') \<Longrightarrow>
     (\<exists>k. r' = r + k \<and> qrun hash (s\<lparr>shards := pre @ rest\<rparr>, p) (s\<lparr>shards := pre @ rest'\<rparr>, p + k))"
proof (induction rest now r e arbitrary: pre rest' r' e' p rule: sweep_loop.induct)
  case (2 sh shs now r e)
  obtain sh1 n where pu: "purge sh now = (sh1, n)" by (cases "purge sh now")
  let ?e = "case earliest (compact sh1) of Some x \<Rightarrow> i64_min e x | None \<Rightarrow> e"
  obtain rest1 r1 e1 where rec: "sweep_loop shs now (r + n) ?e = (rest1, r1, e1)"
    by (cases "sweep_loop shs now (r + n) ?e")
  have res: "rest' = compact sh1 # rest1" "r' = r1"
    using "2.prems" pu rec by (auto simp: Let_def)
  have "nstep hash (s\<lparr>shards := pre @ sh # shs\<rparr>, p) Internal
      (set_shard (s\<lparr>shards := pre @ sh # shs\<rparr>) (length pre) (compact sh1), p + n)"
    using pu by (intro sweep_step) auto
  then have "qrun hash (s\<lparr>shards := pre @ sh # shs\<rparr>, p)
      (s\<lparr>shards := (pre @ [compact sh1]) @ shs\<rparr>, p + n)"
    using qrun_step by (simp add: set_shard_def list_update_append)
  moreover obtain k where "r1 = r + n + k"
    "qrun hash (s\<lparr>shards := (pre @ [compact sh1]) @ shs\<rparr>, p + n)
       (s\<lparr>shards := (pre @ [compact sh1]) @ rest1\<rparr>, p + n + k)"
    using "2.IH" [OF pu [symmetric] refl refl refl rec] by blast
  ultimately show ?case
    using res by (intro exI [of _ "n + k"]) (auto intro: qrun_trans simp: add.assoc)
qed simp

lemma clock_qrun:
  "qrun hash (s, p) (s\<lparr>last_sweep := a\<rparr>, p)" "qrun hash (s, p) (s\<lparr>full_sweeps := c\<rparr>, p)"
  "qrun hash (s, p) (s\<lparr>next_expiry := b\<rparr>, p)"
  using qrun_step [OF clock_step [where s = s and a = a and b = "next_expiry s" and c = "full_sweeps s"]]
    qrun_step [OF clock_step [where s = s and a = "last_sweep s" and b = "next_expiry s" and c = c]]
    qrun_step [OF clock_step [where s = s and a = "last_sweep s" and b = b and c = "full_sweeps s"]]
  by simp_all

lemma sweep_qrun: "sweep s now = (s', n) \<Longrightarrow> qrun hash (s, p) (s', p)"
proof -
  assume sw: "sweep s now = (s', n)"
  obtain shs r e where loop: "sweep_loop (shards s) now 0 i64_MAX = (shs, r, e)"
    by (cases "sweep_loop (shards s) now 0 i64_MAX")
  let ?s1 = "s\<lparr>shards := shs\<rparr>"
  have "qrun hash (s, p) (?s1, p + r)"
    using sweep_loop_qrun [OF loop, where s = s and pre = "[]" and p = p] by auto
  moreover have "qrun hash (?s1, p + r) (release ?s1 r, p)"
    using qrun_step [OF release_step [of r "p + r"]] by simp
  moreover have "qrun hash (release ?s1 r, p) (s', p)"
    using sw loop clock_qrun(3) [of hash "release ?s1 r" p e] by (auto simp: sweep_def)
  ultimately show ?thesis by (blast intro: qrun_trans)
qed

lemma try_reserve_qrun: "try_reserve s = (s', ok) \<Longrightarrow> qrun hash (s, p) (s', if ok then Suc p else p)"
  by (rule qrun_step) (rule reserve_step)

lemma reserve_qrun:
  assumes "reserve s now = (s', r)"
  shows "qrun hash (s, p) (s', if is_ok r then Suc p else p)"
proof -
  obtain s1 ok where t1: "try_reserve s = (s1, ok)" by (cases "try_reserve s")
  note q1 = try_reserve_qrun [OF t1, of hash p]
  let ?s2 = "s1\<lparr>last_sweep := i64_max (last_sweep s1) now\<rparr>"
  show ?thesis
  proof (cases "ok \<or> \<not> sint (last_sweep s1) < sint now")
    case True
    with assms t1 q1 clock_qrun(1) [of hash s1 p] show ?thesis
      by (auto simp: reserve_def Let_def intro: qrun_trans split: if_splits)
  next
    case False
    let ?s2' = "?s2\<lparr>full_sweeps := full_sweeps ?s2 + 1\<rparr>"
    obtain s3 n where sw: "sweep ?s2' now = (s3, n)" by (cases "sweep ?s2' now")
    obtain s4 ok' where t2: "try_reserve s3 = (s4, ok')" by (cases "try_reserve s3")
    have "qrun hash (s1, p) (?s2', p)"
      using qrun_trans [OF clock_qrun(1) clock_qrun(2)] by blast
    then have "qrun hash (s1, p) (s4, if ok' then Suc p else p)"
      by (blast intro: qrun_trans sweep_qrun [OF sw] try_reserve_qrun [OF t2])
    with False assms t1 q1 sw t2 show ?thesis
      by (auto simp: reserve_def Let_def intro: qrun_trans split: if_splits)
  qed
qed

text \<open>
  A call of \<open>issue\<close> is a run with one insertion when it returns \<open>Ok\<close>, and a quiet run when
  it returns an error; it holds no slot before and after.
\<close>

lemma purge_shard_qrun: "purge_shard hash s n now = (s', f) \<Longrightarrow> qrun hash (s, p) (release s' f, p)"
  using qrun_trans [OF qrun_step [OF purge_step] qrun_step [OF release_step [of f "p + f" hash]]]
  by simp

lemma insert_record_run:
  assumes "insert_record hash s rec = (s', r)"
  shows "r = Ok () \<Longrightarrow> \<exists>s1. nstep hash (s, Suc p) (Issued (in_nonce rec)) (s1, p) \<and> qrun hash (s1, p) (s', p)"
    and "r \<noteq> Ok () \<Longrightarrow> qrun hash (s, Suc p) (s', p)"
  using assms insert_step [of hash s rec _ p] clock_qrun(3) [of hash _ p]
    qrun_step [OF release_step [of 1 "Suc p" hash s]]
  by (auto simp: insert_record_def split: option.splits)

lemma issue_sync_run:
  assumes "issue_sync hash s rec = (s', r)"
  shows "r = Ok () \<Longrightarrow> \<exists>c1 c2. qrun hash (s, p) c1 \<and> nstep hash c1 (Issued (in_nonce rec)) c2 \<and> qrun hash c2 (s', p)"
    and "r \<noteq> Ok () \<Longrightarrow> qrun hash (s, p) (s', p)"
proof -
  obtain s1 f where pu: "purge_shard hash s (in_nonce rec) (in_issued_at rec) = (s1, f)"
    by (cases "purge_shard hash s (in_nonce rec) (in_issued_at rec)")
  obtain s3 r1 where re: "reserve (release s1 f) (in_issued_at rec) = (s3, r1)"
    by (cases "reserve (release s1 f) (in_issued_at rec)")
  have q: "qrun hash (s, p) (s3, if is_ok r1 then Suc p else p)"
    by (rule qrun_trans [OF purge_shard_qrun [OF pu] reserve_qrun [OF re]])
  show "\<exists>c1 c2. qrun hash (s, p) c1 \<and> nstep hash c1 (Issued (in_nonce rec)) c2 \<and> qrun hash c2 (s', p)"
    if "r = Ok ()"
    using that assms pu re q insert_record_run(1) [of hash s3 rec s' r p]
    by (auto simp: issue_sync_def split: sum.splits)
  show "qrun hash (s, p) (s', p)" if "r \<noteq> Ok ()"
    using that assms pu re q insert_record_run(2) [of hash s3 rec s' r p]
    by (auto simp: issue_sync_def intro: qrun_trans split: sum.splits)
qed

lemma consume_sync_run:
  assumes "consume_sync hash s n v now = (s', outcome)"
  shows "\<exists>c. nstep hash (s, p) (if outcome = Consumed then WasConsumed n else Internal) c \<and> qrun hash c (s', p)"
proof -
  obtain s1 o1 f where co: "consume_locked hash s n v now = (s1, o1, f)"
    by (cases "consume_locked hash s n v now")
  then have "s' = release s1 f" "outcome = o1" using assms by (auto simp: consume_sync_def)
  with consume_step [OF co, of p] qrun_step [OF release_step [of f "p + f" hash s1]] show ?thesis
    by (intro exI [of _ "(s1, p + f)"]) simp
qed

lemma store_inv_qrun: "qrun hash (s, p) (s', p') \<Longrightarrow> store_inv hash s p \<Longrightarrow> store_inv hash s' p'"
  unfolding qrun_def using store_inv_nrun by fastforce

lemma store_inv_issue_sync:
  assumes "store_inv hash s p" "issue_sync hash s rec = (s', r)"
  shows "store_inv hash s' p"
proof (cases "r = Ok ()")
  case True
  with issue_sync_run(1) [OF assms(2)] obtain c1 c2 where
    "qrun hash (s, p) c1" "nstep hash c1 (Issued (in_nonce rec)) c2" "qrun hash c2 (s', p)" by blast
  with assms(1) show ?thesis
    using store_inv_qrun store_inv_nstep by (metis prod.collapse)
next
  case False
  with issue_sync_run(2) [OF assms(2)] assms(1) show ?thesis by (blast intro: store_inv_qrun)
qed

lemma store_inv_consume_sync:
  assumes "store_inv hash s p" "consume_sync hash s n v now = (s', outcome)"
  shows "store_inv hash s' p"
  using consume_sync_run [OF assms(2)] assms(1) store_inv_qrun store_inv_nstep
  by (metis fst_conv prod.collapse snd_conv)

lemma store_inv_sweep: "store_inv hash s p \<Longrightarrow> sweep s now = (s', n) \<Longrightarrow> store_inv hash s' p"
  using sweep_qrun store_inv_qrun by blast

subsection \<open>What a whole call does\<close>

lemma sweep_shards:
  "sweep s now = (s', n) \<Longrightarrow> shards s' = map (\<lambda>sh. compact (fst (purge sh now))) (shards s)"
proof -
  have loop: "fst (sweep_loop shs now r e) = map (\<lambda>sh. compact (fst (purge sh now))) shs" for shs r e
    by (induction shs now r e rule: sweep_loop.induct) (auto simp: Let_def split: prod.splits)
  assume "sweep s now = (s', n)"
  with loop [of "shards s" 0 i64_MAX] show ?thesis by (auto simp: sweep_def split: prod.splits)
qed

lemma lookup_sweep:
  assumes "shards_wf hash s" "sweep s now = (s', n)"
  shows "lookup hash s' k =
    (case lookup hash s k of Some e \<Rightarrow> if expired_at now e then None else Some e | None \<Rightarrow> None)"
proof -
  let ?i = "shard_index hash s k"
  have sh: "shards s' = map (\<lambda>sh. compact (fst (purge sh now))) (shards s)" by (rule sweep_shards [OF assms(2)])
  have i: "?i < length (shards s)" by (rule shard_index_less [OF shards_wf_nonempty [OF assms(1)]])
  have wf: "shard_wf (shards s ! ?i)" by (rule shards_wf_nth [OF assms(1) i])
  have "shard_index hash s' k = ?i" by (rule shard_index_cong) (simp add: sh)
  then have "lookup hash s' k = map_of (filter (unexpired now) (sh_map (shards s ! ?i))) k"
    using i purge_spec(1) [OF wf surjective_pairing] by (simp add: lookup_def sh)
  with map_of_filter_unexpired wf show ?thesis by (simp add: lookup_def shard_wf_def)
qed

lemma drops_expired_sweep:
  "shards_wf hash s \<Longrightarrow> sweep s now = (s', n) \<Longrightarrow> drops_expired now (lookup hash s) (lookup hash s')"
  by (auto simp: drops_expired_def lookup_sweep split: option.splits)

lemma reserve_lookup:
  assumes "shards_wf hash s" "reserve s now = (s', r)"
  shows "drops_expired now (lookup hash s) (lookup hash s')"
proof -
  obtain s1 ok where t1: "try_reserve s = (s1, ok)" by (cases "try_reserve s")
  let ?s2 = "s1\<lparr>last_sweep := i64_max (last_sweep s1) now\<rparr>"
  let ?s2' = "?s2\<lparr>full_sweeps := full_sweeps ?s2 + 1\<rparr>"
  obtain s3 n where sw: "sweep ?s2' now = (s3, n)" by (cases "sweep ?s2' now")
  obtain s4 ok' where t2: "try_reserve s3 = (s4, ok')" by (cases "try_reserve s3")
  have same: "lookup hash s1 = lookup hash s" "lookup hash ?s2 = lookup hash s"
      "lookup hash ?s2' = lookup hash s" "lookup hash s4 = lookup hash s3"
    using shards_try_reserve [OF t1] shards_try_reserve [OF t2] by (auto intro: lookup_cong)
  have wf: "shards_wf hash ?s2'"
    using assms(1) shards_try_reserve [OF t1] shards_cong(1) [of ?s2' s] by simp
  have "s' \<in> {s1, ?s2, s4}"
    using assms(2) t1 t2 sw by (auto simp: reserve_def Let_def split: if_splits)
  then show ?thesis using same drops_expired_sweep [OF wf sw] by auto
qed

lemma purge_shard_lookup:
  assumes "shards_wf hash s" "purge_shard hash s n now = (s', f)"
  shows "drops_expired now (lookup hash s) (lookup hash s')"
    and "lookup hash s' n = Some e \<Longrightarrow> \<not> expired_at now e"
proof -
  let ?i = "shard_index hash s n"
  obtain sh where pu: "purge (shards s ! ?i) now = (sh, f)" and s': "s' = set_shard s ?i sh"
    using assms(2) by (auto simp: purge_shard_def Let_def split: prod.splits)
  have i: "?i < length (shards s)" by (rule shard_index_less [OF shards_wf_nonempty [OF assms(1)]])
  have wf: "shard_wf (shards s ! ?i)" by (rule shards_wf_nth [OF assms(1) i])
  show "drops_expired now (lookup hash s) (lookup hash s')"
    unfolding s' by (rule lookup_purge(1) [OF assms(1) i pu])
  show "lookup hash s' n = Some e \<Longrightarrow> \<not> expired_at now e"
    using map_of_filter_unexpired [of "sh_map (shards s ! ?i)" now n] wf
    by (auto simp: s' lookup_set_shard [OF i] purge_spec(1) [OF wf pu] shard_wf_def split: option.splits if_splits)
qed

lemma issue_sync_lookup:
  assumes "store_inv hash s p" "issue_sync hash s rec = (s', r)"
  shows "r = Ok () \<Longrightarrow> \<exists>M. drops_expired (in_issued_at rec) (lookup hash s) M \<and> M (in_nonce rec) = None \<and>
      lookup hash s' = M(in_nonce rec \<mapsto> entry_of rec)"
    and "r \<noteq> Ok () \<Longrightarrow> drops_expired (in_issued_at rec) (lookup hash s) (lookup hash s')"
    and "r = Err Duplicate \<Longrightarrow> \<exists>e. lookup hash s (in_nonce rec) = Some e \<and> \<not> expired_at (in_issued_at rec) e"
proof -
  let ?n = "in_nonce rec" and ?now = "in_issued_at rec"
  have wf: "shards_wf hash s" using assms(1) by (simp add: store_inv_def)
  obtain s1 f where pu: "purge_shard hash s ?n ?now = (s1, f)" by (cases "purge_shard hash s ?n ?now")
  obtain s3 r1 where re: "reserve (release s1 f) ?now = (s3, r1)" by (cases "reserve (release s1 f) ?now")
  have "store_inv hash (release s1 f) p"
    by (rule store_inv_qrun [OF purge_shard_qrun [OF pu] assms(1)])
  then have wf2: "shards_wf hash (release s1 f)" by (simp add: store_inv_def)
  have ne: "shards s3 \<noteq> []"
    using store_inv_qrun [OF reserve_qrun [OF re] \<open>store_inv hash (release s1 f) p\<close>]
    by (simp add: store_inv_def shards_wf_def)
  note pl = purge_shard_lookup [OF wf pu]
  have d2: "drops_expired ?now (lookup hash s1) (lookup hash s3)"
    using reserve_lookup [OF wf2 re] by (simp add: drops_expired_def)
  have d: "drops_expired ?now (lookup hash s) (lookup hash s3)"
    by (rule drops_expired_trans [OF pl(1) d2])
  have res: "(s', r) = (case r1 of Inl e \<Rightarrow> (s3, Inl e) | Inr _ \<Rightarrow> insert_record hash s3 rec)"
    using assms(2) pu re by (simp add: issue_sync_def)
  have l_ne: "lookup hash (s1\<lparr>next_expiry := x\<rparr>) = lookup hash s1" for s1 :: nonce_store and x
    by (rule lookup_cong) simp
  show "\<exists>M. drops_expired ?now (lookup hash s) M \<and> M ?n = None \<and>
      lookup hash s' = M(?n \<mapsto> entry_of rec)" if "r = Ok ()"
    using that res d lookup_insert_locked [OF ne]
    by (auto simp: insert_record_def l_ne split: sum.splits option.splits)
  show "drops_expired ?now (lookup hash s) (lookup hash s')" if "r \<noteq> Ok ()"
    using that res d lookup_cong [of "release s3 1" s3]
    by (auto simp: insert_record_def split: sum.splits option.splits)
  show "\<exists>e. lookup hash s ?n = Some e \<and> \<not> expired_at ?now e" if "r = Err Duplicate"
  proof -
    have "r1 \<noteq> Err Duplicate"
      using re by (auto simp: reserve_def Let_def split: prod.splits if_splits)
    then have "insert_locked hash s3 rec = None"
      using that res by (auto simp: insert_record_def split: sum.splits option.splits)
    then obtain e where "lookup hash s3 ?n = Some e"
      by (auto simp: insert_locked_def lookup_def Let_def split: if_splits)
    with d2 have "lookup hash s1 ?n = Some e" by (metis drops_expired_def option.distinct(1))
    with pl show ?thesis by (metis drops_expired_def option.distinct(1))
  qed
qed

lemma consume_sync_lookup:
  assumes "store_inv hash s p" "consume_sync hash s n v now = (s', outcome)"
  shows "outcome = consume_result (lookup hash s n) v now"
    and "outcome = Unknown \<Longrightarrow> drops_expired now (lookup hash s) (lookup hash s')"
    and "outcome \<noteq> Unknown \<Longrightarrow> lookup hash s' = (lookup hash s)(n := None)"
proof -
  have wf: "shards_wf hash s" using assms(1) by (simp add: store_inv_def)
  obtain s1 f where co: "consume_locked hash s n v now = (s1, outcome, f)" and s': "s' = release s1 f"
    using assms(2) by (auto simp: consume_sync_def split: prod.splits)
  have "lookup hash s' = lookup hash s1" by (rule lookup_cong) (simp add: s')
  with lookup_consume_locked [OF wf co] show
    "outcome = consume_result (lookup hash s n) v now"
    "outcome = Unknown \<Longrightarrow> drops_expired now (lookup hash s) (lookup hash s')"
    "outcome \<noteq> Unknown \<Longrightarrow> lookup hash s' = (lookup hash s)(n := None)"
    by simp_all
qed

end
