(* ===== verification/Core_Nonce_Contract.thy ===== *)
theory Core_Nonce_Contract
  imports Core_Nonce_Runs
begin

text \<open>
  The contract of the \<open>NonceStore\<close> trait (\<open>core/nonce_store.rs\<close>) as a locale over any
  implementation, what its callers may conclude from it, and its interpretation on
  the in-memory store. The properties at the end are about the in-memory store: the
  interleaved ones come from \<open>Core_Nonce_Runs\<close>, the sequential ones from the locale.
\<close>

subsection \<open>The trait\<close>

datatype store_call = CallIssue issued_nonce | CallConsume nonce aid timestamp

fun call_time :: "store_call \<Rightarrow> timestamp" where
  "call_time (CallIssue rec) = in_issued_at rec"
| "call_time (CallConsume n v now) = now"

fun run_calls ::
  "('s \<Rightarrow> issued_nonce \<Rightarrow> 's \<times> (nonce_store_error, unit) result) \<Rightarrow>
   ('s \<Rightarrow> nonce \<Rightarrow> aid \<Rightarrow> timestamp \<Rightarrow> 's \<times> consume_outcome) \<Rightarrow> 's \<Rightarrow> store_call list \<Rightarrow> 's" where
  "run_calls issue consume s [] = s"
| "run_calls issue consume s (CallIssue rec # cs) = run_calls issue consume (fst (issue s rec)) cs"
| "run_calls issue consume s (CallConsume n v now # cs) = run_calls issue consume (fst (consume s n v now)) cs"

locale nonce_store_contract =
  fixes inv :: "'s \<Rightarrow> bool"
    and holds :: "'s \<Rightarrow> nonce \<Rightarrow> entry option"
    and issue :: "'s \<Rightarrow> issued_nonce \<Rightarrow> 's \<times> (nonce_store_error, unit) result"
    and consume :: "'s \<Rightarrow> nonce \<Rightarrow> aid \<Rightarrow> timestamp \<Rightarrow> 's \<times> consume_outcome"
  assumes issue_inv: "inv s \<Longrightarrow> inv (fst (issue s rec))"
    and consume_inv: "inv s \<Longrightarrow> inv (fst (consume s n v now))"
    and issue_ok: "inv s \<Longrightarrow> issue s rec = (s', Ok ()) \<Longrightarrow>
      \<exists>M. drops_expired (in_issued_at rec) (holds s) M \<and> M (in_nonce rec) = None \<and>
        holds s' = M(in_nonce rec \<mapsto> entry_of rec)"
    and issue_err: "inv s \<Longrightarrow> issue s rec = (s', Err e) \<Longrightarrow>
      drops_expired (in_issued_at rec) (holds s) (holds s')"
    and consume_outcome: "inv s \<Longrightarrow> snd (consume s n v now) = consume_result (holds s n) v now"
    and consume_unknown: "inv s \<Longrightarrow> consume s n v now = (s', Unknown) \<Longrightarrow>
      drops_expired now (holds s) (holds s')"
    and consume_removes: "inv s \<Longrightarrow> consume s n v now = (s', out) \<Longrightarrow> out \<noteq> Unknown \<Longrightarrow>
      holds s' = (holds s)(n := None)"
begin

lemma holds_issue_other:
  assumes "inv s" "n \<noteq> in_nonce rec"
  shows "holds (fst (issue s rec)) n = holds s n \<or>
    (holds (fst (issue s rec)) n = None \<and> (\<exists>e. holds s n = Some e \<and> expired_at (in_issued_at rec) e))"
proof (cases "issue s rec")
  case (Pair s' r)
  show ?thesis
  proof (cases r)
    case (Inl e)
    with Pair issue_err [OF assms(1)] show ?thesis by (auto simp: drops_expired_def)
  next
    case (Inr u)
    with Pair issue_ok [OF assms(1), of rec s'] assms(2) show ?thesis by (auto simp: drops_expired_def)
  qed
qed

text \<open>Issuing a nonce that is held and not expired changes nothing of it.\<close>

lemma holds_issue_same:
  assumes "inv s" "holds s n = Some e" "\<not> expired_at (in_issued_at rec) e"
  shows "holds (fst (issue s rec)) n = Some e"
proof (cases "issue s rec")
  case (Pair s' r)
  show ?thesis
  proof (cases r)
    case (Inl err)
    with Pair issue_err [OF assms(1)] assms(2,3) show ?thesis by (auto intro: drops_expired_keep)
  next
    case (Inr u)
    with Pair issue_ok [OF assms(1), of rec s'] obtain M where
      M: "drops_expired (in_issued_at rec) (holds s) M" "M (in_nonce rec) = None"
      "holds s' = M(in_nonce rec \<mapsto> entry_of rec)" by auto
    have "M n = Some e" by (rule drops_expired_keep [OF M(1) assms(2,3)])
    with M Pair show ?thesis by auto
  qed
qed

lemma holds_consume_none:
  assumes "inv s" "holds s n = None"
  shows "holds (fst (consume s k v now)) n = None"
proof (cases "consume s k v now")
  case (Pair s' out)
  show ?thesis
  proof (cases "out = Unknown")
    case True
    with Pair have "drops_expired now (holds s) (holds s')" using consume_unknown [OF assms(1)] by blast
    from drops_expired_none [OF this assms(2)] Pair show ?thesis by simp
  next
    case False
    with consume_removes [OF assms(1) Pair] assms(2) Pair show ?thesis by simp
  qed
qed

lemma holds_consume_keep:
  assumes "inv s" "holds s n = Some e" "\<not> expired_at now e" "k = n \<longrightarrow> v \<noteq> ent_verifier e"
  shows "holds (fst (consume s k v now)) n = Some e"
proof (cases "consume s k v now")
  case (Pair s' out)
  have out: "out = consume_result (holds s k) v now"
    using consume_outcome [OF assms(1), of k v now] Pair by simp
  show ?thesis
  proof (cases "out = Unknown")
    case True
    with Pair have "drops_expired now (holds s) (holds s')" using consume_unknown [OF assms(1)] by blast
    from drops_expired_keep [OF this assms(2,3)] Pair show ?thesis by simp
  next
    case False
    with out assms(2,4) have "k \<noteq> n" by (auto simp: consume_result_def)
    with consume_removes [OF assms(1) Pair False] assms(2) Pair show ?thesis by simp
  qed
qed

lemma run_calls_inv: "inv s \<Longrightarrow> inv (run_calls issue consume s cs)"
proof (induction cs arbitrary: s)
  case (Cons c cs)
  then show ?case by (cases c) (simp_all add: issue_inv consume_inv)
qed simp

lemma run_calls_none:
  assumes "inv s" "holds s n = None" "\<forall>rec. CallIssue rec \<in> set cs \<longrightarrow> in_nonce rec \<noteq> n"
  shows "holds (run_calls issue consume s cs) n = None"
  using assms
proof (induction cs arbitrary: s)
  case (Cons c cs)
  show ?case
  proof (cases c)
    case (CallIssue rec)
    with Cons.prems holds_issue_other [of s n rec] have "holds (fst (issue s rec)) n = None" by auto
    with CallIssue Cons show ?thesis by (simp add: issue_inv)
  next
    case (CallConsume k v now)
    with Cons holds_consume_none show ?thesis by (simp add: consume_inv)
  qed
qed simp

lemma run_calls_keep:
  assumes "inv s" "holds s n = Some e" "\<forall>c\<in>set cs. \<not> expired_at (call_time c) e"
    and "\<forall>k now. CallConsume n (ent_verifier e) now \<notin> set cs"
  shows "holds (run_calls issue consume s cs) n = Some e"
  using assms
proof (induction cs arbitrary: s)
  case (Cons c cs)
  show ?case
  proof (cases c)
    case (CallIssue rec)
    with Cons.prems holds_issue_same [of s n e rec] have "holds (fst (issue s rec)) n = Some e" by auto
    with CallIssue Cons show ?thesis by (simp add: issue_inv)
  next
    case (CallConsume k v now)
    with Cons.prems have "holds (fst (consume s k v now)) n = Some e"
      by (intro holds_consume_keep) auto
    with CallConsume Cons show ?thesis by (simp add: consume_inv)
  qed
qed simp

text \<open>A consumed nonce is refused until it is issued again, whatever else is called.\<close>

lemma consumed_once:
  assumes "inv s" "consume s n v now = (s', Consumed)"
    and "\<forall>rec. CallIssue rec \<in> set cs \<longrightarrow> in_nonce rec \<noteq> n"
  shows "snd (consume (run_calls issue consume s' cs) n v' now') = Unknown"
proof -
  have "inv s'" using consume_inv [OF assms(1), of n v now] assms(2) by simp
  moreover have "holds s' n = None" using consume_removes [OF assms(1,2)] by simp
  ultimately have "holds (run_calls issue consume s' cs) n = None"
    using run_calls_none assms(3) by blast
  with consume_outcome [OF run_calls_inv [OF \<open>inv s'\<close>]] show ?thesis
    by (simp add: consume_result_def)
qed

text \<open>An issued nonce can be consumed by its verifier while it is not expired, whatever else is called.\<close>

lemma issued_survives:
  assumes "inv s" "issue s rec = (s', Ok ())"
    and "\<forall>c\<in>set cs. sint (call_time c) \<le> sint (in_expires_at rec)"
    and "\<forall>now. CallConsume (in_nonce rec) (in_verifier rec) now \<notin> set cs"
    and "sint now \<le> sint (in_expires_at rec)"
  shows "snd (consume (run_calls issue consume s' cs) (in_nonce rec) (in_verifier rec) now) = Consumed"
proof -
  have i: "inv s'" using issue_inv [OF assms(1), of rec] assms(2) by simp
  have h: "holds s' (in_nonce rec) = Some (entry_of rec)" using issue_ok [OF assms(1,2)] by auto
  have "holds (run_calls issue consume s' cs) (in_nonce rec) = Some (entry_of rec)"
    using assms(3,4)
    by (intro run_calls_keep [OF i h]) (auto simp: expired_at_def is_in_the_past_def entry_of_def)
  with consume_outcome [OF run_calls_inv [OF i]] assms(5) show ?thesis
    by (simp add: consume_result_def entry_of_def expired_at_def is_in_the_past_def)
qed

end

subsection \<open>The in-memory store keeps the contract\<close>

interpretation mem: nonce_store_contract
  "\<lambda>s. store_inv hash s 0" "lookup hash" "issue_sync hash" "consume_sync hash" for hash
proof (unfold_locales, goal_cases)
  case (1 s rec)
  show ?case by (rule store_inv_issue_sync [OF 1 surjective_pairing])
next
  case (2 s n v now)
  show ?case by (rule store_inv_consume_sync [OF 2 surjective_pairing])
next
  case (3 s rec s')
  then show ?case using issue_sync_lookup(1) by blast
next
  case (4 s rec s' e)
  then show ?case using issue_sync_lookup(2) by blast
next
  case (5 s n v now)
  show ?case by (rule consume_sync_lookup(1) [OF 5 surjective_pairing])
next
  case (6 s n v now s')
  then show ?case using consume_sync_lookup(2) by blast
next
  case (7 s n v now s' out)
  then show ?case using consume_sync_lookup(3) by blast
qed

subsection \<open>Refusal at capacity\<close>

text \<open>Every record outlives the second of the last full sweep.\<close>

definition swept :: "(nonce \<Rightarrow> u64) \<Rightarrow> nonce_store \<Rightarrow> bool" where
  "swept hash s \<longleftrightarrow> (\<forall>n e. lookup hash s n = Some e \<longrightarrow> sint (last_sweep s) \<le> sint (ent_expires_at e))"

lemma swept_drops:
  "swept hash s \<Longrightarrow> drops_expired now (lookup hash s) (lookup hash s') \<Longrightarrow> last_sweep s' = last_sweep s \<Longrightarrow>
     swept hash s'"
  unfolding swept_def drops_expired_def by (metis option.distinct(1))

lemma try_reserve_simps:
  assumes "try_reserve s = (s', ok)"
  shows "last_sweep s' = last_sweep s" "capacity s' = capacity s" "lookup hash s' = lookup hash s"
    "\<not> ok \<Longrightarrow> s' = s \<and> \<not> outstanding s < capacity s"
  using assms lookup_cong [OF shards_try_reserve [OF assms]] by (auto simp: try_reserve_def split: if_splits)

lemma sweep_last_sweep: "last_sweep (fst (sweep s now)) = last_sweep s"
  by (simp add: sweep_def split: prod.splits)

lemma capacity_sweep: "capacity (fst (sweep s now)) = capacity s"
  by (simp add: sweep_def split: prod.splits)

lemma reserve_swept:
  assumes "shards_wf hash s" "swept hash s" "sint (last_sweep s) \<le> sint now" "reserve s now = (s', r)"
  shows "swept hash s'" "sint (last_sweep s') \<le> sint now"
    and "r \<noteq> Ok () \<Longrightarrow> last_sweep s' = now \<and> \<not> outstanding s' < capacity s' \<and>
      r = Err (AtCapacity (capacity s) (retry_after s' now))"
proof -
  obtain s1 ok where t1: "try_reserve s = (s1, ok)" by (cases "try_reserve s")
  note t1s = try_reserve_simps [OF t1]
  let ?s2 = "s1\<lparr>last_sweep := i64_max (last_sweep s1) now, full_sweeps := full_sweeps s1 + 1\<rparr>"
  obtain s3 n where sw: "sweep ?s2 now = (s3, n)" by (cases "sweep ?s2 now")
  obtain s4 ok' where t2: "try_reserve s3 = (s4, ok')" by (cases "try_reserve s3")
  note t2s = try_reserve_simps [OF t2]
  have wf: "shards_wf hash ?s2"
    using assms(1) shards_try_reserve [OF t1] shards_cong(1) [of ?s2 s] by simp
  have last: "last_sweep s3 = i64_max (last_sweep s1) now" "capacity s3 = capacity s"
    using sweep_last_sweep [of ?s2 now] capacity_sweep [of ?s2 now] sw t1s by simp_all
  consider (first) "ok" "s' = s1" "r = Ok ()"
    | (again) "\<not> ok" "\<not> sint (last_sweep s1) < sint now"
        "s' = s1\<lparr>last_sweep := i64_max (last_sweep s1) now\<rparr>"
        "r = Err (AtCapacity (capacity s1) (retry_after s' now))"
    | (swept) "\<not> ok" "sint (last_sweep s1) < sint now" "s' = s4"
        "r = (if ok' then Ok () else Err (AtCapacity (capacity s4) (retry_after s4 now)))"
    using assms(4) t1 sw t2 by (auto simp: reserve_def Let_def split: if_splits)
  then have "swept hash s' \<and> sint (last_sweep s') \<le> sint now \<and> (r \<noteq> Ok () \<longrightarrow> last_sweep s' = now \<and>
      \<not> outstanding s' < capacity s' \<and> r = Err (AtCapacity (capacity s) (retry_after s' now)))"
  proof cases
    case first
    then show ?thesis using assms(2,3) t1s by (simp add: swept_def)
  next
    case again
    then have now: "last_sweep s = now" using assms(3) t1s by (intro i64_sint_eqI) simp
    have l: "lookup hash s' = lookup hash s"
      using lookup_cong [of s' s1 hash] again t1s by simp
    show ?thesis using again now l t1s assms(2) by (simp add: swept_def i64_max_def)
  next
    case swept
    have "last_sweep s4 = now" using swept last t2s t1s by (simp add: i64_max_def)
    moreover have "swept hash s4"
      using calculation lookup_sweep [OF wf sw] t2s
      by (auto simp: swept_def expired_at_def is_in_the_past_def split: option.splits if_splits)
    ultimately show ?thesis using swept t2s last by auto
  qed
  then show "swept hash s'" "sint (last_sweep s') \<le> sint now"
    "r \<noteq> Ok () \<Longrightarrow> last_sweep s' = now \<and> \<not> outstanding s' < capacity s' \<and>
      r = Err (AtCapacity (capacity s) (retry_after s' now))" by blast+
qed

lemma issue_sync_swept:
  assumes "store_inv hash s 0" "swept hash s" "sint (last_sweep s) \<le> sint (in_issued_at rec)"
    and "sint (in_issued_at rec) \<le> sint (in_expires_at rec)" "issue_sync hash s rec = (s', r)"
  shows "swept hash s'" "sint (last_sweep s') \<le> sint (in_issued_at rec)"
    and "r = Err (AtCapacity c ra) \<Longrightarrow> c = capacity s \<and> live_records s' = unat c \<and>
      (\<forall>n e. lookup hash s' n = Some e \<longrightarrow> \<not> expired_at (in_issued_at rec) e)"
proof -
  let ?n = "in_nonce rec" and ?now = "in_issued_at rec"
  obtain s1 f where pu: "purge_shard hash s ?n ?now = (s1, f)" by (cases "purge_shard hash s ?n ?now")
  let ?s2 = "release s1 f"
  obtain s3 r1 where re: "reserve ?s2 ?now = (s3, r1)" by (cases "reserve ?s2 ?now")
  have inv2: "store_inv hash ?s2 0" by (rule store_inv_qrun [OF purge_shard_qrun [OF pu] assms(1)])
  then have wf2: "shards_wf hash ?s2" by (simp add: store_inv_def)
  have s1: "last_sweep s1 = last_sweep s" "capacity s1 = capacity s"
    using pu by (auto simp: purge_shard_def Let_def split: prod.splits)
  have "swept hash s1"
    using swept_drops [OF assms(2) purge_shard_lookup(1) [OF _ pu]] assms(1) s1 by (simp add: store_inv_def)
  then have sw2: "swept hash ?s2" by (simp add: swept_def)
  have l2: "sint (last_sweep ?s2) \<le> sint ?now" using assms(3) s1 by simp
  note rs = reserve_swept [OF wf2 sw2 l2 re]
  have inv3: "store_inv hash s3 (if is_ok r1 then 1 else 0)"
    using store_inv_qrun [OF reserve_qrun [OF re] inv2] by (simp split: if_splits)
  then have ne: "shards s3 \<noteq> []" by (simp add: store_inv_def shards_wf_def)
  have res: "(s', r) = (case r1 of Inl e \<Rightarrow> (s3, Inl e) | Inr _ \<Rightarrow> insert_record hash s3 rec)"
    using assms(5) pu re by (simp add: issue_sync_def)
  have "swept hash s' \<and> sint (last_sweep s') \<le> sint ?now"
  proof (cases "insert_locked hash s3 rec")
    case None
    then show ?thesis using res rs by (auto simp: insert_record_def swept_def split: sum.splits)
  next
    case (Some s4)
    note lu = lookup_insert_locked [OF ne Some]
    have l4: "last_sweep s4 = last_sweep s3" using insert_lockedD(2) [OF Some] by simp
    have "swept hash s4" using rs(1,2) assms(4) lu(2) l4 by (auto simp: swept_def entry_of_def)
    moreover have "lookup hash (s4\<lparr>next_expiry := x\<rparr>) = lookup hash s4" for x by (rule lookup_cong) simp
    ultimately show ?thesis
      using res rs Some l4 by (auto simp: insert_record_def swept_def split: sum.splits)
  qed
  then show "swept hash s'" "sint (last_sweep s') \<le> sint ?now" by blast+
  show "c = capacity s \<and> live_records s' = unat c \<and>
      (\<forall>n e. lookup hash s' n = Some e \<longrightarrow> \<not> expired_at ?now e)" if r: "r = Err (AtCapacity c ra)"
  proof -
    have r1: "r1 = Err (AtCapacity c ra)" "s' = s3"
      using r res by (auto simp: insert_record_def split: sum.splits option.splits)
    have cap: "capacity s3 = capacity ?s2"
      using reserve_qrun [OF re] nrun_capacity by (fastforce simp: qrun_def)
    have full: "last_sweep s3 = ?now" "\<not> outstanding s3 < capacity s3" "c = capacity s"
      using rs(3) r1 s1 by simp_all
    have "unat (outstanding s3) = live_records s3" "outstanding s3 \<le> capacity s3"
      using inv3 r1 by (simp_all add: store_inv_def slots_ok_def)
    then have "live_records s3 = unat (capacity s3)"
      using full(2) by (metis order_le_less)
    then show ?thesis
      using full rs(1) r1 cap s1 by (simp add: swept_def expired_at_def is_in_the_past_def not_less)
  qed
qed

subsection \<open>Properties\<close>

text \<open>A concrete run for the witnesses: reserve a slot, insert a nonce, consume it.\<close>

definition demo_rec :: issued_nonce where
  "demo_rec = \<lparr>in_nonce = [7], in_verifier = Aid ''v'', in_source = ''t'', in_issued_at = 10, in_expires_at = 70\<rparr>"

definition demo_hash :: "nonce \<Rightarrow> u64" where
  "demo_hash n = of_nat (length n)"

definition demo_store :: nonce_store where
  "demo_store = fst (issue_sync demo_hash (with_shards 1 1) demo_rec)"

lemma demo_issue: "issue_sync demo_hash (with_shards 1 1) demo_rec = (demo_store, Ok ())"
  unfolding demo_store_def by code_simp

lemma demo_inv: "store_inv demo_hash demo_store 0"
  using store_inv_issue_sync [OF store_inv_with_shards demo_issue] .

lemma demo_consume:
  "consume_sync demo_hash demo_store [7] (Aid ''v'') 20 =
     (fst (consume_sync demo_hash demo_store [7] (Aid ''v'') 20), Consumed)"
  by code_simp

lemma demo_run:
  "\<exists>evs c. nrun demo_hash (with_shards 1 1, 0) evs c \<and> evs \<noteq> []"
proof -
  obtain c1 c2 where "qrun demo_hash (with_shards 1 1, 0) c1" "nstep demo_hash c1 (Issued (in_nonce demo_rec)) c2"
    using issue_sync_run(1) [OF demo_issue] by blast
  then show ?thesis unfolding qrun_def by (blast intro: nrun_snoc)
qed



text \<open>
  C3: however the calls of concurrent threads interleave, a nonce is reported as
  consumed at most as often as it was issued: one issue, one \<open>Consumed\<close>.
\<close>

theorem nonce_single_use_interleaved:
  assumes "nrun hash (with_shards cap k, 0) evs c"
  shows "count_list evs (WasConsumed n) \<le> count_list evs (Issued n)"
  using nrun_lookup_count [OF assms, of n] store_inv_with_shards by (simp split: if_splits)

theorem nonce_single_use_interleaved_witness:
  "\<exists>evs c. nrun demo_hash (with_shards 1 1, 0) evs c \<and> evs \<noteq> [] \<and>
     count_list evs (WasConsumed [7]) \<le> count_list evs (Issued [7])"
  using demo_run nonce_single_use_interleaved by blast

text \<open>
  C17: an issued nonce stays consumable by its verifier until it expires: no sequence of
  other calls, whatever their number, evicts it. In particular a flood of challenges
  does not.
\<close>

theorem nonce_survives_flood:
  assumes "store_inv hash s 0" "issue_sync hash s rec = (s', Ok ())"
    and "\<forall>c\<in>set cs. sint (call_time c) \<le> sint (in_expires_at rec)"
    and "\<forall>now. CallConsume (in_nonce rec) (in_verifier rec) now \<notin> set cs"
    and "sint now \<le> sint (in_expires_at rec)"
  shows "snd (consume_sync hash (run_calls (issue_sync hash) (consume_sync hash) s' cs)
    (in_nonce rec) (in_verifier rec) now) = Consumed"
  by (rule mem.issued_survives [OF assms])

theorem nonce_survives_flood_witness:
  "snd (consume_sync demo_hash
     (run_calls (issue_sync demo_hash) (consume_sync demo_hash) demo_store
        [CallIssue (demo_rec\<lparr>in_nonce := [8]\<rparr>), CallConsume [7] (Aid ''w'') 30])
     [7] (Aid ''v'') 70) = Consumed"
  using nonce_survives_flood [OF store_inv_with_shards demo_issue,
      of "[CallIssue (demo_rec\<lparr>in_nonce := [8]\<rparr>), CallConsume [7] (Aid ''w'') 30]" 70]
  by (simp add: demo_rec_def)

text \<open>
  Once a nonce was consumed, every later attempt to consume it, by any verifier and at
  any time, is refused as unknown, unless the same nonce is issued again.
\<close>

lemma nonce_replay_refused:
  assumes "store_inv hash s 0" "consume_sync hash s n v now = (s', Consumed)"
    and "\<forall>rec. CallIssue rec \<in> set cs \<longrightarrow> in_nonce rec \<noteq> n"
  shows "snd (consume_sync hash (run_calls (issue_sync hash) (consume_sync hash) s' cs) n v' now') = Unknown"
  by (rule mem.consumed_once [OF assms])

text \<open>
  With a clock that does not run backwards, a challenge is refused for capacity only
  when the store really is full of nonces that have not expired.
\<close>

lemma nonce_at_capacity_only_live:
  assumes "store_inv hash s 0" "swept hash s" "sint (last_sweep s) \<le> sint (in_issued_at rec)"
    and "sint (in_issued_at rec) \<le> sint (in_expires_at rec)"
    and "issue_sync hash s rec = (s', Err (AtCapacity c ra))"
  shows "c = capacity s \<and> live_records s' = unat c \<and>
    (\<forall>n e. lookup hash s' n = Some e \<longrightarrow> \<not> expired_at (in_issued_at rec) e)"
  using issue_sync_swept(3) [OF assms refl] .

end
