(* ===== verification/Admission.thy ===== *)
theory Admission
  imports Handshake_Payloads Handshake_Live Net_Addr Admission_Deny_List Core_Nonce_Contract
begin

text \<open>
  Pinned-key admission (\<open>handshake/admission/mod.rs\<close>): a verifier hands out single-use
  challenges and admits a subject that answers one with a signed \<open>identity_presentation\<close>
  envelope; \<open>present_pinned\<close> is the subject's side.

  The nonce store, the two rate limiters and the \<open>message_id\<close> deny list are trait objects in
  the code. Here they are the operations of the \<open>admission\<close> record over states of any type; a
  limiter reads its own clock, so its state determines its answer. The state passes through the
  calls in the order the code makes them. Error texts are left out, and a panic is a value.

  Shown here: what \<open>admit\<close> accepts, exactly; that only a presentation that verified under a
  pinned key can use up a challenge or be recorded; that with the in-memory store a challenge
  admits once; and that an honest subject is admitted.
\<close>

definition MAX_NONCE_TTL :: duration where "MAX_NONCE_TTL = from_secs 300"

definition IDENTITY_PRESENTATION_PAYLOAD_MEMBERS :: "string list" where
  "IDENTITY_PRESENTATION_PAYLOAD_MEMBERS = [''identity'', ''pop_nonce'']"

record admission_challenge =
  ch_pop_nonce :: string
  ch_verifier_aid :: aid
  ch_expires_at :: timestamp

record identity_presentation_payload =
  pp_identity :: identity_descriptor
  pp_pop_nonce :: string

record admitted =
  ad_key :: verified_pinned_key
  ad_subject :: string
  ad_message_id :: uuid

datatype refusal_cause = RefusedAtCapacity

datatype admission_error =
    AdInvalidEnvelope
  | AdUnknownField string
  | AdUnknownVersion
  | AdReplay
  | AdRateLimited duration
  | AdTimestampExpired
  | AdIdentity
  | AdInvalidSignature
  | AdChallengeRefused "duration option" refusal_cause
  | AdStore nonce_store_error
  | AdDenyList deny_list_error
  | AdSigner signer_error
  | AdRng
  | AdPanic

fun admission_code :: "admission_error \<Rightarrow> string option" where
  "admission_code AdReplay = Some ''REPLAY_DETECTED''"
| "admission_code AdInvalidEnvelope = Some ''INVALID_ENVELOPE''"
| "admission_code (AdUnknownField _) = Some ''UNKNOWN_FIELD''"
| "admission_code AdUnknownVersion = Some ''UNKNOWN_VERSION''"
| "admission_code AdTimestampExpired = Some ''TIMESTAMP_EXPIRED''"
| "admission_code AdIdentity = Some ''IDENTITY_FAILED''"
| "admission_code AdInvalidSignature = Some ''INVALID_SIGNATURE''"
| "admission_code (AdChallengeRefused _ _) = Some ''CHALLENGE_REFUSED''"
| "admission_code _ = None"

fun http_status :: "admission_error \<Rightarrow> nat option" where
  "http_status (AdRateLimited _) = Some 429"
| "http_status (AdChallengeRefused _ _) = Some 503"
| "http_status _ = None"

fun error_retry_after :: "admission_error \<Rightarrow> duration option" where
  "error_retry_after (AdRateLimited d) = Some d"
| "error_retry_after (AdChallengeRefused d _) = Some (case d of Some d \<Rightarrow> d | None \<Rightarrow> MAX_NONCE_TTL)"
| "error_retry_after _ = None"

definition http_body :: "admission_error \<Rightarrow> string option" where
  "http_body e = (case e of AdChallengeRefused _ _ \<Rightarrow> Some ''{\"error\":\"CHALLENGE_REFUSED\"}'' | _ \<Rightarrow> None)"

subsection \<open>The verifier\<close>

type_synonym 'l limiter = "'l \<Rightarrow> challenge_source \<Rightarrow> 'l \<times> (duration, unit) result"

record ('n, 'l, 'd) admission =
  pa_verifier_aid :: aid
  pa_issue :: "'n \<Rightarrow> issued_nonce \<Rightarrow> 'n \<times> (nonce_store_error, unit) result"
  pa_consume :: "'n \<Rightarrow> nonce \<Rightarrow> aid \<Rightarrow> timestamp \<Rightarrow> 'n \<times> (nonce_store_error, consume_outcome) result"
  pa_pinned_keys :: pinned_key_store
  pa_limiter :: "'l limiter"
  pa_presentation_limiter :: "'l limiter"
  pa_contains :: "'d \<Rightarrow> uuid \<Rightarrow> timestamp \<Rightarrow> 'd \<times> (deny_list_error, bool) result"
  pa_insert :: "'d \<Rightarrow> uuid \<Rightarrow> timestamp \<Rightarrow> timestamp \<Rightarrow> 'd \<times> (deny_list_error, bool) result"
  pa_ttl :: duration
  pa_tolerance :: duration
  pa_subject :: subject_binding

record ('n, 'l, 'd) admission_state =
  st_nonces :: 'n
  st_limiter :: 'l
  st_presentations :: 'l
  st_deny :: 'd

text \<open>The setters of the builder; durations compare by seconds, then nanoseconds.\<close>

definition duration_less :: "duration \<Rightarrow> duration \<Rightarrow> bool" where
  "duration_less a b \<longleftrightarrow> as_secs a < as_secs b \<or> as_secs a = as_secs b \<and> subsec_nanos a < subsec_nanos b"

definition set_nonce_ttl :: "('n, 'l, 'd) admission \<Rightarrow> duration \<Rightarrow> ('n, 'l, 'd) admission" where
  "set_nonce_ttl a ttl =
     a\<lparr>pa_ttl := if duration_less ttl (from_secs 1) then from_secs 1
                 else if duration_less MAX_NONCE_TTL ttl then MAX_NONCE_TTL else ttl\<rparr>"

definition set_timestamp_tolerance :: "('n, 'l, 'd) admission \<Rightarrow> duration \<Rightarrow> ('n, 'l, 'd) admission" where
  "set_timestamp_tolerance a tolerance =
     a\<lparr>pa_tolerance := if duration_less DEFAULT_TIMESTAMP_TOLERANCE tolerance then DEFAULT_TIMESTAMP_TOLERANCE else tolerance\<rparr>"

definition set_subject_binding :: "('n, 'l, 'd) admission \<Rightarrow> subject_binding \<Rightarrow> ('n, 'l, 'd) admission" where
  "set_subject_binding a binding = a\<lparr>pa_subject := binding\<rparr>"

subsection \<open>Challenges\<close>

text \<open>
  The loop of \<open>issue_challenge\<close> over its attempts. An attempt is what the operating system's
  random number generator returns for it.
\<close>

fun issue_attempts ::
  "externals \<Rightarrow> ('n, 'l, 'd) admission \<Rightarrow> 'n \<Rightarrow> string \<Rightarrow> timestamp \<Rightarrow> timestamp \<Rightarrow> nonce option list \<Rightarrow>
   'n \<times> (admission_error, admission_challenge) result" where
  "issue_attempts E a s source now expires_at [] = (s, Err AdRng)"
| "issue_attempts E a s source now expires_at (None # draws) = (s, Err AdRng)"
| "issue_attempts E a s source now expires_at (Some nonce # draws) =
     (let rec = \<lparr>in_nonce = nonce, in_verifier = pa_verifier_aid a, in_source = source, in_issued_at = now, in_expires_at = expires_at\<rparr>;
          (s', r) = pa_issue a s rec
      in case r of
           Inr _ \<Rightarrow> (s', Ok \<lparr>ch_pop_nonce = encode E nonce, ch_verifier_aid = pa_verifier_aid a, ch_expires_at = expires_at\<rparr>)
         | Inl Duplicate \<Rightarrow> issue_attempts E a s' source now expires_at draws
         | Inl (AtCapacity c retry) \<Rightarrow> (s', Err (AdChallengeRefused retry RefusedAtCapacity))
         | Inl e \<Rightarrow> (s', Err (AdStore e)))"

definition challenge_at ::
  "externals \<Rightarrow> (string \<Rightarrow> string) \<Rightarrow> ('n, 'l, 'd) admission \<Rightarrow> ('n, 'l, 'd) admission_state \<Rightarrow> challenge_source \<Rightarrow> timestamp \<Rightarrow>
   (nat \<Rightarrow> nonce option) \<Rightarrow> ('n, 'l, 'd) admission_state \<times> (admission_error, admission_challenge) result" where
  "challenge_at E dbg a st source now rng =
     (let (l, r) = pa_limiter a (st_limiter st) source; st1 = st\<lparr>st_limiter := l\<rparr> in
      case r of
        Inl d \<Rightarrow> (st1, Err (AdRateLimited d))
      | Inr _ \<Rightarrow>
          let (s, res) = issue_attempts E a (st_nonces st1) (source_str dbg source) now (saturating_add now (pa_ttl a))
                           [rng 0, rng 1]
          in (st1\<lparr>st_nonces := s\<rparr>, res))"

subsection \<open>Presentations\<close>

definition de_presentation :: "json \<Rightarrow> (serde_error, identity_presentation_payload) result" where
  "de_presentation j =
     and_then (de_struct [(''identity'', Required, de_void de_descriptor), (''pop_nonce'', Required, de_void de_string)] j) (\<lambda>ms.
     and_then (de_field ms ''identity'' de_descriptor) (\<lambda>identity.
     and_then (de_field ms ''pop_nonce'' de_string) (\<lambda>pop_nonce.
     Ok \<lparr>pp_identity = identity, pp_pop_nonce = pop_nonce\<rparr>)))"

definition ser_presentation :: "identity_presentation_payload \<Rightarrow> json" where
  "ser_presentation p = JObj [(''identity'', ser_descriptor (pp_identity p)), (''pop_nonce'', JStr (pp_pop_nonce p))]"

definition presentation_error :: "serde_error \<Rightarrow> admission_error" where
  "presentation_error e = (case from_serde_error e of Some f \<Rightarrow> AdUnknownField f | None \<Rightarrow> AdInvalidEnvelope)"

text \<open>Check order steps 1 to 3.\<close>

definition gate ::
  "('n, 'l, 'd) admission \<Rightarrow> ('n, 'l, 'd) admission_state \<Rightarrow> uuid option \<Rightarrow> timestamp option \<Rightarrow> challenge_source \<Rightarrow> timestamp \<Rightarrow>
   ('n, 'l, 'd) admission_state \<times> (admission_error, unit) result" where
  "gate a st message_id ts source now =
     (let (st1, replay) =
        (case message_id of
           None \<Rightarrow> (st, Ok False)
         | Some i \<Rightarrow> (let (d, r) = pa_contains a (st_deny st) i now in (st\<lparr>st_deny := d\<rparr>, map_err AdDenyList r)))
      in case replay of
           Inl e \<Rightarrow> (st1, Err e)
         | Inr True \<Rightarrow> (st1, Err AdReplay)
         | Inr False \<Rightarrow>
             let (l, r) = pa_presentation_limiter a (st_presentations st1) source; st2 = st1\<lparr>st_presentations := l\<rparr> in
             (case r of
                Inl d \<Rightarrow> (st2, Err (AdRateLimited d))
              | Inr _ \<Rightarrow>
                  (case ts of
                     Some t \<Rightarrow> (st2, ensure AdTimestampExpired (is_within_tolerance_of t now (pa_tolerance a)))
                   | None \<Rightarrow> (st2, Ok ()))))"

definition presentation_ctx :: "('n, 'l, 'd) admission \<Rightarrow> aitp_envelope \<Rightarrow> identity_presentation_payload \<Rightarrow> pinned_key_verify_context" where
  "presentation_ctx a env payload =
     \<lparr>pk_sender_aid = agent_id (ev_sender env), pk_receiver_aid = pa_verifier_aid a, pk_message_id = ev_message_id env,
      pk_timestamp = ev_timestamp env, pk_pop_nonce = pp_pop_nonce payload, pk_subject = pa_subject a\<rparr>"

text \<open>Check order steps 4 to 8: everything about a presentation that reads no state.\<close>

definition check_presentation ::
  "externals \<Rightarrow> ('n, 'l, 'd) admission \<Rightarrow> aitp_envelope \<Rightarrow>
   (admission_error, identity_presentation_payload \<times> nonce \<times> verified_pinned_key) result" where
  "check_presentation E a env =
     and_then (ensure AdUnknownVersion (ev_version env = PROTOCOL_VERSION)) (\<lambda>_.
     and_then (ensure AdInvalidEnvelope (ev_message_type env = IdentityPresentation)) (\<lambda>_.
     and_then (ensure AdInvalidEnvelope (is_v4 E (ev_message_id env))) (\<lambda>_.
     and_then (map_err (\<lambda>e. AdUnknownField (uf_field e))
                 (check_members ''IdentityPresentationPayload'' (ev_payload env) IDENTITY_PRESENTATION_PAYLOAD_MEMBERS)) (\<lambda>_.
     and_then (map_err presentation_error (de_presentation (ev_payload env))) (\<lambda>payload.
     and_then (map_err (\<lambda>_. AdIdentity) (decode_strict_exact E NONCE_LEN (pp_pop_nonce payload))) (\<lambda>nonce.
     let ctx = presentation_ctx a env payload in
     and_then (map_err (\<lambda>_. AdIdentity) (resolve_pinned_key E (pp_identity payload) ctx (pa_pinned_keys a))) (\<lambda>key.
     and_then (ok_or AdInvalidEnvelope (envelope_signing_digest E env)) (\<lambda>digest.
     and_then (map_err (\<lambda>_. AdInvalidSignature) (signature_parse (ev_signature env))) (\<lambda>sig.
     and_then (map_err (\<lambda>_. AdInvalidSignature) (verify_jcs E (vp_key key) digest sig)) (\<lambda>_.
     and_then (map_err (\<lambda>_. AdIdentity) (check_pinned_key_proof E (pp_identity payload) ctx key)) (\<lambda>_.
     Ok (payload, nonce, key))))))))))))"

text \<open>\<open>verify\<close>: those checks, then the challenge is used up, then the identifier is recorded.\<close>

definition admission_verify ::
  "externals \<Rightarrow> ('n, 'l, 'd) admission \<Rightarrow> ('n, 'l, 'd) admission_state \<Rightarrow> aitp_envelope \<Rightarrow> timestamp \<Rightarrow>
   ('n, 'l, 'd) admission_state \<times> (admission_error, admitted) result" where
  "admission_verify E a st env now =
     (case check_presentation E a env of
        Inl e \<Rightarrow> (st, Err e)
      | Inr (payload, nonce, key) \<Rightarrow>
          let (s, r) = pa_consume a (st_nonces st) nonce (pa_verifier_aid a) now; st1 = st\<lparr>st_nonces := s\<rparr> in
          (case r of
             Inl e \<Rightarrow> (st1, Err (AdStore e))
           | Inr Expired \<Rightarrow> (st1, Err AdIdentity)
           | Inr Unknown \<Rightarrow> (st1, Err AdIdentity)
           | Inr Consumed \<Rightarrow>
               let (d, r) = pa_insert a (st_deny st1) (ev_message_id env) (saturating_add (ev_timestamp env) (pa_tolerance a)) now;
                   st2 = st1\<lparr>st_deny := d\<rparr> in
               (case r of
                  Inl e \<Rightarrow> (st2, Err (AdDenyList e))
                | Inr False \<Rightarrow> (st2, Err AdReplay)
                | Inr True \<Rightarrow>
                    (st2, Ok \<lparr>ad_key = key, ad_subject = id_subject (pp_identity payload), ad_message_id = ev_message_id env\<rparr>))))"

definition admit_at ::
  "externals \<Rightarrow> ('n, 'l, 'd) admission \<Rightarrow> ('n, 'l, 'd) admission_state \<Rightarrow> aitp_envelope \<Rightarrow> challenge_source \<Rightarrow> timestamp \<Rightarrow>
   ('n, 'l, 'd) admission_state \<times> (admission_error, admitted) result" where
  "admit_at E a st env source now =
     (let (st1, r) = gate a st (Some (ev_message_id env)) (Some (ev_timestamp env)) source now in
      case r of Inl e \<Rightarrow> (st1, Err e) | Inr _ \<Rightarrow> admission_verify E a st1 env now)"

definition admit_wire_at ::
  "externals \<Rightarrow> ('n, 'l, 'd) admission \<Rightarrow> ('n, 'l, 'd) admission_state \<Rightarrow> checked_json \<Rightarrow> challenge_source \<Rightarrow> timestamp \<Rightarrow>
   ('n, 'l, 'd) admission_state \<times> (admission_error, admitted) result" where
  "admit_wire_at E a st envelope source now =
     (let value = as_value envelope;
          message_id = Option.bind (Option.bind (json_get ''message_id'' value) json_as_str) (uuid_parse_str E);
          ts = Option.bind (json_get ''timestamp'' value) json_as_i64;
          (st1, r) = gate a st message_id ts source now in
      case r of
        Inl e \<Rightarrow> (st1, Err e)
      | Inr _ \<Rightarrow>
          (case parse_envelope_wire E envelope of
             Inl e \<Rightarrow> (st1, Err (case e of UnknownVersion \<Rightarrow> AdUnknownVersion | EnvelopeUnknownField f \<Rightarrow> AdUnknownField f
                                         | _ \<Rightarrow> AdInvalidEnvelope))
           | Inr env \<Rightarrow> admission_verify E a st1 env now))"

subsection \<open>The subject\<close>

text \<open>\<open>Draft::new\<close> computes what the proof signs, \<open>unsigned_envelope\<close> what the envelope signature covers.\<close>

definition presentation_proof_digest :: "externals \<Rightarrow> aid \<Rightarrow> admission_challenge \<Rightarrow> timestamp \<Rightarrow> uuid \<Rightarrow> (admission_error, bytes) result" where
  "presentation_proof_digest E sender ch now message_id =
     and_then (map_err (\<lambda>_. AdIdentity) (pinned_key_proof_input E sender (ch_verifier_aid ch) message_id now (ch_pop_nonce ch)))
       (\<lambda>input. Ok (sha256 E input))"

definition unsigned_presentation ::
  "externals \<Rightarrow> aid \<Rightarrow> string \<Rightarrow> string \<Rightarrow> timestamp \<Rightarrow> uuid \<Rightarrow> signature \<Rightarrow> (admission_error, bytes \<times> aitp_envelope) result" where
  "unsigned_presentation E sender subject pop_nonce now message_id proof =
     and_then (map_err (\<lambda>_. AdPanic) (pubkey_compressed_bytes E sender)) (\<lambda>pk.
     let payload = ser_presentation
           \<lparr>pp_identity = descriptor_pinned_key subject (encode E pk) (sig_as_str proof), pp_pop_nonce = pop_nonce\<rparr>;
         envelope = envelope_unsigned sender IdentityPresentation payload message_id now in
     and_then (ok_or AdInvalidEnvelope (envelope_signing_digest E envelope)) (\<lambda>digest. Ok (digest, envelope)))"

definition present_pinned ::
  "externals \<Rightarrow> signer \<Rightarrow> string \<Rightarrow> admission_challenge \<Rightarrow> timestamp \<Rightarrow> uuid \<Rightarrow> (admission_error, aitp_envelope) result" where
  "present_pinned E sg subject ch now message_id =
     and_then (presentation_proof_digest E (sg_aid sg) ch now message_id) (\<lambda>proof_digest.
     and_then (map_err AdSigner (signer_sign_jcs E sg proof_digest)) (\<lambda>proof.
     and_then (unsigned_presentation E (sg_aid sg) subject (ch_pop_nonce ch) now message_id proof) (\<lambda>(digest, envelope).
     and_then (map_err AdSigner (signer_sign_jcs E sg digest)) (\<lambda>sig.
     Ok (envelope\<lparr>ev_signature := sig_as_str sig\<rparr>)))))"

lemmas present_pinned_defs = present_pinned_def presentation_proof_digest_def unsigned_presentation_def

subsection \<open>What a presentation shows\<close>

definition presented ::
  "externals \<Rightarrow> ('n, 'l, 'd) admission \<Rightarrow> aitp_envelope \<Rightarrow> identity_presentation_payload \<Rightarrow> nonce \<Rightarrow> verified_pinned_key \<Rightarrow> bool" where
  "presented E a env payload nonce key \<longleftrightarrow>
     ev_version env = PROTOCOL_VERSION \<and> ev_message_type env = IdentityPresentation \<and> is_v4 E (ev_message_id env) \<and>
     de_presentation (ev_payload env) = Ok payload \<and> decode_strict E (pp_pop_nonce payload) = Ok nonce \<and> length nonce = 16 \<and>
     verify_pinned_key E (pp_identity payload) (presentation_ctx a env payload) (pa_pinned_keys a) = Ok key \<and>
     verify_envelope_signature E env (vp_key key) = Ok ()"

lemma de_presentation_members:
  "de_presentation j = Ok p \<Longrightarrow> check_members obj j IDENTITY_PRESENTATION_PAYLOAD_MEMBERS = Ok ()"
proof (cases j)
  case (JObj ms)
  moreover assume "de_presentation j = Ok p"
  ultimately have "de_map [(''identity'', Required, de_void de_descriptor), (''pop_nonce'', Required, de_void de_string)] [] ms = Ok ()"
    by (auto simp: de_presentation_def de_struct_def)
  from check_members_de_map [OF this, of IDENTITY_PRESENTATION_PAYLOAD_MEMBERS obj] show ?thesis
    by (simp add: JObj IDENTITY_PRESENTATION_PAYLOAD_MEMBERS_def)
qed (simp_all add: check_members_def)

lemma decode_strict_exact_Ok: "decode_strict_exact E n s = Ok bs \<longleftrightarrow> decode_strict E s = Ok bs \<and> length bs = n"
  by (auto simp: decode_strict_exact_def split: if_splits)

lemma check_presentation_Ok:
  "check_presentation E a env = Ok (payload, nonce, key) \<longleftrightarrow> presented E a env payload nonce key"
  unfolding check_presentation_def presented_def verify_pinned_key_def verify_envelope_signature_def Let_def
  by (auto simp: decode_strict_exact_Ok NONCE_LEN_def dest: de_presentation_members)

lemma presented_fun:
  "presented E a env p n k \<Longrightarrow> presented E a env p' n' k' \<Longrightarrow> p = p' \<and> n = n' \<and> k = k'"
  unfolding check_presentation_Ok [symmetric] by simp

lemma admission_verify_Ok:
  "snd (admission_verify E a st env now) = Ok r \<longleftrightarrow>
     (\<exists>payload nonce key s d. presented E a env payload nonce key \<and>
        pa_consume a (st_nonces st) nonce (pa_verifier_aid a) now = (s, Ok Consumed) \<and>
        pa_insert a (st_deny st) (ev_message_id env) (saturating_add (ev_timestamp env) (pa_tolerance a)) now = (d, Ok True) \<and>
        r = \<lparr>ad_key = key, ad_subject = id_subject (pp_identity payload), ad_message_id = ev_message_id env\<rparr>)"
  by (cases "check_presentation E a env")
    (auto simp: admission_verify_def check_presentation_Ok Let_def split: prod.splits sum.splits bool.splits consume_outcome.splits
      simp flip: check_presentation_Ok)

lemma gate_Ok:
  "gate a st (Some i) (Some t) source now = (st', Ok ()) \<longleftrightarrow>
     (\<exists>d l. pa_contains a (st_deny st) i now = (d, Ok False) \<and>
        pa_presentation_limiter a (st_presentations st) source = (l, Ok ()) \<and>
        is_within_tolerance_of t now (pa_tolerance a) \<and> st' = st\<lparr>st_deny := d, st_presentations := l\<rparr>)"
  by (auto simp: gate_def Let_def split: prod.splits sum.splits bool.splits)

lemma gate_nonces [simp]: "st_nonces (fst (gate a st i t source now)) = st_nonces st"
  by (auto simp: gate_def Let_def split: prod.splits sum.splits bool.splits option.splits)

lemma admission_verify_nonces:
  "st_nonces (fst (admission_verify E a st env now)) =
     (case check_presentation E a env of
        Inl _ \<Rightarrow> st_nonces st
      | Inr (_, nonce, _) \<Rightarrow> fst (pa_consume a (st_nonces st) nonce (pa_verifier_aid a) now))"
  by (auto simp: admission_verify_def Let_def split: prod.splits sum.splits bool.splits consume_outcome.splits)

subsection \<open>Properties\<close>

text \<open>
  C7: \<open>admit\<close> accepts an envelope exactly when its identifier is not on the deny list, the
  source is within its limit, the timestamp within the tolerance over the integers, the
  envelope is an \<open>identity_presentation\<close> whose descriptor carries the sender's own pinned key
  and a proof over this sender, verifier, message, time and nonce, both signatures verify
  under that key, the nonce is an outstanding challenge of this verifier, and the identifier
  could be recorded. It returns that key and the presented subject.
\<close>

theorem admit_accepts_exactly:
  assumes "wf_aid E (agent_id (ev_sender env))" "as_secs (pa_tolerance a) \<le> 300"
  shows "snd (admit_at E a st env source now) = Ok r \<longleftrightarrow>
    (\<exists>d l d' s payload nonce key.
       pa_contains a (st_deny st) (ev_message_id env) now = (d, Ok False) \<and>
       pa_presentation_limiter a (st_presentations st) source = (l, Ok ()) \<and>
       \<bar>sint (ev_timestamp env) - sint now\<bar> \<le> uint (as_secs (pa_tolerance a)) \<and>
       ev_version env = PROTOCOL_VERSION \<and> ev_message_type env = IdentityPresentation \<and> is_v4 E (ev_message_id env) \<and>
       de_presentation (ev_payload env) = Ok payload \<and> decode_strict E (pp_pop_nonce payload) = Ok nonce \<and> length nonce = 16 \<and>
       id_kind (pp_identity payload) = PinnedKey \<and> id_issuer (pp_identity payload) = None \<and>
       (pa_subject a = SenderAid \<longrightarrow> id_subject (pp_identity payload) = aid_as_str (agent_id (ev_sender env))) \<and>
       carries_aid_key E (pp_identity payload) (agent_id (ev_sender env)) \<and>
       vk_from_aid E (agent_id (ev_sender env)) = Ok key \<and> pa_pinned_keys a key \<and>
       proof_holds E (pp_identity payload) (presentation_ctx a env payload) key \<and>
       verify_envelope_signature E env key = Ok () \<and>
       pa_consume a (st_nonces st) nonce (pa_verifier_aid a) now = (s, Ok Consumed) \<and>
       pa_insert a d (ev_message_id env) (saturating_add (ev_timestamp env) (pa_tolerance a)) now = (d', Ok True) \<and>
       r = \<lparr>ad_key = \<lparr>vp_algorithm = aid_algorithm (agent_id (ev_sender env)), vp_key = key, vp_aid = agent_id (ev_sender env)\<rparr>,
            ad_subject = id_subject (pp_identity payload), ad_message_id = ev_message_id env\<rparr>)"
proof -
  have ctx: "pk_sender_aid (presentation_ctx a env p) = agent_id (ev_sender env)" "pk_subject (presentation_ctx a env p) = pa_subject a" for p
    by (simp_all add: presentation_ctx_def)
  have tol: "is_within_tolerance_of (ev_timestamp env) now (pa_tolerance a) \<longleftrightarrow>
      \<bar>sint (ev_timestamp env) - sint now\<bar> \<le> uint (as_secs (pa_tolerance a))"
    unfolding is_within_tolerance_of_iff using assms(2) by (auto simp: word_le_def)
  have pr: "presented E a env payload nonce v \<longleftrightarrow>
      ev_version env = PROTOCOL_VERSION \<and> ev_message_type env = IdentityPresentation \<and> is_v4 E (ev_message_id env) \<and>
      de_presentation (ev_payload env) = Ok payload \<and> decode_strict E (pp_pop_nonce payload) = Ok nonce \<and> length nonce = 16 \<and>
      id_kind (pp_identity payload) = PinnedKey \<and> id_issuer (pp_identity payload) = None \<and>
      (pa_subject a = SenderAid \<longrightarrow> id_subject (pp_identity payload) = aid_as_str (agent_id (ev_sender env))) \<and>
      carries_aid_key E (pp_identity payload) (agent_id (ev_sender env)) \<and>
      (\<exists>key. vk_from_aid E (agent_id (ev_sender env)) = Ok key \<and> pa_pinned_keys a key \<and>
         proof_holds E (pp_identity payload) (presentation_ctx a env payload) key \<and> verify_envelope_signature E env key = Ok () \<and>
         v = \<lparr>vp_algorithm = aid_algorithm (agent_id (ev_sender env)), vp_key = key, vp_aid = agent_id (ev_sender env)\<rparr>)"
    for payload nonce v
    unfolding presented_def using verify_pinned_key_Ok [of E "presentation_ctx a env payload" "pp_identity payload" "pa_pinned_keys a" v] assms(1)
    by (auto simp: ctx)
  have "snd (admit_at E a st env source now) = Ok r \<longleftrightarrow>
      (\<exists>st'. gate a st (Some (ev_message_id env)) (Some (ev_timestamp env)) source now = (st', Ok ()) \<and>
         snd (admission_verify E a st' env now) = Ok r)"
    by (auto simp: admit_at_def split: prod.splits sum.splits)
  also have "\<dots> \<longleftrightarrow> (\<exists>d l d' s payload nonce v. pa_contains a (st_deny st) (ev_message_id env) now = (d, Ok False) \<and>
      pa_presentation_limiter a (st_presentations st) source = (l, Ok ()) \<and>
      is_within_tolerance_of (ev_timestamp env) now (pa_tolerance a) \<and> presented E a env payload nonce v \<and>
      pa_consume a (st_nonces st) nonce (pa_verifier_aid a) now = (s, Ok Consumed) \<and>
      pa_insert a d (ev_message_id env) (saturating_add (ev_timestamp env) (pa_tolerance a)) now = (d', Ok True) \<and>
      r = \<lparr>ad_key = v, ad_subject = id_subject (pp_identity payload), ad_message_id = ev_message_id env\<rparr>)"
    unfolding gate_Ok admission_verify_Ok by auto blast+
  finally show ?thesis unfolding tol pr by blast
qed

text \<open>
  C30: a presentation changes the nonce store only if it verified: it names an outstanding
  nonce, carries the sender's pinned key, and both its signatures verify under that key. So a
  party that merely saw a challenge cannot use it up. This holds for the parsed and for the raw
  entry point.
\<close>

theorem admission_consumes_only_verified:
  "(st_nonces (fst (admit_at E a st env source now)) = st_nonces st \<or>
    (\<exists>payload nonce key. presented E a env payload nonce key \<and>
       st_nonces (fst (admit_at E a st env source now)) = fst (pa_consume a (st_nonces st) nonce (pa_verifier_aid a) now))) \<and>
   (st_nonces (fst (admit_wire_at E a st envelope source now)) = st_nonces st \<or>
    (\<exists>env payload nonce key. parse_envelope_wire E envelope = Ok env \<and> presented E a env payload nonce key \<and>
       st_nonces (fst (admit_wire_at E a st envelope source now)) = fst (pa_consume a (st_nonces st) nonce (pa_verifier_aid a) now)))"
proof -
  have v: "st_nonces (fst (admission_verify E a st' env now)) = st_nonces st' \<or>
      (\<exists>payload nonce key. presented E a env payload nonce key \<and>
         st_nonces (fst (admission_verify E a st' env now)) = fst (pa_consume a (st_nonces st') nonce (pa_verifier_aid a) now))"
    for st' env
  proof (cases "check_presentation E a env")
    case (Inr r)
    then obtain payload nonce key where c: "check_presentation E a env = Ok (payload, nonce, key)" by (cases r) auto
    then have "presented E a env payload nonce key" by (simp only: check_presentation_Ok)
    with c show ?thesis by (auto simp: admission_verify_nonces)
  qed (simp add: admission_verify_nonces)
  have g: "st_nonces st' = st_nonces st" if "gate a st i t source now = (st', r)" for st' i t r
    using gate_nonces [of a st i t source now] that by simp
  show ?thesis
  proof (intro conjI)
    show "st_nonces (fst (admit_at E a st env source now)) = st_nonces st \<or>
      (\<exists>payload nonce key. presented E a env payload nonce key \<and>
         st_nonces (fst (admit_at E a st env source now)) = fst (pa_consume a (st_nonces st) nonce (pa_verifier_aid a) now))"
      using v g unfolding admit_at_def by (auto split: prod.splits sum.splits) metis
    show "st_nonces (fst (admit_wire_at E a st envelope source now)) = st_nonces st \<or>
      (\<exists>env payload nonce key. parse_envelope_wire E envelope = Ok env \<and> presented E a env payload nonce key \<and>
         st_nonces (fst (admit_wire_at E a st envelope source now)) = fst (pa_consume a (st_nonces st) nonce (pa_verifier_aid a) now))"
      using v g unfolding admit_wire_at_def Let_def by (auto split: prod.splits sum.splits) metis
  qed
qed

subsection \<open>Over a nonce store that keeps its contract\<close>

text \<open>The interface between admission and the nonce store is the contract of the latter.\<close>

locale admission_store = nonce_store_contract inv holds issue consume
  for inv :: "'n \<Rightarrow> bool" and holds and issue and consume +
  fixes a :: "('n, 'l, 'd) admission"
  assumes issues: "pa_issue a = issue"
    and consumes: "pa_consume a = (\<lambda>s n v t. map_prod id Ok (consume s n v t))"
begin

lemma admitted_consumed:
  assumes "snd (admit_at E a st env source now) = Ok r"
  obtains payload nonce key where "presented E a env payload nonce key"
    and "consume (st_nonces st) nonce (pa_verifier_aid a) now = (st_nonces (fst (admit_at E a st env source now)), Consumed)"
proof -
  obtain st' where g: "gate a st (Some (ev_message_id env)) (Some (ev_timestamp env)) source now = (st', Ok ())"
      "snd (admission_verify E a st' env now) = Ok r"
    using assms by (auto simp: admit_at_def split: prod.splits sum.splits)
  have n: "st_nonces st' = st_nonces st" using gate_nonces [of a st] g(1) by (metis fst_conv)
  obtain payload nonce key s where p: "presented E a env payload nonce key"
      "pa_consume a (st_nonces st') nonce (pa_verifier_aid a) now = (s, Ok Consumed)"
    using g(2) unfolding admission_verify_Ok by blast
  have "st_nonces (fst (admit_at E a st env source now)) = s"
    using g(1) p admission_verify_nonces [of E a st' env now]
    by (simp add: admit_at_def check_presentation_Ok [symmetric])
  moreover have "consume (st_nonces st) nonce (pa_verifier_aid a) now = (s, Consumed)"
    using p(2) n by (cases "consume (st_nonces st) nonce (pa_verifier_aid a) now") (simp add: consumes)
  ultimately show thesis using that p(1) by simp
qed

lemma admits_once:
  assumes "inv (st_nonces st)" "snd (admit_at E a st env source now) = Ok r" "presented E a env payload nonce key"
    and "st_nonces st' = run_calls issue consume (st_nonces (fst (admit_at E a st env source now))) cs"
    and "\<forall>rec. CallIssue rec \<in> set cs \<longrightarrow> in_nonce rec \<noteq> nonce"
    and "snd (admit_at E a st' env' source' now') = Ok r'" "presented E a env' payload' nonce' key'"
  shows "nonce' \<noteq> nonce"
proof
  assume eq: "nonce' = nonce"
  have c: "consume (st_nonces st) nonce (pa_verifier_aid a) now = (st_nonces (fst (admit_at E a st env source now)), Consumed)"
    using admitted_consumed [OF assms(2)] presented_fun [OF assms(3)] by metis
  have "snd (consume (st_nonces st') nonce (pa_verifier_aid a) now') = Unknown"
    unfolding assms(4) by (rule consumed_once [OF assms(1) c assms(5)])
  moreover have "snd (consume (st_nonces st') nonce (pa_verifier_aid a) now') = Consumed"
    using admitted_consumed [OF assms(6)] presented_fun [OF assms(7)] eq by (metis snd_conv)
  ultimately show False by simp
qed

end

definition in_memory_nonces ::
  "(nonce \<Rightarrow> u64) \<Rightarrow> (nonce_store, 'l, 'd) admission \<Rightarrow> (nonce_store, 'l, 'd) admission" where
  "in_memory_nonces hash a =
     a\<lparr>pa_issue := issue_sync hash, pa_consume := \<lambda>s n v t. map_prod id Ok (consume_sync hash s n v t)\<rparr>"

interpretation mem_admission: admission_store
  "\<lambda>s. store_inv hash s 0" "lookup hash" "issue_sync hash" "consume_sync hash" "in_memory_nonces hash a" for hash a
  by unfold_locales (simp_all add: in_memory_nonces_def)

text \<open>
  C29: with the in-memory nonce store a challenge admits at most once: after an admission, no
  later presentation of the same nonce, whatever else happened to the store in between, is
  admitted unless the nonce was issued again.
\<close>

theorem admission_challenge_single_use:
  assumes "store_inv hash (st_nonces st) 0"
    and "snd (admit_at E (in_memory_nonces hash a) st env source now) = Ok r"
    and "presented E (in_memory_nonces hash a) env payload nonce key"
    and "st_nonces st' = run_calls (issue_sync hash) (consume_sync hash)
           (st_nonces (fst (admit_at E (in_memory_nonces hash a) st env source now))) cs"
    and "\<forall>rec. CallIssue rec \<in> set cs \<longrightarrow> in_nonce rec \<noteq> nonce"
    and "presented E (in_memory_nonces hash a) env' payload' nonce key'"
  shows "snd (admit_at E (in_memory_nonces hash a) st' env' source' now') \<noteq> Ok r'"
  using mem_admission.admits_once [OF assms(1-5) _ assms(6)] by blast

subsection \<open>An honest subject is admitted\<close>

lemma issue_attempts_Ok:
  assumes "issue_attempts E a s source now expires draws = (s', Ok ch)" "I s" "\<And>s rec. I s \<Longrightarrow> I (fst (pa_issue a s rec))"
  shows "\<exists>nonce s\<^sub>0 rec. Some nonce \<in> set draws \<and> I s\<^sub>0 \<and> pa_issue a s\<^sub>0 rec = (s', Ok ()) \<and> in_nonce rec = nonce \<and>
    in_verifier rec = pa_verifier_aid a \<and> in_expires_at rec = expires \<and>
    ch = \<lparr>ch_pop_nonce = encode E nonce, ch_verifier_aid = pa_verifier_aid a, ch_expires_at = expires\<rparr>"
  using assms
proof (induction E a s source now expires draws rule: issue_attempts.induct)
  case (3 E a s source now expires nonce draws)
  let ?rec = "\<lparr>in_nonce = nonce, in_verifier = pa_verifier_aid a, in_source = source, in_issued_at = now, in_expires_at = expires\<rparr>"
  obtain s1 r where i: "pa_issue a s ?rec = (s1, r)" by (cases "pa_issue a s ?rec")
  show ?case
  proof (cases "r = Inl Duplicate")
    case True
    with 3(2) i have "issue_attempts E a s1 source now expires draws = (s', Ok ch)" by simp
    moreover have "I s1" using 3(4) [OF 3(3), of ?rec] i by simp
    ultimately obtain n s\<^sub>0 rec where "Some n \<in> set draws" "I s\<^sub>0" "pa_issue a s\<^sub>0 rec = (s', Ok ())" "in_nonce rec = n"
        "in_verifier rec = pa_verifier_aid a" "in_expires_at rec = expires"
        "ch = \<lparr>ch_pop_nonce = encode E n, ch_verifier_aid = pa_verifier_aid a, ch_expires_at = expires\<rparr>"
      using 3(1) [OF refl i [symmetric] refl True refl _ _ 3(4)] by blast
    then show ?thesis by auto
  next
    case False
    with 3(2) i have "r = Ok ()" "s' = s1"
        "ch = \<lparr>ch_pop_nonce = encode E nonce, ch_verifier_aid = pa_verifier_aid a, ch_expires_at = expires\<rparr>"
      by (auto split: sum.splits nonce_store_error.splits)
    with i 3(3) show ?thesis by (intro exI [of _ nonce] exI [of _ s] exI [of _ ?rec]) simp
  qed
qed simp_all

context admission_store
begin

lemma challenge_consumable:
  assumes "inv (st_nonces st)" "challenge_at E dbg a st source t\<^sub>0 rng = (st\<^sub>1, Ok ch)" "\<forall>i n. rng i = Some n \<longrightarrow> length n = 16"
  obtains nonce where "length nonce = 16" "ch_pop_nonce ch = encode E nonce" "ch_verifier_aid ch = pa_verifier_aid a"
    and "\<And>cs now. \<forall>c\<in>set cs. sint (call_time c) \<le> sint (ch_expires_at ch) \<Longrightarrow>
      \<forall>t. CallConsume nonce (pa_verifier_aid a) t \<notin> set cs \<Longrightarrow> sint now \<le> sint (ch_expires_at ch) \<Longrightarrow>
      snd (consume (run_calls issue consume (st_nonces st\<^sub>1) cs) nonce (pa_verifier_aid a) now) = Consumed"
proof -
  have "issue_attempts E a (st_nonces st) (source_str dbg source) t\<^sub>0 (saturating_add t\<^sub>0 (pa_ttl a)) [rng 0, rng 1] = (st_nonces st\<^sub>1, Ok ch)"
    using assms(2) by (auto simp: challenge_at_def Let_def split: prod.splits sum.splits)
  from issue_attempts_Ok [OF this, of inv] assms(1) issue_inv
  obtain nonce s\<^sub>0 rec where r0: "Some nonce \<in> set [rng 0, rng 1]" "inv s\<^sub>0" "issue s\<^sub>0 rec = (st_nonces st\<^sub>1, Ok ())" "in_nonce rec = nonce"
      "in_verifier rec = pa_verifier_aid a" "in_expires_at rec = saturating_add t\<^sub>0 (pa_ttl a)"
      "ch = \<lparr>ch_pop_nonce = encode E nonce, ch_verifier_aid = pa_verifier_aid a, ch_expires_at = saturating_add t\<^sub>0 (pa_ttl a)\<rparr>"
    unfolding issues by blast
  then have r: "Some nonce \<in> {rng 0, rng 1}" "inv s\<^sub>0" "issue s\<^sub>0 rec = (st_nonces st\<^sub>1, Ok ())" "in_nonce rec = nonce"
      "in_verifier rec = pa_verifier_aid a" "in_expires_at rec = ch_expires_at ch"
      "ch_pop_nonce ch = encode E nonce" "ch_verifier_aid ch = pa_verifier_aid a"
    by simp_all
  show thesis
  proof (rule that)
    show "length nonce = 16" using r(1) assms(3) by (metis insertE empty_iff)
    show "ch_pop_nonce ch = encode E nonce" "ch_verifier_aid ch = pa_verifier_aid a" by (fact r)+
    show "snd (consume (run_calls issue consume (st_nonces st\<^sub>1) cs) nonce (pa_verifier_aid a) now) = Consumed"
      if "\<forall>c\<in>set cs. sint (call_time c) \<le> sint (ch_expires_at ch)" "\<forall>t. CallConsume nonce (pa_verifier_aid a) t \<notin> set cs"
        "sint now \<le> sint (ch_expires_at ch)" for cs now
      using issued_survives [OF r(2,3), of cs now] r that by simp
  qed
qed

end

lemma present_pinned_presented:
  assumes laws: "b64_laws E" "sig_laws E" "sha_laws E" "jcs_reads E" and k: "sk_wf E k" "pa_pinned_keys a (sk_verifying_key E k)"
    and ch: "ch_pop_nonce ch = encode E nonce" "length nonce = 16" "ch_verifier_aid ch = pa_verifier_aid a"
    and m: "is_v4 E i" "\<bar>sint ts\<bar> < 2 ^ 53" "pa_subject a = SenderAid \<longrightarrow> subject = aid_as_str (sk_aid k)"
  shows "\<exists>env payload key. present_pinned E (key_signer E k) subject ch ts i = Ok env \<and> presented E a env payload nonce key \<and>
    vp_key key = sk_verifying_key E k \<and> vp_aid key = sk_aid k \<and> ev_message_id env = i \<and> ev_timestamp env = ts \<and>
    id_subject (pp_identity payload) = subject"
proof -
  let ?vk = "sk_verifying_key E k" and ?sg = "key_signer E k"
  note vk = vk_from_sk_aid [OF laws(1,2) k(1)]
  note dec = decode_strict_encode [OF laws(1), of nonce]
  note pk = sk_compressed(1) [OF laws(1,2) k(1)]
  obtain input where input: "pinned_key_proof_input E (sk_aid k) (pa_verifier_aid a) i ts (encode E nonce) = Ok input"
    using dec ch(2) by (simp add: pinned_key_proof_input_def handshake_proof_input_def NONCE_LEN_def)
  let ?proof = "sk_sign_jcs E k (sha256 E input)"
  let ?d = "descriptor_pinned_key subject (encode E (to_compressed E ?vk)) (sig_as_str ?proof)"
  let ?p = "\<lparr>pp_identity = ?d, pp_pop_nonce = encode E nonce\<rparr>"
  let ?e0 = "envelope_unsigned (sk_aid k) IdentityPresentation (ser_presentation ?p) i ts"
  have doc: "json_safe (envelope_without_signature E ?e0)" "unique_keys (envelope_without_signature E ?e0)"
    using m(2) by (simp_all add: envelope_without_signature_def env_members_def envelope_unsigned_def ser_presentation_def
        ser_descriptor_def descriptor_members_def descriptor_pinned_key_def opt_member_def opt_str_member_def opt_strs_member_def
        ser_sender_def ser_aid_def ser_v4_def ser_time_def)
  then obtain bs where bs: "jcs_to_vec E (envelope_without_signature E ?e0) = Some bs"
    using laws(4) unfolding jcs_reads_def jcs_prints_def by blast
  let ?digest = "sha256 E (ENVELOPE_SIGNING_DOMAIN_TAG @ [0] @ bs)"
  have dg: "envelope_signing_digest E ?e0 = Some ?digest"
    using bs by (simp add: envelope_signing_digest_def envelope_signing_input_def canonicalize_def)
  let ?sig = "sk_sign_jcs E k ?digest"
  let ?env = "?e0\<lparr>ev_signature := sig_as_str ?sig\<rparr>"
  have pres: "present_pinned E ?sg subject ch ts i = Ok ?env"
    using input pk dg ch key_signer_jcs [OF laws(1,2) k(1)] by (simp add: present_pinned_defs Let_def)
  have local: "\<forall>k'. sg_signing_key ?sg = Some k' \<longrightarrow> sk_wf E k'" using k(1) by simp
  obtain v where "vk_from_aid E (sg_aid ?sg) = Ok v" "verify_jcs E v ?digest ?sig = Ok ()" "signature_parse (sig_as_str ?sig) = Ok ?sig"
    by (rule signer_sign_jcs_grammar [OF laws(1-3) local key_signer_jcs [OF laws(1,2) k(1)]])
  then have esig: "verify_envelope_signature E ?env ?vk = Ok ()"
    using vk dg by (simp add: verify_envelope_signature_def)
  let ?ctx = "presentation_ctx a ?env ?p"
  have ctx: "?ctx = \<lparr>pk_sender_aid = sk_aid k, pk_receiver_aid = pa_verifier_aid a, pk_message_id = i, pk_timestamp = ts,
      pk_pop_nonce = encode E nonce, pk_subject = pa_subject a\<rparr>"
    by (simp add: presentation_ctx_def envelope_unsigned_def)
  have "sign_pinned_key_proof E ?sg (sk_aid k) (pa_verifier_aid a) i ts (encode E nonce) = Ok (sig_as_str ?proof)"
    using input key_signer_jcs [OF laws(1,2) k(1)] by (simp add: sign_pinned_key_proof_def)
  from sign_pinned_key_proof_holds [OF laws(1-3) _ this] k(1) vk have ph: "proof_holds E ?d ?ctx ?vk" unfolding ctx by auto
  have carries: "carries_aid_key E ?d (sk_aid k)"
    using pk decode_strict_encode [OF laws(1)] by (simp add: carries_aid_key_def descriptor_pinned_key_def)
  have wf: "wf_aid E (pk_sender_aid ?ctx)" unfolding ctx using sk_aid_wf [OF laws(1,2) k(1)] by simp
  let ?key = "\<lparr>vp_algorithm = aid_algorithm (sk_aid k), vp_key = ?vk, vp_aid = sk_aid k\<rparr>"
  have "verify_pinned_key E ?d ?ctx (pa_pinned_keys a) = Ok ?key"
    unfolding verify_pinned_key_Ok [OF wf] using ph unfolding ctx
    using vk k(2) carries m(3) by (simp add: descriptor_pinned_key_def)
  moreover have "de_presentation (ser_presentation ?p) = Ok ?p"
    using de_ser_descriptor [of ?d]
    by (simp add: de_presentation_def ser_presentation_def de_struct_def de_field_def de_void_def descriptor_pinned_key_def)
  ultimately have "presented E a ?env ?p nonce ?key"
    using esig dec ch(2) m(1) by (simp add: presented_def envelope_unsigned_def)
  with pres show ?thesis by (intro exI [of _ ?env] exI [of _ ?p] exI [of _ ?key])
      (simp add: envelope_unsigned_def descriptor_pinned_key_def)
qed

lemma in_memory_nonces_simps [simp]:
  "pa_verifier_aid (in_memory_nonces hash a) = pa_verifier_aid a" "pa_pinned_keys (in_memory_nonces hash a) = pa_pinned_keys a"
  "pa_subject (in_memory_nonces hash a) = pa_subject a" "pa_contains (in_memory_nonces hash a) = pa_contains a"
  "pa_insert (in_memory_nonces hash a) = pa_insert a" "pa_tolerance (in_memory_nonces hash a) = pa_tolerance a"
  "pa_presentation_limiter (in_memory_nonces hash a) = pa_presentation_limiter a"
  "pa_consume (in_memory_nonces hash a) = (\<lambda>s n v t. map_prod id Ok (consume_sync hash s n v t))"
  by (simp_all add: in_memory_nonces_def)

lemma present_pinned_sender: "present_pinned E sg subject ch ts i = Ok env \<Longrightarrow> agent_id (ev_sender env) = sg_aid sg"
  by (auto simp: present_pinned_defs Let_def envelope_unsigned_def)

lemma honest_admission:
  fixes st st\<^sub>1 st\<^sub>2 :: "(nonce_store, 'l, 'd) admission_state"
  assumes laws: "b64_laws E" "sig_laws E" "sha_laws E" "jcs_reads E" and k: "sk_wf E k" "pa_pinned_keys a (sk_verifying_key E k)"
    and st: "store_inv hash (st_nonces st) 0" "\<forall>i n. rng i = Some n \<longrightarrow> length n = 16"
    and ch: "challenge_at E dbg (in_memory_nonces hash a) st source t\<^sub>0 rng = (st\<^sub>1, Ok ch)"
    and m: "is_v4 E i" "\<bar>sint ts\<bar> < 2 ^ 53" "pa_subject a = SenderAid \<longrightarrow> subject = aid_as_str (sk_aid k)"
    and cs: "st_nonces st\<^sub>2 = run_calls (issue_sync hash) (consume_sync hash) (st_nonces st\<^sub>1) cs"
      "\<forall>c\<in>set cs. sint (call_time c) \<le> sint (ch_expires_at ch)"
      "\<forall>n t. decode_strict E (ch_pop_nonce ch) = Ok n \<longrightarrow> CallConsume n (pa_verifier_aid a) t \<notin> set cs"
    and now: "sint now \<le> sint (ch_expires_at ch)" "is_within_tolerance_of ts now (pa_tolerance a)"
    and env: "pa_contains a (st_deny st\<^sub>2) i now = (d, Ok False)" "pa_presentation_limiter a (st_presentations st\<^sub>2) source' = (l, Ok ())"
      "pa_insert a d i (saturating_add ts (pa_tolerance a)) now = (d', Ok True)"
  obtains env payload nonce key r where "present_pinned E (key_signer E k) subject ch ts i = Ok env"
    and "presented E (in_memory_nonces hash a) env payload nonce key"
    and "snd (admit_at E (in_memory_nonces hash a) st\<^sub>2 env source' now) = Ok r"
    and "vp_key (ad_key r) = sk_verifying_key E k" "vp_aid (ad_key r) = sk_aid k" "ad_subject r = subject" "ad_message_id r = i"
    and "agent_id (ev_sender env) = sk_aid k"
proof -
  let ?a = "in_memory_nonces hash a"
  obtain nonce where n: "length nonce = 16" "ch_pop_nonce ch = encode E nonce" "ch_verifier_aid ch = pa_verifier_aid ?a"
    and live: "\<And>cs now. \<forall>c\<in>set cs. sint (call_time c) \<le> sint (ch_expires_at ch) \<Longrightarrow>
      \<forall>t. CallConsume nonce (pa_verifier_aid ?a) t \<notin> set cs \<Longrightarrow> sint now \<le> sint (ch_expires_at ch) \<Longrightarrow>
      snd (consume_sync hash (run_calls (issue_sync hash) (consume_sync hash) (st_nonces st\<^sub>1) cs) nonce (pa_verifier_aid ?a) now) = Consumed"
    by (rule mem_admission.challenge_consumable [OF st(1) ch st(2)]) blast
  have "snd (consume_sync hash (st_nonces st\<^sub>2) nonce (pa_verifier_aid ?a) now) = Consumed"
    unfolding cs(1) using cs(2,3) now(1) decode_strict_encode [OF laws(1), of nonce] n(2) by (intro live) simp_all
  then obtain s where consumed: "pa_consume ?a (st_nonces st\<^sub>2) nonce (pa_verifier_aid ?a) now = (s, Ok Consumed)"
    by (cases "consume_sync hash (st_nonces st\<^sub>2) nonce (pa_verifier_aid ?a) now") simp
  obtain env payload key where pr: "present_pinned E (key_signer E k) subject ch ts i = Ok env" "presented E ?a env payload nonce key"
      "vp_key key = sk_verifying_key E k" "vp_aid key = sk_aid k" "ev_message_id env = i" "ev_timestamp env = ts"
      "id_subject (pp_identity payload) = subject"
    using present_pinned_presented [of E k ?a ch nonce i ts subject] laws k n m by auto
  let ?st = "st\<^sub>2\<lparr>st_deny := d, st_presentations := l\<rparr>"
  let ?r = "\<lparr>ad_key = key, ad_subject = subject, ad_message_id = i\<rparr>"
  have "gate ?a st\<^sub>2 (Some i) (Some ts) source' now = (?st, Ok ())" using env now(2) by (simp add: gate_Ok)
  moreover have "snd (admission_verify E ?a ?st env now) = Ok ?r"
    unfolding admission_verify_Ok using pr consumed env(3)
    by (intro exI [of _ payload] exI [of _ nonce] exI [of _ key] exI [of _ s] exI [of _ d']) simp
  ultimately have "snd (admit_at E ?a st\<^sub>2 env source' now) = Ok ?r"
    using pr(5,6) by (simp add: admit_at_def)
  with pr that [of env payload nonce key ?r] show thesis by (simp add: present_pinned_sender)
qed


end
