(* ===== verification/Admission_Witness.thy ===== *)
theory Admission_Witness
  imports Admission Handshake_Witness
begin

text \<open>Payloads and an admission over the reference instance of the third-party functions and the in-memory stores.\<close>

subsection \<open>Payloads\<close>

definition demo_payload_manifest :: manifest where
  "demo_payload_manifest =
     \<lparr>m_version = PROTOCOL_VERSION, m_aid = demo_aid 1, m_display_name = None,
      m_identity_hint = \<lparr>ih_kind = PinnedKey, ih_subject = ''agent'', ih_issuer = None, ih_public_key = None\<rparr>,
      m_handshake_endpoint = RawUrl ''https://a.example/hs'', m_accepted_trust_anchors = [], m_accepted_identity_types = None,
      m_accepted_signature_algorithms = None, m_offered_capabilities = [''demo.echo''], m_required_peer_capabilities = None,
      m_proof_of_possession = \<lparr>mp_challenge = ''c'', mp_signature = ''s''\<rparr>, m_published_at = 1000, m_expires_at = 2000,
      m_extensions = None, m_signature = ''s''\<rparr>"

definition demo_descriptor :: identity_descriptor where
  "demo_descriptor = descriptor_pinned_key ''agent'' ''k'' ''p''"

definition demo_ext :: extensions_map where
  "demo_ext = [(''x-demo'', JInt 1)]"

theorem handshake_payload_roundtrip_witness:
  "de_hello demo_E (ser_hello \<lparr>mh_identity = demo_descriptor, mh_manifest = demo_payload_manifest, mh_requested_grants = [''demo.echo''],
       mh_pop_nonce = ''n'', mh_extensions = Some demo_ext\<rparr>) =
     Ok \<lparr>mh_identity = demo_descriptor, mh_manifest = demo_payload_manifest, mh_requested_grants = [''demo.echo''],
       mh_pop_nonce = ''n'', mh_extensions = Some demo_ext\<rparr> \<and>
   de_commit (ser_commit \<lparr>mc_tct = ''t'', mc_grant_voucher = None, mc_pop_signature = ''p'', mc_pop_nonce_echo = ''e'',
       mc_extensions = Some demo_ext\<rparr>) =
     Ok \<lparr>mc_tct = ''t'', mc_grant_voucher = None, mc_pop_signature = ''p'', mc_pop_nonce_echo = ''e'', mc_extensions = Some demo_ext\<rparr>"
proof -
  have wf: "wf_manifest demo_E demo_payload_manifest" "opt_all wf_ext (Some demo_ext)" "opt_all wf_ext (id_extensions demo_descriptor)"
    using sk_aid_wf [OF ref_laws(1,2) demo_key_wf, of 1]
    by (simp_all add: wf_manifest_def demo_payload_manifest_def demo_key_aid wf_ext_def demo_ext_def demo_descriptor_def
        descriptor_pinned_key_def)
  show ?thesis
    using handshake_payload_roundtrip [of
        "\<lparr>mh_identity = demo_descriptor, mh_manifest = demo_payload_manifest, mh_requested_grants = [''demo.echo''],
          mh_pop_nonce = ''n'', mh_extensions = Some demo_ext\<rparr>" demo_E
        "\<lparr>mha_identity = demo_descriptor, mha_manifest = demo_payload_manifest, mha_requested_grants = [],
          mha_pop_nonce = ''n'', mha_pop_nonce_echo = ''e'', mha_extensions = None\<rparr>"
        "\<lparr>mc_tct = ''t'', mc_grant_voucher = None, mc_pop_signature = ''p'', mc_pop_nonce_echo = ''e'', mc_extensions = Some demo_ext\<rparr>"
        "\<lparr>mca_tct = ''t'', mca_grant_voucher = None, mca_pop_signature = ''p'', mca_pop_nonce_echo = ''e'', mca_extensions = None\<rparr>" obj] wf
    by simp
qed

subsection \<open>An admission\<close>

abbreviation zero_hash :: "bytes \<Rightarrow> u64" where "zero_hash \<equiv> \<lambda>_. 0"

definition demo_verifier :: "(nonce_store, unit, deny_list) admission" where
  "demo_verifier =
     \<lparr>pa_verifier_aid = demo_aid 2, pa_issue = issue_sync zero_hash,
      pa_consume = (\<lambda>s n v t. map_prod id Ok (consume_sync zero_hash s n v t)),
      pa_pinned_keys = (\<lambda>k. k = sk_verifying_key demo_E (demo_key 1)), pa_limiter = (\<lambda>l s. ((), Ok ())),
      pa_presentation_limiter = (\<lambda>l s. ((), Ok ())), pa_contains = (\<lambda>s i t. map_prod id Ok (contains_sync zero_hash s i t)),
      pa_insert = insert_sync zero_hash, pa_ttl = from_secs 60, pa_tolerance = from_secs 30, pa_subject = SenderAid\<rparr>"

abbreviation demo_admission :: "(nonce_store, unit, deny_list) admission" where
  "demo_admission \<equiv> in_memory_nonces zero_hash demo_verifier"

definition demo_source :: challenge_source where
  "demo_source = source_ip (V4 2130706433)"

definition demo_issued :: issued_nonce where
  "demo_issued = \<lparr>in_nonce = replicate 16 7, in_verifier = demo_aid 2, in_source = source_str id demo_source, in_issued_at = 1000,
     in_expires_at = 1060\<rparr>"

definition demo_nonces :: nonce_store where
  "demo_nonces = fst (issue_sync zero_hash (with_shards 1 1) demo_issued)"

definition demo_state :: "nonce_store \<Rightarrow> (nonce_store, unit, deny_list) admission_state" where
  "demo_state s = \<lparr>st_nonces = s, st_limiter = (), st_presentations = (), st_deny = deny_list_new None 10\<rparr>"

definition demo_adm_challenge :: admission_challenge where
  "demo_adm_challenge = \<lparr>ch_pop_nonce = encode demo_E (replicate 16 7), ch_verifier_aid = demo_aid 2, ch_expires_at = 1060\<rparr>"

lemma fresh_issue_ok: "snd (issue_sync hash (with_shards 1 1) rec) = Ok ()"
  by (simp add: issue_sync_def Let_def purge_shard_def shard_index_def with_shards_def purge_def set_shard_def release_def
      reserve_def try_reserve_def insert_record_def insert_locked_def)

lemma demo_issued_ok: "issue_sync zero_hash (with_shards 1 1) demo_issued = (demo_nonces, Ok ())"
  using fresh_issue_ok [of zero_hash demo_issued]
  by (cases "issue_sync zero_hash (with_shards 1 1) demo_issued") (simp add: demo_nonces_def)

lemma demo_expiry: "saturating_add 1000 (from_secs 60) = 1060" "saturating_add 1000 (from_secs 30) = 1030"
  by (simp_all add: saturating_add_def duration_secs_def i64_saturating_add_def i64_try_from_u64_def)

lemma demo_challenged:
  "challenge_at demo_E id demo_admission (demo_state (with_shards 1 1)) demo_source 1000 (\<lambda>_. Some (replicate 16 7)) =
     (demo_state demo_nonces, Ok demo_adm_challenge)"
  using demo_issued_ok unfolding demo_issued_def
  by (simp add: challenge_at_def demo_verifier_def in_memory_nonces_def demo_state_def demo_adm_challenge_def demo_expiry)

definition demo_deny :: deny_list where
  "demo_deny = fst (contains_sync zero_hash (deny_list_new None 10) demo_jti 1000)"

lemma demo_deny:
  "contains_sync zero_hash (deny_list_new None 10) demo_jti 1000 = (demo_deny, False)"
  "snd (insert_sync zero_hash demo_deny demo_jti 1030 1000) = Ok True"
proof -
  obtain b where c: "contains_sync zero_hash (deny_list_new None 10) demo_jti 1000 = (demo_deny, b)"
    by (cases "contains_sync zero_hash (deny_list_new None 10) demo_jti 1000") (simp add: demo_deny_def)
  have "b = False" "deny_rel zero_hash 10 1000 Map.empty demo_deny"
    using mem_deny.simulates [OF deny_rel_new [of zero_hash 10 1000 None], of "CallContains demo_jti 1000"] c
    by (simp_all add: deny_step_def spec_step_def listed_def)
  with c show "contains_sync zero_hash (deny_list_new None 10) demo_jti 1000 = (demo_deny, False)"
      "snd (insert_sync zero_hash demo_deny demo_jti 1030 1000) = Ok True"
    using mem_deny.simulates [of zero_hash 10 1000 Map.empty demo_deny "CallInsert demo_jti 1030 1000"]
    by (simp_all add: deny_step_def spec_step_def listed_def)
qed

text \<open>What the verifier and the subject of this admission are known to satisfy, in the order of the hypotheses.\<close>

lemma demo_admission_setup:
  "pa_pinned_keys demo_verifier (sk_verifying_key demo_E (demo_key 1))"
  "store_inv zero_hash (st_nonces (demo_state (with_shards 1 1))) 0"
  "\<forall>i n. (\<lambda>_. Some (replicate 16 7)) i = Some n \<longrightarrow> length n = 16"
  "is_v4 demo_E demo_jti" "\<bar>sint (1000 :: i64)\<bar> < 2 ^ 53" "pa_subject demo_verifier = SenderAid \<longrightarrow> aid_as_str (demo_aid 1) = aid_as_str (sk_aid (demo_key 1))"
  "st_nonces (demo_state demo_nonces) = run_calls (issue_sync zero_hash) (consume_sync zero_hash) (st_nonces (demo_state demo_nonces)) []"
  "\<forall>c\<in>set []. sint (call_time c) \<le> sint (ch_expires_at demo_adm_challenge)"
  "\<forall>n t. decode_strict demo_E (ch_pop_nonce demo_adm_challenge) = Ok n \<longrightarrow> CallConsume n (pa_verifier_aid demo_verifier) t \<notin> set []"
  "sint (1000 :: i64) \<le> sint (ch_expires_at demo_adm_challenge)" "is_within_tolerance_of 1000 1000 (pa_tolerance demo_verifier)"
  "pa_contains demo_verifier (st_deny (demo_state demo_nonces)) demo_jti 1000 = (demo_deny, Ok False)"
  "pa_presentation_limiter demo_verifier (st_presentations (demo_state demo_nonces)) demo_source = ((), Ok ())"
  "pa_insert demo_verifier demo_deny demo_jti (saturating_add 1000 (pa_tolerance demo_verifier)) 1000 =
     (fst (insert_sync zero_hash demo_deny demo_jti 1030 1000), Ok True)"
  using demo_deny store_inv_with_shards [of zero_hash 1 1] demo_jti_v4
  by (simp_all add: demo_verifier_def demo_state_def demo_key_aid demo_adm_challenge_def demo_expiry is_within_tolerance_of_iff prod_eq_iff)

lemmas demo_admission_hyps = ref_laws demo_reads demo_key_wf demo_admission_setup(1-3) demo_challenged demo_admission_setup(4-)

lemma demo_honest:
  obtains env payload nonce key r where "presented demo_E demo_admission env payload nonce key"
    and "snd (admit_at demo_E demo_admission (demo_state demo_nonces) env demo_source 1000) = Ok r"
    and "agent_id (ev_sender env) = sk_aid (demo_key 1)"
  by (rule honest_admission [OF demo_admission_hyps]) blast


theorem admit_accepts_exactly_witness:
  "\<exists>env r key. snd (admit_at demo_E demo_admission (demo_state demo_nonces) env demo_source 1000) = Ok r \<and>
     vk_from_aid demo_E (agent_id (ev_sender env)) = Ok key \<and> pa_pinned_keys demo_admission key \<and>
     verify_envelope_signature demo_E env key = Ok () \<and> vp_key (ad_key r) = key"
proof -
  obtain env r where e: "snd (admit_at demo_E demo_admission (demo_state demo_nonces) env demo_source 1000) = Ok r"
      "agent_id (ev_sender env) = sk_aid (demo_key 1)"
    by (rule demo_honest)
  have "wf_aid demo_E (agent_id (ev_sender env))" "as_secs (pa_tolerance demo_admission) \<le> 300"
    using sk_aid_wf [OF ref_laws(1,2) demo_key_wf, of 1] e(2) by (simp_all add: demo_verifier_def)
  from admit_accepts_exactly [OF this, of "demo_state demo_nonces" demo_source 1000 r] e(1) obtain key and payload :: identity_presentation_payload where
      "vk_from_aid demo_E (agent_id (ev_sender env)) = Ok key" "pa_pinned_keys demo_admission key"
      "verify_envelope_signature demo_E env key = Ok ()"
      "r = \<lparr>ad_key = \<lparr>vp_algorithm = aid_algorithm (agent_id (ev_sender env)), vp_key = key, vp_aid = agent_id (ev_sender env)\<rparr>,
            ad_subject = id_subject (pp_identity payload), ad_message_id = ev_message_id env\<rparr>" by blast
  with e(1) show ?thesis by (intro exI [of _ env] exI [of _ r] exI [of _ key]) simp
qed

theorem admission_challenge_single_use_witness:
  "\<exists>env r. snd (admit_at demo_E demo_admission (demo_state demo_nonces) env demo_source 1000) = Ok r \<and>
     snd (admit_at demo_E demo_admission (fst (admit_at demo_E demo_admission (demo_state demo_nonces) env demo_source 1000))
       env demo_source 1001) \<noteq> Ok r"
proof -
  obtain env payload nonce key r where e: "presented demo_E demo_admission env payload nonce key"
      "snd (admit_at demo_E demo_admission (demo_state demo_nonces) env demo_source 1000) = Ok r"
    by (rule demo_honest)
  have "store_inv zero_hash (st_nonces (demo_state demo_nonces)) 0"
    using store_inv_issue_sync [OF store_inv_with_shards demo_issued_ok] by (simp add: demo_state_def)
  from admission_challenge_single_use [OF this e(2,1) _ _ e(1), of _ "[]"] e(2) show ?thesis
    by (intro exI [of _ env] exI [of _ r]) simp
qed

end
