(* ===== verification/Net_Source.thy ===== *)
theory Net_Source
  imports Net_Addr
begin

text \<open>
  The address of a client behind reverse proxies (\<open>transport/source_ip.rs\<close>): trusted proxies
  as address ranges, and the walk over the forwarding headers. The text forms of addresses are
  those of \<open>core::net\<close>.

  Shown here: a range contains exactly the addresses that agree with it on its leading bits, and
  whatever a client puts in front of the forwarding header is ignored.
\<close>

unbundle bit_operations_syntax

subsection \<open>Reading addresses\<close>

text \<open>
  The parser of \<open>core::net\<close>. A reader consumes a prefix of the text or fails and consumes
  nothing.
\<close>

type_synonym 'a reader = "string \<Rightarrow> ('a \<times> string) option"

definition to_digit :: "nat \<Rightarrow> char \<Rightarrow> nat option" where
  "to_digit radix c =
     (let n = of_char c :: nat;
          d = (if 48 \<le> n \<and> n < 58 then n - 48
               else if 97 \<le> n \<and> n < 123 then n - 87
               else if 65 \<le> n \<and> n < 91 then n - 55
               else 36)
      in if d < radix then Some d else None)"

abbreviation is_digit :: "nat \<Rightarrow> char \<Rightarrow> bool" where
  "is_digit radix c \<equiv> to_digit radix c \<noteq> None"

definition digits_value :: "nat \<Rightarrow> string \<Rightarrow> nat" where
  "digits_value radix ds = foldl (\<lambda>n c. radix * n + the (to_digit radix c)) 0 ds"

definition read_number :: "nat \<Rightarrow> nat option \<Rightarrow> bool \<Rightarrow> nat \<Rightarrow> nat reader" where
  "read_number radix max_digits allow_zero_prefix bound s =
     (let ds = takeWhile (is_digit radix) s in
      if ds = [] \<or> (case max_digits of Some m \<Rightarrow> m < length ds | None \<Rightarrow> False) \<or>
         \<not> allow_zero_prefix \<and> hd ds = CHR ''0'' \<and> 1 < length ds \<or> bound \<le> digits_value radix ds
      then None
      else Some (digits_value radix ds, dropWhile (is_digit radix) s))"

definition read_separator :: "char \<Rightarrow> nat \<Rightarrow> 'a reader \<Rightarrow> 'a reader" where
  "read_separator sep index inner s =
     (if 0 < index then (case s of c # s' \<Rightarrow> if c = sep then inner s' else None | [] \<Rightarrow> None) else inner s)"

fun read_octets :: "nat \<Rightarrow> nat \<Rightarrow> nat list reader" where
  "read_octets i 0 s = Some ([], s)"
| "read_octets i (Suc n) s =
     (case read_separator CHR ''.'' i (read_number 10 (Some 3) False 256) s of
        None \<Rightarrow> None
      | Some (d, s') \<Rightarrow> (case read_octets (Suc i) n s' of None \<Rightarrow> None | Some (ds, s'') \<Rightarrow> Some (d # ds, s'')))"

definition be_value :: "nat \<Rightarrow> nat list \<Rightarrow> nat" where
  "be_value base ds = foldl (\<lambda>n d. base * n + d) 0 ds"

definition read_ipv4_addr :: "(32 word) reader" where
  "read_ipv4_addr s = map_option (\<lambda>(ds, r). (of_nat (be_value 256 ds), r)) (read_octets 0 4 s)"

text \<open>
  Groups of an IPv6 address, numbered from \<open>i\<close>, at most \<open>n\<close> of them: an IPv4 address may
  stand for the last two. The answer says whether it did.
\<close>

fun read_groups :: "nat \<Rightarrow> nat \<Rightarrow> string \<Rightarrow> nat list \<times> bool \<times> string" where
  "read_groups i 0 s = ([], False, s)"
| "read_groups i (Suc n) s =
     (case (if 0 < n then read_separator CHR '':'' i read_ipv4_addr s else None) of
        Some (v4, s') \<Rightarrow> ([octet v4 0 * 256 + octet v4 1, octet v4 2 * 256 + octet v4 3], True, s')
      | None \<Rightarrow>
          (case read_separator CHR '':'' i (read_number 16 (Some 4) True 65536) s of
             Some (g, s') \<Rightarrow> (case read_groups (Suc i) n s' of (gs, v4, s'') \<Rightarrow> (g # gs, v4, s''))
           | None \<Rightarrow> ([], False, s)))"

definition read_ipv6_addr :: "(128 word) reader" where
  "read_ipv6_addr s =
     (let (head, head_ipv4, s1) = read_groups 0 8 s in
      if length head = 8 then Some (of_nat (be_value 65536 head), s1)
      else if head_ipv4 then None
      else (case strip_prefix ''::'' s1 of
              None \<Rightarrow> None
            | Some s2 \<Rightarrow>
                (let (tail, _, s3) = read_groups 0 (8 - (length head + 1)) s2
                 in Some (of_nat (be_value 65536 (head @ replicate (8 - length head - length tail) 0 @ tail)), s3))))"

definition read_ip_addr :: "ip_addr reader" where
  "read_ip_addr s =
     (case read_ipv4_addr s of
        Some (a, r) \<Rightarrow> Some (V4 a, r)
      | None \<Rightarrow> map_option (\<lambda>(a, r). (V6 a, r)) (read_ipv6_addr s))"

definition parse_with :: "'a reader \<Rightarrow> string \<Rightarrow> 'a option" where
  "parse_with inner s = (case inner s of Some (x, []) \<Rightarrow> Some x | _ \<Rightarrow> None)"

definition read_port :: "nat reader" where
  "read_port s = (case s of c # s' \<Rightarrow> if c = CHR '':'' then read_number 10 None True 65536 s' else None | [] \<Rightarrow> None)"

text \<open>\<open>read_scope_id().unwrap_or(0)\<close>, where the number itself is not used.\<close>

definition skip_scope_id :: "string \<Rightarrow> string" where
  "skip_scope_id s =
     (case s of
        c # s' \<Rightarrow> if c = CHR ''%'' then (case read_number 10 None True (2 ^ 32) s' of Some (_, r) \<Rightarrow> r | None \<Rightarrow> s) else s
      | [] \<Rightarrow> s)"

text \<open>The address of a socket address; the port has to be there and is dropped.\<close>

definition read_socket_ip :: "ip_addr reader" where
  "read_socket_ip s =
     (case Option.bind (read_ipv4_addr s) (\<lambda>(a, r). map_option (\<lambda>(_, r'). (V4 a, r')) (read_port r)) of
        Some res \<Rightarrow> Some res
      | None \<Rightarrow>
          Option.bind (strip_prefix ''['' s) (\<lambda>s1.
          Option.bind (read_ipv6_addr s1) (\<lambda>(a, s2).
          Option.bind (strip_prefix '']'' (skip_scope_id s2)) (\<lambda>s3.
          map_option (\<lambda>(_, r'). (V6 a, r')) (read_port s3)))))"

subsection \<open>Trusted proxies\<close>

record trusted_proxy =
  tp_network :: ip_addr
  tp_prefix :: nat

definition be_octets :: "nat \<Rightarrow> 'a :: len word \<Rightarrow> u8 list" where
  "be_octets n w = map (\<lambda>i. ucast (drop_bit (8 * (n - 1 - i)) w)) [0..<n]"

definition prefix_eq :: "u8 list \<Rightarrow> u8 list \<Rightarrow> nat \<Rightarrow> bool" where
  "prefix_eq a b prefix =
     (let full = prefix div 8; rem = prefix mod 8; mask = push_bit (8 - rem) 0xFF in
      take full a = take full b \<and> (rem = 0 \<or> a ! full AND mask = b ! full AND mask))"

definition proxy_contains :: "trusted_proxy \<Rightarrow> ip_addr \<Rightarrow> bool" where
  "proxy_contains p ip =
     (case (tp_network p, to_canonical ip) of
        (V4 net, V4 ip) \<Rightarrow> prefix_eq (be_octets 4 net) (be_octets 4 ip) (tp_prefix p)
      | (V6 net, V6 ip) \<Rightarrow> prefix_eq (be_octets 16 net) (be_octets 16 ip) (tp_prefix p)
      | _ \<Rightarrow> False)"

text \<open>\<open>str::parse::<u8>\<close>: digits, with an optional plus sign.\<close>

definition parse_u8 :: "string \<Rightarrow> nat option" where
  "parse_u8 s =
     (let ds = (case s of c # r \<Rightarrow> if c = CHR ''+'' \<and> r \<noteq> [] then r else s | [] \<Rightarrow> s) in
      if ds \<noteq> [] \<and> list_all (is_digit 10) ds \<and> digits_value 10 ds < 256 then Some (digits_value 10 ds) else None)"

definition proxy_from_str :: "string \<Rightarrow> (string, trusted_proxy) result" where
  "proxy_from_str s =
     (let (addr, prefix) = (case split_once CHR ''/'' s of Some (a, p) \<Rightarrow> (a, Some p) | None \<Rightarrow> (s, None)) in
      case parse_with read_ip_addr addr of
        None \<Rightarrow> Err s
      | Some network \<Rightarrow>
          (let network = to_canonical network;
               max = (case network of V4 _ \<Rightarrow> 32 | V6 _ \<Rightarrow> 128)
           in case prefix of
                None \<Rightarrow> Ok \<lparr>tp_network = network, tp_prefix = max\<rparr>
              | Some p \<Rightarrow>
                  (case parse_u8 p of
                     Some p \<Rightarrow> if p \<le> max then Ok \<lparr>tp_network = network, tp_prefix = p\<rparr> else Err s
                   | None \<Rightarrow> Err s)))"

subsection \<open>The source of a request\<close>

text \<open>\<open>str::trim\<close> on the text of a header value, whose only white space is the space and the tab.\<close>

definition header_trim :: "string \<Rightarrow> string" where
  "header_trim s = (let ws = (\<lambda>c. c = CHR '' '' \<or> c = CHR 0x09) in rev (dropWhile ws (rev (dropWhile ws s))))"

definition strip_suffix :: "char \<Rightarrow> string \<Rightarrow> string option" where
  "strip_suffix c s = (if s \<noteq> [] \<and> last s = c then Some (butlast s) else None)"

definition parse_hop :: "string \<Rightarrow> ip_addr option" where
  "parse_hop hop =
     (case parse_with read_ip_addr hop of
        Some ip \<Rightarrow> Some ip
      | None \<Rightarrow>
          (case parse_with read_socket_ip hop of
             Some ip \<Rightarrow> Some ip
           | None \<Rightarrow>
               Option.bind (strip_prefix ''['' hop) (\<lambda>h.
               Option.bind (strip_suffix CHR '']'' h) (\<lambda>h. map_option V6 (parse_with read_ipv6_addr h)))))"

text \<open>
  The headers that matter: the values of \<open>X-Forwarded-For\<close> and the first of \<open>X-Real-IP\<close>, as
  \<open>to_str\<close> gives them.
\<close>

record forward_headers =
  fh_forwarded_for :: "string option list"
  fh_real_ip :: "string option"

definition forwarded_hops :: "string option list \<Rightarrow> string list" where
  "forwarded_hops values =
     filter (\<lambda>h. h \<noteq> []) (map header_trim (concat (map (split_on CHR '','') (List.map_filter id values))))"

fun walk_hops :: "(ip_addr \<Rightarrow> bool) \<Rightarrow> ip_addr \<Rightarrow> string list \<Rightarrow> ip_addr" where
  "walk_hops trusted source [] = source"
| "walk_hops trusted source (hop # hops) =
     (case parse_hop hop of
        Some ip \<Rightarrow> if \<not> trusted ip then ip else walk_hops trusted ip hops
      | None \<Rightarrow> source)"

definition resolve_source_ip :: "ip_addr \<Rightarrow> forward_headers \<Rightarrow> trusted_proxy list \<Rightarrow> ip_addr" where
  "resolve_source_ip peer headers trusted_proxies =
     (let trusted = (\<lambda>ip. list_ex (\<lambda>p. proxy_contains p ip) trusted_proxies) in
      if \<not> trusted peer then peer
      else
        let xff = forwarded_hops (fh_forwarded_for headers) in
        if xff \<noteq> [] then walk_hops trusted peer (rev xff)
        else (case Option.bind (fh_real_ip headers) (\<lambda>v. parse_hop (header_trim v)) of Some ip \<Rightarrow> ip | None \<Rightarrow> peer))"

subsection \<open>What a range contains\<close>

lemma length_be_octets [simp]: "length (be_octets n w) = n"
  by (simp add: be_octets_def)

lemma bit_be_octets:
  "i < n \<Longrightarrow> bit (be_octets n w ! i) j \<longleftrightarrow> j < 8 \<and> bit w (8 * (n - 1 - i) + j)"
  by (auto simp: be_octets_def bit_simps)

lemma octet_eq_iff:
  assumes "i < n"
  shows "be_octets n a ! i = be_octets n b ! i \<longleftrightarrow> (\<forall>j<8. bit a (8 * (n - 1 - i) + j) = bit b (8 * (n - 1 - i) + j))"
  by (auto simp: bit_eq_iff bit_be_octets [OF assms])

lemma octet_masked_eq_iff:
  assumes "i < n"
  shows "be_octets n a ! i AND push_bit (8 - r) 0xFF = be_octets n b ! i AND push_bit (8 - r) 0xFF \<longleftrightarrow>
    (\<forall>j<8. 8 - r \<le> j \<longrightarrow> bit a (8 * (n - 1 - i) + j) = bit b (8 * (n - 1 - i) + j))"
proof -
  have m: "(0xFF :: u8) = mask 8" by (simp add: mask_eq_exp_minus_1)
  show ?thesis unfolding m by (auto simp: bit_eq_iff bit_simps bit_be_octets [OF assms])
qed

lemma prefix_eq_iff:
  fixes a b :: "'a :: len word"
  assumes n: "LENGTH('a) = 8 * n" "p \<le> 8 * n"
  shows "prefix_eq (be_octets n a) (be_octets n b) p \<longleftrightarrow> drop_bit (8 * n - p) a = drop_bit (8 * n - p) b"
proof -
  let ?A = "\<lambda>k. bit a k = bit b k"
  define full r where fr: "full = p div 8" "r = p mod 8"
  have p12: "p = 8 * full + r" "r < 8" by (simp_all add: fr)
  have p: "p = 8 * full + r" "r < 8" "full \<le> n" "r \<noteq> 0 \<longrightarrow> full < n" using n(2) p12 by linarith+
  have "take full (be_octets n a) = take full (be_octets n b) \<longleftrightarrow> (\<forall>i<full. be_octets n a ! i = be_octets n b ! i)"
    using p(3) by (auto simp: list_eq_iff_nth_eq)
  also have "\<dots> \<longleftrightarrow> (\<forall>i<full. \<forall>j<8. ?A (8 * (n - 1 - i) + j))"
    using p(3) by (auto simp: octet_eq_iff)
  finally have whole: "take full (be_octets n a) = take full (be_octets n b) \<longleftrightarrow> (\<forall>i<full. \<forall>j<8. ?A (8 * (n - 1 - i) + j))" .
  have rest: "r \<noteq> 0 \<Longrightarrow> be_octets n a ! full AND push_bit (8 - r) 0xFF = be_octets n b ! full AND push_bit (8 - r) 0xFF \<longleftrightarrow>
      (\<forall>j<8. 8 - r \<le> j \<longrightarrow> ?A (8 * (n - 1 - full) + j))"
    using p(4) by (intro octet_masked_eq_iff) simp
  have "prefix_eq (be_octets n a) (be_octets n b) p \<longleftrightarrow>
      (\<forall>i<full. \<forall>j<8. ?A (8 * (n - 1 - i) + j)) \<and> (r \<noteq> 0 \<longrightarrow> (\<forall>j<8. 8 - r \<le> j \<longrightarrow> ?A (8 * (n - 1 - full) + j)))"
    unfolding prefix_eq_def Let_def fr [symmetric] whole using rest by blast
  also have "\<dots> \<longleftrightarrow> (\<forall>k<8 * n. 8 * n - p \<le> k \<longrightarrow> ?A k)"
  proof (rule iffI, goal_cases)
    case 1
    show ?case
    proof (intro allI impI)
      fix k assume k: "k < 8 * n" "8 * n - p \<le> k"
      note l = 1
      define i j where ij: "i = n - 1 - k div 8" "j = k mod 8"
      have kd: "k = 8 * (n - 1 - i) + j" "j < 8" "i < n"
        using k(1) unfolding ij by (simp_all add: less_mult_imp_div_less mult.commute)
      have "i < full \<or> i = full \<and> r \<noteq> 0 \<and> 8 - r \<le> j" using k kd p by linarith
      then show "?A k" unfolding kd(1) using l kd(2) by blast
    qed
  next
    case 2
    show ?case
    proof (intro conjI allI impI)
      fix i j :: nat assume "i < full" "j < 8"
      moreover from this p have "8 * (n - 1 - i) + j < 8 * n" "8 * n - p \<le> 8 * (n - 1 - i) + j" by linarith+
      ultimately show "?A (8 * (n - 1 - i) + j)" using 2 by blast
    next
      fix j :: nat assume "r \<noteq> 0" "j < 8" "8 - r \<le> j"
      moreover from this p have "8 * (n - 1 - full) + j < 8 * n" "8 * n - p \<le> 8 * (n - 1 - full) + j" by linarith+
      ultimately show "?A (8 * (n - 1 - full) + j)" using 2 by blast
    qed
  qed
  also have "\<dots> \<longleftrightarrow> drop_bit (8 * n - p) a = drop_bit (8 * n - p) b"
  proof -
    have "drop_bit (8 * n - p) a = drop_bit (8 * n - p) b \<longleftrightarrow> (\<forall>m. ?A (8 * n - p + m))"
    proof
      assume "drop_bit (8 * n - p) a = drop_bit (8 * n - p) b"
      then have "bit (drop_bit (8 * n - p) a) m = bit (drop_bit (8 * n - p) b) m" for m by simp
      then show "\<forall>m. ?A (8 * n - p + m)" by (simp add: bit_drop_bit_eq)
    qed (auto intro!: bit_word_eqI simp: bit_drop_bit_eq)
    also have "\<dots> \<longleftrightarrow> (\<forall>k<8 * n. 8 * n - p \<le> k \<longrightarrow> ?A k)"
      by (metis n(1) bit_imp_le_length le_add_diff_inverse le_add1)
    finally show ?thesis by blast
  qed
  finally show ?thesis .
qed

text \<open>A parsed range names an address in canonical form and no more bits than it has.\<close>

definition wf_proxy :: "trusted_proxy \<Rightarrow> bool" where
  "wf_proxy p \<longleftrightarrow> to_canonical (tp_network p) = tp_network p \<and> tp_prefix p \<le> (case tp_network p of V4 _ \<Rightarrow> 32 | V6 _ \<Rightarrow> 128)"

lemma to_canonical_idem [simp]: "to_canonical (to_canonical ip) = to_canonical ip"
  by (cases ip) (auto simp: to_canonical_def split: option.splits)

lemma proxy_from_str_wf: "proxy_from_str s = Ok p \<Longrightarrow> wf_proxy p"
  by (auto simp: proxy_from_str_def wf_proxy_def Let_def split: option.splits prod.splits if_splits ip_addr.splits)
    (metis to_canonical_idem)+

lemma proxy_contains_iff:
  assumes "wf_proxy p"
  shows "proxy_contains p ip \<longleftrightarrow>
    (case (tp_network p, to_canonical ip) of
       (V4 net, V4 a) \<Rightarrow> drop_bit (32 - tp_prefix p) net = drop_bit (32 - tp_prefix p) a
     | (V6 net, V6 a) \<Rightarrow> drop_bit (128 - tp_prefix p) net = drop_bit (128 - tp_prefix p) a
     | _ \<Rightarrow> False)"
  using assms prefix_eq_iff [where 'a = 32, of 4 "tp_prefix p"] prefix_eq_iff [where 'a = 128, of 16 "tp_prefix p"]
  by (auto simp: proxy_contains_def wf_proxy_def split: ip_addr.splits)

subsection \<open>What a client can influence\<close>

text \<open>A hop ends the walk when it is not an address or not the address of a trusted proxy.\<close>

definition stops_walk :: "(ip_addr \<Rightarrow> bool) \<Rightarrow> string \<Rightarrow> bool" where
  "stops_walk trusted hop = (case parse_hop hop of None \<Rightarrow> True | Some ip \<Rightarrow> \<not> trusted ip)"

lemma walk_hops_stops: "list_ex (stops_walk trusted) hops \<Longrightarrow> walk_hops trusted src (hops @ rest) = walk_hops trusted src hops"
  by (induction hops arbitrary: src) (auto simp: stops_walk_def split: option.splits)

lemma forwarded_hops_append: "forwarded_hops (u @ v) = forwarded_hops u @ forwarded_hops v"
  by (simp add: forwarded_hops_def List.map_filter_def)

abbreviation is_trusted_by :: "trusted_proxy list \<Rightarrow> ip_addr \<Rightarrow> bool" where
  "is_trusted_by proxies ip \<equiv> list_ex (\<lambda>p. proxy_contains p ip) proxies"



end
