(* ===== verification/Transport_Rate_Limit.thy ===== *)
theory Transport_Rate_Limit
  imports Net_Source Clocked
begin

text \<open>
  The rate limit of the handshake server (\<open>transport/server.rs\<close>): per key the instants of the
  admitted requests, over a sliding window of 60 seconds. One check runs under the lock of the
  table.

  Shown here: the limiter answers like a specification that counts over the whole history of
  admitted requests; no source and no AID is admitted more often than its limit in any window of
  60 seconds, wherever it begins; and keys are never removed from the table.
\<close>

definition RECOMMENDED_REQUESTS_PER_SOURCE_PER_60S :: "32 word" where
  "RECOMMENDED_REQUESTS_PER_SOURCE_PER_60S = 30"

definition RECOMMENDED_REQUESTS_PER_AID_PER_60S :: "32 word" where
  "RECOMMENDED_REQUESTS_PER_AID_PER_60S = 10"

record rate_limit_config =
  requests_per_source_per_60s :: "32 word"
  requests_per_aid_per_60s :: "32 word option"
  trusted_proxies :: "trusted_proxy list"

definition rate_limit_config_default :: rate_limit_config where
  "rate_limit_config_default =
     \<lparr>requests_per_source_per_60s = RECOMMENDED_REQUESTS_PER_SOURCE_PER_60S,
      requests_per_aid_per_60s = Some RECOMMENDED_REQUESTS_PER_AID_PER_60S, trusted_proxies = []\<rparr>"

datatype rate_limit_outcome = Allow | DenyTooManyRequests

type_synonym rate_limit_events = "string \<rightharpoonup> instant list"

definition rate_window :: nat where
  "rate_window = duration_nanos (from_secs 60)"

definition events_at :: "rate_limit_events \<Rightarrow> string \<Rightarrow> instant list" where
  "events_at events k = (case events k of Some l \<Rightarrow> l | None \<Rightarrow> [])"

definition aid_key :: "aid \<Rightarrow> string" where
  "aid_key a = ''aid:'' @ aid_as_str a"

text \<open>\<open>events.entry(key).or_default()\<close> followed by \<open>retain\<close>, and by \<open>push\<close>.\<close>

definition retain_recent :: "rate_limit_events \<Rightarrow> instant \<Rightarrow> string \<Rightarrow> rate_limit_events" where
  "retain_recent events now k = events(k \<mapsto> filter (\<lambda>t. duration_since now t < rate_window) (events_at events k))"

definition push_event :: "instant \<Rightarrow> string \<Rightarrow> rate_limit_events \<Rightarrow> rate_limit_events" where
  "push_event now k events = events(k \<mapsto> events_at events k @ [now])"

text \<open>\<open>entry.len() as u32 >= limit\<close>; the cast drops high bits.\<close>

definition over_limit :: "rate_limit_events \<Rightarrow> string \<Rightarrow> 32 word \<Rightarrow> bool" where
  "over_limit events k limit \<longleftrightarrow> limit \<le> of_nat (length (events_at events k))"

definition rate_limit_check ::
  "rate_limit_config option \<Rightarrow> rate_limit_events \<Rightarrow> instant \<Rightarrow> ip_addr option \<Rightarrow> aid option \<Rightarrow>
   rate_limit_events \<times> rate_limit_outcome" where
  "rate_limit_check config events now client_ip peer_aid =
     (case config of
        None \<Rightarrow> (events, Allow)
      | Some c \<Rightarrow>
          let key = transport_key client_ip; events1 = retain_recent events now key in
          if over_limit events1 key (requests_per_source_per_60s c) then (events1, DenyTooManyRequests)
          else
            (case (requests_per_aid_per_60s c, peer_aid) of
               (Some limit, Some aid) \<Rightarrow>
                 let k = aid_key aid; events2 = retain_recent events1 now k in
                 if over_limit events2 k limit then (events2, DenyTooManyRequests)
                 else (fold (push_event now) [key, k] events2, Allow)
             | _ \<Rightarrow> (fold (push_event now) [key] events1, Allow)))"

subsection \<open>The specification\<close>

type_synonym rate_call = "instant \<times> ip_addr option \<times> aid option"

definition rate_time :: "rate_call \<Rightarrow> instant" where
  "rate_time c = fst c"

definition rate_step :: "rate_limit_config \<Rightarrow> rate_limit_events \<Rightarrow> rate_call \<Rightarrow> rate_limit_events \<times> rate_limit_outcome" where
  "rate_step c events call = (case call of (now, ip, aid) \<Rightarrow> rate_limit_check (Some c) events now ip aid)"

text \<open>The keys a request counts for, and the limit of a key.\<close>

definition call_keys :: "rate_limit_config \<Rightarrow> rate_call \<Rightarrow> string list" where
  "call_keys c call =
     (case call of (now, ip, aid) \<Rightarrow>
        transport_key ip #
        (case (requests_per_aid_per_60s c, aid) of (Some _, Some a) \<Rightarrow> [aid_key a] | _ \<Rightarrow> []))"

definition key_limit :: "rate_limit_config \<Rightarrow> string \<Rightarrow> nat" where
  "key_limit c k =
     (if hd k = CHR ''a'' then (case requests_per_aid_per_60s c of Some l \<Rightarrow> unat l | None \<Rightarrow> 0)
      else unat (requests_per_source_per_60s c))"

text \<open>The history is the list of admitted requests, one entry for each of their keys.\<close>

definition recent :: "(instant \<times> string) list \<Rightarrow> string \<Rightarrow> instant \<Rightarrow> nat" where
  "recent hist k now = length (filter (\<lambda>(t, k'). k' = k \<and> duration_since now t < rate_window) hist)"

definition rate_spec :: "rate_limit_config \<Rightarrow> (instant \<times> string) list \<Rightarrow> rate_call \<Rightarrow> (instant \<times> string) list \<times> rate_limit_outcome" where
  "rate_spec c hist call =
     (if \<forall>k\<in>set (call_keys c call). recent hist k (rate_time call) < key_limit c k
      then (hist @ map (Pair (rate_time call)) (call_keys c call), Allow)
      else (hist, DenyTooManyRequests))"

subsection \<open>The table and the history\<close>

lemma transport_key_ip: "hd (transport_key ip) = CHR ''i''"
  by (auto simp: transport_key_def split: option.splits ip_addr.splits)

lemma aid_key_a: "hd (aid_key a) = CHR ''a''"
  by (simp add: aid_key_def)

lemma transport_aid_distinct: "transport_key ip \<noteq> aid_key a" "aid_key a \<noteq> transport_key ip"
  using transport_key_ip [of ip] aid_key_a [of a] by auto

lemma distinct_call_keys: "distinct (call_keys c call)"
  by (auto simp: call_keys_def transport_aid_distinct split: prod.splits option.splits)

text \<open>What the table holds of the window is what the history has; no list is longer than its limit.\<close>

definition rate_rel :: "rate_limit_config \<Rightarrow> instant \<Rightarrow> (instant \<times> string) list \<Rightarrow> rate_limit_events \<Rightarrow> bool" where
  "rate_rel c now hist events \<longleftrightarrow>
     (\<forall>k. filter (\<lambda>t. duration_since now t < rate_window) (events_at events k) =
          map fst (filter (\<lambda>(t, k'). k' = k \<and> duration_since now t < rate_window) hist) \<and>
          length (events_at events k) \<le> key_limit c k)"

lemma events_at_retain:
  "events_at (retain_recent events now k) k' =
     (if k' = k then filter (\<lambda>t. duration_since now t < rate_window) (events_at events k) else events_at events k')"
  by (simp add: retain_recent_def events_at_def)

lemma events_at_push: "events_at (push_event now k events) k' = events_at events k' @ (if k' = k then [now] else [])"
  by (simp add: push_event_def events_at_def)

lemma rate_rel_later:
  assumes "rate_rel c t hist events" "t \<le> now"
  shows "rate_rel c now hist events"
proof -
  have w: "duration_since now s < rate_window \<Longrightarrow> duration_since t s < rate_window" for s
    using assms(2) by (simp add: duration_since_def)
  have "filter (\<lambda>s. duration_since now s < rate_window) (events_at events k) =
      map fst (filter (\<lambda>(s, k'). k' = k \<and> duration_since now s < rate_window) hist)" for k
  proof -
    have "filter (\<lambda>s. duration_since now s < rate_window) (events_at events k) =
        filter (\<lambda>s. duration_since now s < rate_window) (filter (\<lambda>s. duration_since t s < rate_window) (events_at events k))"
      using w by (auto intro: filter_cong)
    also have "\<dots> = filter (\<lambda>s. duration_since now s < rate_window)
        (map fst (filter (\<lambda>(s, k'). k' = k \<and> duration_since t s < rate_window) hist))"
      using assms(1) by (simp add: rate_rel_def)
    also have "\<dots> = map fst (filter (\<lambda>(s, k'). k' = k \<and> duration_since now s < rate_window) hist)"
      using w by (auto simp: filter_map comp_def case_prod_beta intro!: arg_cong [of _ _ "map fst"] filter_cong)
    finally show ?thesis .
  qed
  with assms(1) show ?thesis by (simp add: rate_rel_def)
qed

lemma rate_rel_retain: "rate_rel c now hist events \<Longrightarrow> rate_rel c now hist (retain_recent events now k)"
  unfolding rate_rel_def events_at_retain
  by auto (metis length_filter_le length_map order_trans)

lemma recent_length:
  assumes "rate_rel c now hist events"
  shows "length (events_at (retain_recent events now k) k) = recent hist k now"
  using assms unfolding rate_rel_def recent_def by (simp add: events_at_retain)

lemma key_limit_less: "key_limit c k < 2 ^ 32"
  using unsigned_less [of "requests_per_source_per_60s c"] unsigned_less [of "the (requests_per_aid_per_60s c)"]
  by (auto simp: key_limit_def split: option.splits)

lemma over_limit_iff:
  assumes "rate_rel c now hist events" "key_limit c k = unat limit"
  shows "over_limit (retain_recent events now k) k limit \<longleftrightarrow> \<not> recent hist k now < key_limit c k"
proof -
  have "length (events_at (retain_recent events now k) k) \<le> key_limit c k"
    using rate_rel_retain [OF assms(1)] by (simp add: rate_rel_def)
  then have "unat (of_nat (length (events_at (retain_recent events now k) k)) :: 32 word) = recent hist k now"
    using recent_length [OF assms(1), of k] key_limit_less [of c k] by (simp add: unat_of_nat)
  then show ?thesis using assms(2) by (simp add: over_limit_def word_le_nat_alt linorder_not_less)
qed

lemma rate_rel_push:
  assumes "rate_rel c now hist events" "length (events_at events k) < key_limit c k"
  shows "rate_rel c now (hist @ [(now, k)]) (push_event now k events)"
  using assms by (auto simp: rate_rel_def events_at_push duration_since_def rate_window_def duration_nanos_def)

lemma key_limit_transport: "key_limit c (transport_key ip) = unat (requests_per_source_per_60s c)"
  by (simp add: key_limit_def transport_key_ip)

lemma key_limit_aid: "requests_per_aid_per_60s c = Some l \<Longrightarrow> key_limit c (aid_key a) = unat l"
  by (simp add: key_limit_def aid_key_a)

lemma rate_rel_step:
  assumes "rate_rel c t hist events" "t \<le> now"
  shows "snd (rate_limit_check (Some c) events now ip aid) = snd (rate_spec c hist (now, ip, aid)) \<and>
    rate_rel c now (fst (rate_spec c hist (now, ip, aid))) (fst (rate_limit_check (Some c) events now ip aid))"
proof -
  let ?k = "transport_key ip" and ?e1 = "retain_recent events now (transport_key ip)"
  have r: "rate_rel c now hist events" by (rule rate_rel_later [OF assms])
  note r1 = rate_rel_retain [OF r, of ?k]
  note src = over_limit_iff [OF r key_limit_transport [of c ip]]
  have push: "rate_rel c now (hist @ [(now, ?k)]) (push_event now ?k ?e1)" if "recent hist ?k now < key_limit c ?k"
    using rate_rel_push [OF r1, of ?k] recent_length [OF r, of ?k] that by simp
  show ?thesis
  proof (cases "\<exists>l a. requests_per_aid_per_60s c = Some l \<and> aid = Some a")
    case True
    then obtain l a where la: "requests_per_aid_per_60s c = Some l" "aid = Some a" by blast
    let ?k2 = "aid_key a" and ?e2 = "retain_recent ?e1 now (aid_key a)"
    note r2 = rate_rel_retain [OF r1, of ?k2]
    note ai = over_limit_iff [OF r1 key_limit_aid [OF la(1), of a]]
    have "rate_rel c now (hist @ [(now, ?k), (now, ?k2)]) (push_event now ?k2 (push_event now ?k ?e2))"
      if "recent hist ?k now < key_limit c ?k" "recent hist ?k2 now < key_limit c ?k2"
    proof -
      have "rate_rel c now (hist @ [(now, ?k)]) (push_event now ?k ?e2)"
        using rate_rel_push [OF r2, of ?k] recent_length [OF r, of ?k] that(1) transport_aid_distinct
        by (simp add: events_at_retain)
      from rate_rel_push [OF this, of ?k2] show ?thesis
        using recent_length [OF r1, of ?k2] that(2) transport_aid_distinct by (simp add: events_at_push)
    qed
    then show ?thesis
      using src ai r1 r2 by (auto simp: rate_limit_check_def rate_spec_def call_keys_def rate_time_def la Let_def)
  next
    case False
    then have "call_keys c (now, ip, aid) = [?k]" by (auto simp: call_keys_def split: option.splits)
    moreover have "rate_limit_check (Some c) events now ip aid =
        (if over_limit ?e1 ?k (requests_per_source_per_60s c) then (?e1, DenyTooManyRequests) else (push_event now ?k ?e1, Allow))"
      using False by (auto simp: rate_limit_check_def Let_def split: option.splits)
    ultimately show ?thesis using src r1 push by (auto simp: rate_spec_def rate_time_def)
  qed
qed

interpretation mem_rate: clocked_simulation "(\<le>)" rate_time "rate_rel c" "rate_spec c" "rate_step c" for c
proof (unfold_locales, goal_cases)
  case (1 t m s call)
  then show ?case using rate_rel_step [of c t m s] by (cases call) (simp add: rate_time_def rate_step_def)
qed

lemma rate_answers:
  assumes "sorted (map rate_time calls)"
  shows "answers (rate_step c) Map.empty calls = answers (rate_spec c) [] calls"
proof (rule mem_rate.answers_eq)
  show "rate_rel c 0 [] Map.empty" by (simp add: rate_rel_def events_at_def)
  show "successively (\<le>) (0 # map rate_time calls)"
    using assms successively_le_iff [of "\<lambda>x. x" "0 # map rate_time calls"] by simp
qed

text \<open>
  C37: the limiter answers every sequence of requests, with a clock that does not run
  backwards, like the specification that counts the admitted requests of the last 60 seconds over
  the whole history: a request is admitted exactly when its source, and the AID it claims where
  that is limited too, are below their limits. Denied requests do not count.
\<close>

theorem rate_limit_equivalent:
  assumes "sorted (map rate_time calls)"
  shows "answers (rate_step c) Map.empty calls = answers (rate_spec c) [] calls"
  using assms by (rule rate_answers)

theorem rate_limit_equivalent_witness:
  "answers (rate_step \<lparr>requests_per_source_per_60s = 1, requests_per_aid_per_60s = None, trusted_proxies = []\<rparr>) Map.empty
     [(0, None, None), (59999999999, None, None), (60000000000, None, None)] = [Allow, DenyTooManyRequests, Allow]"
proof -
  let ?c = "\<lparr>requests_per_source_per_60s = 1, requests_per_aid_per_60s = None, trusted_proxies = []\<rparr>"
  have "key_limit ?c ''ip:unknown'' = 1" by (simp add: key_limit_def)
  then show ?thesis
    using rate_limit_equivalent [of "[(0, None, None), (59999999999, None, None), (60000000000, None, None)]" ?c]
    by (simp add: rate_time_def rate_spec_def call_keys_def transport_key_def recent_def duration_since_def rate_window_def
        duration_nanos_def)
qed

subsection \<open>Every window\<close>

definition in_window :: "instant \<Rightarrow> instant \<Rightarrow> bool" where
  "in_window a t \<longleftrightarrow> a \<le> t \<and> t < a + rate_window"

definition window_count :: "(instant \<times> string) list \<Rightarrow> string \<Rightarrow> instant \<Rightarrow> nat" where
  "window_count hist k a = length (filter (\<lambda>(t, k'). k' = k \<and> in_window a t) hist)"

definition admitted_count :: "rate_limit_config \<Rightarrow> (rate_call \<times> rate_limit_outcome) list \<Rightarrow> string \<Rightarrow> instant \<Rightarrow> nat" where
  "admitted_count c log k a =
     length (filter (\<lambda>(call, r). r = Allow \<and> k \<in> set (call_keys c call) \<and> in_window a (rate_time call)) log)"

lemma window_count_append: "window_count (h @ h') k a = window_count h k a + window_count h' k a"
  by (simp add: window_count_def)

lemma window_count_keys:
  "distinct ks \<Longrightarrow> window_count (map (Pair t) ks) k a = (if k \<in> set ks \<and> in_window a t then 1 else 0)"
  by (induction ks) (auto simp: window_count_def)

lemma window_count_recent:
  assumes "\<forall>(s, k)\<in>set hist. s \<le> now" "in_window a now"
  shows "window_count hist k a \<le> recent hist k now"
proof -
  have "duration_since now s < rate_window" if "(s, k') \<in> set hist" "in_window a s" for s k'
    using that assms by (fastforce simp: in_window_def duration_since_def)
  then show ?thesis unfolding window_count_def recent_def by (intro length_filter_mono) auto
qed

lemma spec_window_bound:
  assumes "\<forall>k a. window_count hist k a \<le> key_limit c k" "\<forall>(s, k)\<in>set hist. s \<le> t" "sorted (t # map rate_time calls)"
  shows "window_count hist k a + admitted_count c (zip calls (answers (rate_spec c) hist calls)) k a \<le> key_limit c k"
  using assms
proof (induction calls arbitrary: hist t)
  case Nil
  then show ?case by (simp add: admitted_count_def)
next
  case (Cons call calls)
  let ?now = "rate_time call"
  have past: "\<forall>(s, k)\<in>set hist. s \<le> ?now" using Cons.prems(2,3) by fastforce
  have sorted: "sorted (?now # map rate_time calls)" using Cons.prems(3) by simp
  show ?case
  proof (cases "\<forall>k\<in>set (call_keys c call). recent hist k ?now < key_limit c k")
    case False
    then have "rate_spec c hist call = (hist, DenyTooManyRequests)" by (simp add: rate_spec_def)
    with Cons.IH [OF Cons.prems(1) past sorted] show ?thesis by (simp add: admitted_count_def)
  next
    case True
    let ?hist = "hist @ map (Pair ?now) (call_keys c call)"
    have step: "rate_spec c hist call = (?hist, Allow)" using True by (simp add: rate_spec_def)
    have count: "window_count ?hist k a = window_count hist k a + (if k \<in> set (call_keys c call) \<and> in_window a ?now then 1 else 0)"
      for k a by (simp add: window_count_append window_count_keys distinct_call_keys)
    have "window_count ?hist k a \<le> key_limit c k" for k a
    proof (cases "k \<in> set (call_keys c call) \<and> in_window a ?now")
      case True': True
      with True window_count_recent [OF past, of a k] have "window_count hist k a < key_limit c k" by force
      with True' show ?thesis by (simp add: count)
    next
      case False
      with Cons.prems(1) show ?thesis by (simp only: count if_False) simp
    qed
    moreover have "\<forall>(s, k)\<in>set ?hist. s \<le> ?now" using past by auto
    ultimately have "window_count ?hist k a + admitted_count c (zip calls (answers (rate_spec c) ?hist calls)) k a \<le> key_limit c k"
      using Cons.IH [OF _ _ sorted] by blast
    then show ?thesis by (auto simp: step count admitted_count_def split: if_splits)
  qed
qed

text \<open>
  C38: in every window of 60 seconds, wherever it begins, the requests admitted for a source are
  at most its limit, and those admitted for an AID at most the limit for AIDs.
\<close>

theorem rate_limit_every_window:
  assumes "sorted (map rate_time calls)"
  shows "admitted_count c (zip calls (answers (rate_step c) Map.empty calls)) (transport_key ip) a \<le> unat (requests_per_source_per_60s c) \<and>
    (requests_per_aid_per_60s c = Some l \<longrightarrow>
     admitted_count c (zip calls (answers (rate_step c) Map.empty calls)) (aid_key aid) a \<le> unat l)"
proof -
  have "admitted_count c (zip calls (answers (rate_spec c) [] calls)) k a \<le> key_limit c k" for k
    using spec_window_bound [of "[]" c 0 calls k a] assms by (simp add: window_count_def)
  with key_limit_transport [of c ip] key_limit_aid [of c l aid] show ?thesis unfolding rate_answers [OF assms] by metis
qed

theorem rate_limit_every_window_witness:
  "admitted_count \<lparr>requests_per_source_per_60s = 1, requests_per_aid_per_60s = Some 2, trusted_proxies = []\<rparr>
     (zip [(5, None, None), (6, None, None)]
       (answers (rate_step \<lparr>requests_per_source_per_60s = 1, requests_per_aid_per_60s = Some 2, trusted_proxies = []\<rparr>) Map.empty
         [(5, None, None), (6, None, None)])) (transport_key None) 3 \<le> 1"
  using rate_limit_every_window [of "[(5, None, None), (6, None, None)]"
      "\<lparr>requests_per_source_per_60s = 1, requests_per_aid_per_60s = Some 2, trusted_proxies = []\<rparr>" None 3 2 "Aid ''a''"]
  by (simp add: rate_time_def)

text \<open>
  No key ever leaves the table, also when all its instants are old, and a denied request leaves
  its keys behind: the table grows with every source and every claimed AID.
\<close>

lemma rate_limit_keys_stay: "dom events \<subseteq> dom (fst (rate_limit_check config events now ip aid))"
  by (auto simp: rate_limit_check_def Let_def retain_recent_def push_event_def split: option.splits)

end
