(* ===== verification/Transport_Replay.thy ===== *)
theory Transport_Replay
  imports Clocked
begin

text \<open>
  The replay guard of the handshake server (\<open>transport/replay_store.rs\<close>): a map from keys to
  the instant they expire, swept on every check. One check runs under the lock of the map.

  Shown here: the guard answers like the specification that remembers every accepted key with
  its expiry for ever, and what happens to a window that the clock cannot represent.
\<close>

type_synonym replay_guard = "string \<rightharpoonup> instant"

definition replay_guard_new :: replay_guard where
  "replay_guard_new = Map.empty"

definition guard_expiry :: "nat \<Rightarrow> duration \<Rightarrow> instant \<Rightarrow> instant" where
  "guard_expiry lim ttl now = (case instant_checked_add lim now ttl of Some t \<Rightarrow> t | None \<Rightarrow> now)"

definition check_and_record :: "nat \<Rightarrow> replay_guard \<Rightarrow> string \<Rightarrow> duration \<Rightarrow> instant \<Rightarrow> replay_guard \<times> bool" where
  "check_and_record lim seen key ttl now =
     (let expiry = guard_expiry lim ttl now;
          seen1 = map_retain (\<lambda>exp. now < exp) seen
      in if seen1 key \<noteq> None then (seen1, False) else (seen1(key \<mapsto> expiry), True))"

subsection \<open>The specification\<close>

text \<open>A call is a key, the length of its window, and the clock reading.\<close>

type_synonym guard_call = "string \<times> duration \<times> instant"

definition guard_time :: "guard_call \<Rightarrow> instant" where
  "guard_time c = (case c of (_, _, now) \<Rightarrow> now)"

definition guard_step :: "nat \<Rightarrow> replay_guard \<Rightarrow> guard_call \<Rightarrow> replay_guard \<times> bool" where
  "guard_step lim seen c = (case c of (key, ttl, now) \<Rightarrow> check_and_record lim seen key ttl now)"

text \<open>What the trait documents: a key is fresh unless it was accepted and its window is still open.\<close>

definition guard_spec :: "nat \<Rightarrow> (string \<times> instant) list \<Rightarrow> guard_call \<Rightarrow> (string \<times> instant) list \<times> bool" where
  "guard_spec lim accepted c =
     (case c of (key, ttl, now) \<Rightarrow>
        if \<exists>(k, exp)\<in>set accepted. k = key \<and> now < exp then (accepted, False)
        else (accepted @ [(key, guard_expiry lim ttl now)], True))"

definition guard_rel :: "instant \<Rightarrow> (string \<times> instant) list \<Rightarrow> replay_guard \<Rightarrow> bool" where
  "guard_rel now accepted seen \<longleftrightarrow> (\<forall>k exp. now < exp \<longrightarrow> (seen k = Some exp \<longleftrightarrow> (k, exp) \<in> set accepted))"

lemma guard_expiry_le: "now \<le> guard_expiry lim ttl now"
  by (auto simp: guard_expiry_def instant_checked_add_def)

lemma guard_rel_step:
  assumes "guard_rel t accepted seen" "t \<le> now"
  shows "snd (check_and_record lim seen key ttl now) = snd (guard_spec lim accepted (key, ttl, now)) \<and>
    guard_rel now (fst (guard_spec lim accepted (key, ttl, now))) (fst (check_and_record lim seen key ttl now))"
proof -
  have live: "seen k = Some exp \<longleftrightarrow> (k, exp) \<in> set accepted" if "now < exp" for k exp
    using assms that by (simp add: guard_rel_def)
  have hit: "map_retain (\<lambda>exp. now < exp) seen key \<noteq> None \<longleftrightarrow> (\<exists>(k, exp)\<in>set accepted. k = key \<and> now < exp)"
    using live by (fastforce simp: map_retain_eq_None)
  show ?thesis
    using live hit by (auto simp: check_and_record_def guard_spec_def guard_rel_def Let_def)
qed

interpretation mem_guard: clocked_simulation "(\<le>)" guard_time guard_rel "guard_spec lim" "guard_step lim" for lim
proof (unfold_locales, goal_cases)
  case (1 t m s c)
  then show ?case
    using guard_rel_step [of t m s] by (cases c) (simp add: guard_time_def guard_step_def)
qed



text \<open>
  A window that the clock cannot represent is no window at all: the key is recorded as expired
  and is fresh again at the same instant.
\<close>

lemma replay_guard_unrepresentable_window:
  assumes "instant_checked_add lim now ttl = None" "check_and_record lim seen key ttl now = (seen', True)"
  shows "snd (check_and_record lim seen' key ttl' now) = True"
proof -
  have "seen' key = Some now"
    using assms by (auto simp: check_and_record_def guard_expiry_def Let_def split: if_splits)
  then show ?thesis by (simp add: check_and_record_def Let_def map_retain_def)
qed

end
