(* ===== verification/Transport_Sessions.thy ===== *)
theory Transport_Sessions
  imports Clocked Core_Ids "HOL-Library.AList" "HOL-Library.Multiset"
begin

text \<open>
  The table of handshakes in progress of the handshake server (\<open>transport/server.rs\<close>): expiry,
  eviction of the oldest, insertion by HELLO and removal by COMMIT. Each of these runs under the
  lock of the table, so the interleavings of concurrent requests are the sequences of these
  operations.

  The table is a \<open>HashMap\<close> with distinct keys. The order in which it is iterated is an argument
  \<open>iter\<close>, any permutation of the entries.

  Shown here: the table never exceeds its cap and keeps the newest entries, and no session is
  taken more often than it was inserted.
\<close>

definition DEFAULT_SESSION_TTL :: duration where "DEFAULT_SESSION_TTL = from_secs 60"

definition DEFAULT_MAX_SESSIONS :: usize where "DEFAULT_MAX_SESSIONS = 1000"

record 'r session_entry =
  se_responder :: 'r
  se_created_at :: instant

type_synonym 'r sessions = "(uuid \<times> 'r session_entry) list"

definition permutes_entries :: "('a list \<Rightarrow> 'a list) \<Rightarrow> bool" where
  "permutes_entries iter \<longleftrightarrow> (\<forall>xs. mset (iter xs) = mset xs)"

definition sweep_expired :: "'r sessions \<Rightarrow> duration \<Rightarrow> instant \<Rightarrow> 'r sessions" where
  "sweep_expired sessions ttl now = filter (\<lambda>(_, e). duration_since now (se_created_at e) \<le> duration_nanos ttl) sessions"

definition evict_oldest_to_capacity ::
  "((uuid \<times> 'v) list \<Rightarrow> (uuid \<times> 'v) list) \<Rightarrow> (uuid \<times> 'v) list \<Rightarrow> nat \<Rightarrow> ('v \<Rightarrow> instant) \<Rightarrow> (uuid \<times> 'v) list" where
  "evict_oldest_to_capacity iter m cap instant_of =
     (if length m \<le> cap then m
      else
        let by_age = sort_key snd (map (\<lambda>(k, v). (k, instant_of v)) (iter m));
            to_evict = length m - cap
        in fold (\<lambda>(k, _) m. AList.delete k m) (take to_evict by_age) m)"

definition evict_to_capacity ::
  "((uuid \<times> 'r session_entry) list \<Rightarrow> (uuid \<times> 'r session_entry) list) \<Rightarrow> 'r sessions \<Rightarrow> nat \<Rightarrow> 'r sessions" where
  "evict_to_capacity iter sessions cap = evict_oldest_to_capacity iter sessions cap se_created_at"

text \<open>The locked section of the HELLO handler, with its two clock readings, and the one of the COMMIT handler.\<close>

definition session_insert ::
  "((uuid \<times> 'r session_entry) list \<Rightarrow> (uuid \<times> 'r session_entry) list) \<Rightarrow> duration \<Rightarrow> usize \<Rightarrow> 'r sessions \<Rightarrow>
   uuid \<Rightarrow> 'r \<Rightarrow> instant \<Rightarrow> instant \<Rightarrow> 'r sessions" where
  "session_insert iter ttl max_sessions sessions session_id responder now created =
     (let s1 = sweep_expired sessions ttl now;
          s2 = evict_to_capacity iter s1 (unat max_sessions - 1)
      in AList.update session_id \<lparr>se_responder = responder, se_created_at = created\<rparr> s2)"

datatype 'r session_lookup = SessionExpired | SessionUnknown | SessionTaken 'r

definition session_take :: "duration \<Rightarrow> 'r sessions \<Rightarrow> uuid \<Rightarrow> instant \<Rightarrow> instant \<Rightarrow> 'r sessions \<times> 'r session_lookup" where
  "session_take ttl sessions session_id now now' =
     (let expired_present = (case map_of sessions session_id of
                               Some e \<Rightarrow> duration_nanos ttl < duration_since now (se_created_at e)
                             | None \<Rightarrow> False);
          s1 = sweep_expired sessions ttl now'
      in if expired_present then (s1, SessionExpired)
         else (case map_of s1 session_id of
                 None \<Rightarrow> (s1, SessionUnknown)
               | Some e \<Rightarrow> (AList.delete session_id s1, SessionTaken (se_responder e))))"

subsection \<open>Eviction\<close>

abbreviation keys_distinct :: "('k \<times> 'v) list \<Rightarrow> bool" where
  "keys_distinct m \<equiv> distinct (map fst m)"

lemma fold_delete: "fold (\<lambda>(k, _) m. AList.delete k m) xs m = filter (\<lambda>(k, _). k \<notin> fst ` set xs) m"
proof (induction xs arbitrary: m)
  case (Cons x xs)
  obtain k t where x: "x = (k, t)" by (cases x)
  have "fold (\<lambda>(k, _) m. AList.delete k m) (x # xs) m = filter (\<lambda>(k', _). k' \<notin> fst ` set xs) (AList.delete k m)"
    by (simp add: x Cons.IH)
  also have "\<dots> = filter (\<lambda>(k', _). k' \<notin> fst ` set (x # xs)) m"
    unfolding AList.delete_eq filter_filter by (rule filter_cong) (auto simp: x)
  finally show ?case .
qed (simp add: case_prod_beta)

lemma keys_distinct_filter: "keys_distinct m \<Longrightarrow> keys_distinct (filter P m)"
  by (induction m) auto

lemma length_filter_keys:
  assumes "keys_distinct m" "K \<subseteq> fst ` set m" "finite K"
  shows "length (filter (\<lambda>(k, _). k \<notin> K) m) = length m - card K"
proof -
  have "distinct (map fst (filter (\<lambda>(k, _). k \<notin> K) m))" using assms(1) by (rule keys_distinct_filter)
  then have "length (filter (\<lambda>(k, _). k \<notin> K) m) = card (fst ` set (filter (\<lambda>(k, _). k \<notin> K) m))"
    by (metis distinct_card length_map set_map)
  also have "fst ` set (filter (\<lambda>(k, _). k \<notin> K) m) = fst ` set m - K" by force
  also have "card \<dots> = card (fst ` set m) - card K" using assms(2,3) by (simp add: card_Diff_subset)
  also have "card (fst ` set m) = length m" using assms(1) by (metis distinct_card length_map set_map)
  finally show ?thesis .
qed

text \<open>Exactly as many entries as fit stay, and every one of them is at least as new as every one that went.\<close>

lemma evict_oldest:
  assumes "permutes_entries iter" "keys_distinct m"
  shows "length (evict_oldest_to_capacity iter m cap f) = min (length m) cap"
    and "set (evict_oldest_to_capacity iter m cap f) \<subseteq> set m"
    and "keys_distinct (evict_oldest_to_capacity iter m cap f)"
    and "\<lbrakk>(k, v) \<in> set m; (k, v) \<notin> set (evict_oldest_to_capacity iter m cap f);
          (k', v') \<in> set (evict_oldest_to_capacity iter m cap f)\<rbrakk> \<Longrightarrow> f v \<le> f v'"
proof -
  let ?ages = "sort_key snd (map (\<lambda>(k, v). (k, f v)) (iter m))" and ?n = "length m - cap"
  let ?K = "fst ` set (take ?n ?ages)"
  have m: "mset (iter m) = mset m" using assms(1) by (simp add: permutes_entries_def)
  then have sm: "set (iter m) = set m" by (metis set_mset_mset)
  have fst_ages: "mset (map fst ?ages) = mset (map fst m)"
  proof -
    have "mset (map fst ?ages) = image_mset fst (mset ?ages)" by simp
    also have "\<dots> = image_mset fst (mset (iter m))" by (simp add: multiset.map_comp comp_def case_prod_beta)
    finally show ?thesis using m by simp
  qed
  have dist: "distinct (map fst ?ages)" using fst_ages assms(2) by (metis distinct_count_atmost_1 mset_eq_imp_distinct_iff)
  have len: "length ?ages = length m" using mset_eq_length [OF m] by simp
  have card: "card ?K = ?n"
  proof -
    have "card (set (take ?n (map fst ?ages))) = length (take ?n (map fst ?ages))" using dist by (intro distinct_card distinct_take)
    then show ?thesis using len by (simp add: take_map)
  qed
  have sub: "?K \<subseteq> fst ` set m"
  proof -
    have "fst ` set ?ages = fst ` set m" using mset_eq_setD [OF fst_ages] by simp
    then show ?thesis using set_take_subset [of ?n ?ages] by blast
  qed
  have ev: "evict_oldest_to_capacity iter m cap f = (if length m \<le> cap then m else filter (\<lambda>(k, _). k \<notin> ?K) m)"
    by (simp add: evict_oldest_to_capacity_def fold_delete Let_def)
  show "length (evict_oldest_to_capacity iter m cap f) = min (length m) cap"
    unfolding ev using length_filter_keys [OF assms(2) sub] card by simp
  show "set (evict_oldest_to_capacity iter m cap f) \<subseteq> set m" unfolding ev by auto
  show "keys_distinct (evict_oldest_to_capacity iter m cap f)"
    unfolding ev using assms(2) keys_distinct_filter [OF assms(2)] by simp
  show "f v \<le> f v'" if a: "(k, v) \<in> set m" "(k, v) \<notin> set (evict_oldest_to_capacity iter m cap f)"
    "(k', v') \<in> set (evict_oldest_to_capacity iter m cap f)"
  proof -
    have c: "\<not> length m \<le> cap" "k \<in> ?K" "k' \<notin> ?K" "(k', v') \<in> set m" using a unfolding ev by (auto split: if_splits)
    obtain t where t: "(k, t) \<in> set (take ?n ?ages)" using c(2) by force
    have in_ages: "(x, f y) \<in> set ?ages" if "(x, y) \<in> set m" for x y using that sm by force
    have fv: "t = f v"
      using dist in_ages [OF a(1)] in_set_takeD [OF t] by (metis eq_key_imp_eq_value)
    have kept: "(k', f v') \<in> set (drop ?n ?ages)"
    proof -
      have "(k', f v') \<in> set (take ?n ?ages) \<union> set (drop ?n ?ages)"
        using in_ages [OF c(4)] by (metis append_take_drop_id set_append)
      with c(3) show ?thesis by force
    qed
    have "sorted (map snd (take ?n ?ages) @ map snd (drop ?n ?ages))"
      by (simp only: map_append [symmetric] append_take_drop_id sorted_sort_key)
    then have le: "\<forall>x\<in>set (map snd (take ?n ?ages)). \<forall>y\<in>set (map snd (drop ?n ?ages)). x \<le> y" unfolding sorted_append by blast
    have "f v \<in> set (map snd (take ?n ?ages))" using t fv by force
    moreover have "f v' \<in> set (map snd (drop ?n ?ages))" using kept by force
    ultimately show ?thesis using le by blast
  qed
qed

subsection \<open>Interleavings\<close>

text \<open>The operations on the table, with the session that each of them inserted or took.\<close>

datatype session_event = Inserted_Session uuid | Taken_Session uuid | Other_Session

inductive session_step ::
  "((uuid \<times> 'r session_entry) list \<Rightarrow> (uuid \<times> 'r session_entry) list) \<Rightarrow> duration \<Rightarrow> usize \<Rightarrow>
   'r sessions \<Rightarrow> session_event \<Rightarrow> 'r sessions \<Rightarrow> bool" for iter ttl cap where
  insert_session: "session_step iter ttl cap s (Inserted_Session i) (session_insert iter ttl cap s i r now created)"
| take_session: "session_take ttl s i now now' = (s', SessionTaken r) \<Longrightarrow> session_step iter ttl cap s (Taken_Session i) s'"
| miss_session: "session_take ttl s i now now' = (s', res) \<Longrightarrow> res = SessionExpired \<or> res = SessionUnknown \<Longrightarrow>
    session_step iter ttl cap s Other_Session s'"
| sweep_sessions: "session_step iter ttl cap s Other_Session (sweep_expired s ttl now)"

inductive session_run ::
  "((uuid \<times> 'r session_entry) list \<Rightarrow> (uuid \<times> 'r session_entry) list) \<Rightarrow> duration \<Rightarrow> usize \<Rightarrow>
   session_event list \<Rightarrow> 'r sessions \<Rightarrow> bool" for iter ttl cap where
  no_sessions: "session_run iter ttl cap [] []"
| more_sessions: "session_run iter ttl cap evs s \<Longrightarrow> session_step iter ttl cap s ev s' \<Longrightarrow> session_run iter ttl cap (evs @ [ev]) s'"

inductive_cases session_step_cases: "session_step iter ttl cap s ev s'"

definition held :: "'r sessions \<Rightarrow> uuid \<Rightarrow> nat" where
  "held s i = (if i \<in> fst ` set s then 1 else 0)"

lemma sweep_expired_props:
  "set (sweep_expired s ttl now) \<subseteq> set s" "keys_distinct s \<Longrightarrow> keys_distinct (sweep_expired s ttl now)"
  "length (sweep_expired s ttl now) \<le> length s"
  by (auto simp: sweep_expired_def keys_distinct_filter)

lemma held_mono: "set s' \<subseteq> set s \<Longrightarrow> held s' i \<le> held s i"
  by (auto simp: held_def)

lemma length_update_le: "length (AList.update k v m) \<le> Suc (length m)"
  by (induction m) auto

lemma session_insert_props:
  assumes "permutes_entries iter" "keys_distinct s" "0 < cap"
  shows "length (session_insert iter ttl cap s i r now created) \<le> unat cap"
    and "keys_distinct (session_insert iter ttl cap s i r now created)"
    and "held (session_insert iter ttl cap s i r now created) j \<le> held s j + (if j = i then 1 else 0)"
proof -
  let ?s1 = "sweep_expired s ttl now" and ?n = "unat cap - 1"
  let ?s2 = "evict_to_capacity iter ?s1 ?n"
  note d1 = sweep_expired_props(2) [OF assms(2), of ttl now]
  have e: "length ?s2 = min (length ?s1) ?n" "set ?s2 \<subseteq> set ?s1" "keys_distinct ?s2"
    unfolding evict_to_capacity_def using evict_oldest(1,2,3) [OF assms(1) d1] by blast+
  let ?u = "AList.update i \<lparr>se_responder = r, se_created_at = created\<rparr> ?s2"
  have c: "0 < unat cap" using assms(3) by (simp add: word_less_nat_alt)
  have "length ?s2 \<le> ?n" using e(1) by simp
  then have "length ?u \<le> Suc ?n" by (rule order_trans [OF length_update_le Suc_le_mono [THEN iffD2]])
  with c show "length (session_insert iter ttl cap s i r now created) \<le> unat cap" by (simp add: session_insert_def Let_def)
  show "keys_distinct (session_insert iter ttl cap s i r now created)"
    using e(3) by (simp add: session_insert_def Let_def distinct_update)
  have "fst ` set ?u \<subseteq> insert i (fst ` set s)"
    using e(2) sweep_expired_props(1) [of s ttl now] unfolding dom_update by blast
  then show "held (session_insert iter ttl cap s i r now created) j \<le> held s j + (if j = i then 1 else 0)"
    by (auto simp: held_def session_insert_def Let_def)
qed

lemma session_take_props:
  assumes "keys_distinct s" "session_take ttl s i now now' = (s', res)"
  shows "set s' \<subseteq> set s" "keys_distinct s'" "length s' \<le> length s"
    and "res = SessionTaken r \<Longrightarrow> held s i = 1 \<and> held s' i = 0"
proof -
  let ?s1 = "sweep_expired s ttl now'"
  note sw = sweep_expired_props [of s ttl now']
  have sub: "set (AList.delete i ?s1) \<subseteq> set s" "keys_distinct (AList.delete i ?s1)" "length (AList.delete i ?s1) \<le> length s"
    using sw assms(1) by (auto simp: AList.delete_eq keys_distinct_filter intro: order_trans [OF length_filter_le])
  have s': "s' = ?s1 \<or> s' = AList.delete i ?s1"
    using assms(2) by (auto simp: session_take_def Let_def split: if_splits option.splits)
  show "set s' \<subseteq> set s" using s' sub(1) sw(1) by blast
  show "keys_distinct s'" using s' sub(2) sw(2) [OF assms(1)] by blast
  show "length s' \<le> length s" using s' sub(3) sw(3) by blast
  show "held s i = 1 \<and> held s' i = 0" if taken: "res = SessionTaken r"
  proof -
    obtain e where e: "map_of ?s1 i = Some e" "s' = AList.delete i ?s1"
      using assms(2) taken by (cases "map_of ?s1 i") (simp_all add: session_take_def Let_def split: if_splits)
    then have "i \<in> fst ` set s" using map_of_SomeD [OF e(1)] sw(1) by force
    then show ?thesis using e(2) by (auto simp: held_def AList.delete_eq)
  qed
qed

abbreviation inserted_times :: "session_event list \<Rightarrow> uuid \<Rightarrow> nat" where
  "inserted_times evs i \<equiv> count_list evs (Inserted_Session i)"

abbreviation taken_times :: "session_event list \<Rightarrow> uuid \<Rightarrow> nat" where
  "taken_times evs i \<equiv> count_list evs (Taken_Session i)"

lemma session_run_inv:
  assumes "session_run iter ttl cap evs s" "permutes_entries iter" "0 < cap"
  shows "keys_distinct s \<and> length s \<le> unat cap \<and> (\<forall>i. taken_times evs i + held s i \<le> inserted_times evs i)"
  using assms
proof (induction rule: session_run.induct)
  case no_sessions
  show ?case by (simp add: held_def)
next
  case (more_sessions evs s ev s')
  then have IH: "keys_distinct s" "length s \<le> unat cap" "\<And>i. taken_times evs i + held s i \<le> inserted_times evs i" by auto
  from more_sessions(2) show ?case
  proof cases
    case (insert_session i r now created)
    have le: "taken_times evs j + held s' j \<le> inserted_times evs j + (if j = i then 1 else 0)" for j
      using session_insert_props(3) [OF more_sessions(4) IH(1) more_sessions(5), of ttl i r now created j] IH(3) [of j] insert_session(2)
      by simp
    have "taken_times (evs @ [ev]) j + held s' j \<le> inserted_times (evs @ [ev]) j" for j
      using le [of j] insert_session(1) by (cases "j = i") simp_all
    then show ?thesis
      using session_insert_props(1,2) [OF more_sessions(4) IH(1) more_sessions(5), of ttl i r now created] insert_session(2)
      by auto
  next
    case (take_session i now now' r)
    note p = session_take_props [OF IH(1) take_session(2)]
    have "taken_times (evs @ [ev]) j + held s' j \<le> inserted_times (evs @ [ev]) j" for j
      using IH(3) [of j] held_mono [OF p(1), of j] p(4) [OF refl] take_session(1) by (cases "j = i") auto
    then show ?thesis using p(2,3) IH(2) by auto
  next
    case (miss_session i now now' res)
    note p = session_take_props [OF IH(1) miss_session(2)]
    have "taken_times evs j + held s' j \<le> inserted_times evs j" for j
      using IH(3) [of j] held_mono [OF p(1), of j] by simp
    then show ?thesis using p(2,3) IH(2) miss_session(1) by auto
  next
    case (sweep_sessions now)
    note p = sweep_expired_props [of s ttl now]
    have "taken_times evs j + held s' j \<le> inserted_times evs j" for j
      using IH(3) [of j] held_mono [OF p(1), of j] sweep_sessions(2) by simp
    then show ?thesis using p IH sweep_sessions by auto
  qed
qed

text \<open>
  C39: in every interleaving of HELLO, COMMIT and the sweeper, the table holds at most
  \<open>max_sessions\<close> handshakes, and a session is taken by a COMMIT at most as often as it was
  inserted by a HELLO: no handshake is committed twice.
\<close>

theorem session_table_bounded_single_use:
  assumes "session_run iter ttl cap evs s" "permutes_entries iter" "0 < cap"
  shows "length s \<le> unat cap \<and> taken_times evs i \<le> inserted_times evs i"
  using session_run_inv [OF assms] by (metis add_leE)

theorem session_table_bounded_single_use_witness:
  "length (session_insert id DEFAULT_SESSION_TTL 1 (session_insert id DEFAULT_SESSION_TTL 1 [] [1] (0 :: nat) 5 5) [2] 0 6 6) \<le> unat (1 :: usize) \<and>
   taken_times [Inserted_Session [1], Inserted_Session [2]] [1] \<le> inserted_times [Inserted_Session [1], Inserted_Session [2]] [1]"
proof -
  have "session_run id DEFAULT_SESSION_TTL 1 ([] @ [Inserted_Session [1]] @ [Inserted_Session [2]])
      (session_insert id DEFAULT_SESSION_TTL 1 (session_insert id DEFAULT_SESSION_TTL 1 [] [1] (0 :: nat) 5 5) [2] 0 6 6)"
    unfolding append_assoc [symmetric]
    by (rule more_sessions [OF more_sessions [OF no_sessions insert_session] insert_session])
  then show ?thesis
    using session_table_bounded_single_use [of id DEFAULT_SESSION_TTL 1 "[Inserted_Session [1], Inserted_Session [2]]" _ "[1]"]
    by (simp add: permutes_entries_def)
qed

text \<open>
  C40: eviction makes exactly the room that is needed and takes the oldest: every entry that stays
  is at least as new as every entry that goes, whatever the order of iteration.
\<close>

theorem evict_drops_oldest:
  assumes "permutes_entries iter" "keys_distinct m"
  shows "length (evict_oldest_to_capacity iter m cap f) = min (length m) cap \<and>
    (\<forall>(k, v)\<in>set m - set (evict_oldest_to_capacity iter m cap f). \<forall>(k', v')\<in>set (evict_oldest_to_capacity iter m cap f). f v \<le> f v')"
  using evict_oldest(1) [OF assms, of cap f] evict_oldest(4) [OF assms, of _ _ cap f] by auto

theorem evict_drops_oldest_witness:
  "length (evict_oldest_to_capacity rev [([1], 7), ([2], 3), ([3], 5 :: nat)] 2 (\<lambda>t. t)) = 2"
  using evict_drops_oldest [of rev "[([1], 7), ([2], 3), ([3], 5 :: nat)]" 2 "\<lambda>t. t"]
  by (simp add: permutes_entries_def)

end
