(* ===== verification/Facade.thy ===== *)
theory Facade
  imports Transport_Server
begin

text \<open>
  The one-call driver of the initiator (\<open>facade.rs\<close>): how a response of the peer is read and
  checked, and \<open>run_initiator_handshake\<close> from the peer's Manifest to the session. The store of
  held tokens is at the end.

  What the driver calls over the network is the record \<open>network\<close>: the Manifest fetcher, the
  guarded HTTP client, the two requests and the fetcher of revocation snapshots. It is an argument
  and may be hostile. A response body arrives in chunks. Clock readings and random values are
  arguments.

  Shown here: whatever the network answers, a session that is returned is one with the peer whose
  Manifest was fetched.
\<close>

subsection \<open>Configuration\<close>

datatype trust_mode = TrustPinnedKeys pinned_key_store | TrustOidc "raw_url list" jwks_resolver

datatype identity_mode = ModePinnedKey string | ModeOidc string string "string \<Rightarrow> (unit, string) result"

definition presented_type :: "identity_mode \<Rightarrow> identity_kind" where
  "presented_type mode = (case mode of ModePinnedKey _ \<Rightarrow> PinnedKey | ModeOidc _ _ _ \<Rightarrow> Oidc)"

definition into_presented_identity :: "identity_mode \<Rightarrow> presented_identity" where
  "into_presented_identity mode =
     (case mode of
        ModePinnedKey subject \<Rightarrow> PresentPinnedKey subject
      | ModeOidc issuer subject mint \<Rightarrow> PresentOidcMinter issuer subject mint)"

definition noop_jwks_resolver :: jwks_resolver where
  "noop_jwks_resolver issuer = Err NetworkError"

record session_context =
  sc_peer_aid :: aid
  sc_peer_pubkey :: verifying_key
  sc_held_tct :: verified_tct
  sc_grant_voucher :: "string option"
  sc_effective_grants :: "string list"

text \<open>The failures of the Manifest fetcher are not told apart here.\<close>

datatype facade_error =
    FacadeManifest
  | FacadeHandshake handshake_error
  | FacadeHttp
  | FacadeProtocol string
  | FacadeSerde
  | FacadeManifestVerify manifest_error
  | FacadeEnvelope envelope_error

record initiator_config =
  ic_signing_key :: signer
  ic_own_manifest :: manifest
  ic_trust_mode :: trust_mode
  ic_identity_mode :: identity_mode
  ic_requested_grants :: "string list"
  ic_insecure_localhost :: bool

subsection \<open>Responses\<close>

definition MAX_RESPONSE_BYTES :: nat where "MAX_RESPONSE_BYTES = 256 * 1024"

text \<open>A response: its body is a sequence of chunks, of which each may fail to arrive.\<close>

record http_response =
  hr_status :: nat
  hr_content_type :: "string option"
  hr_content_length :: "nat option"
  hr_session_header :: "string option"
  hr_chunks :: "(unit, bytes) result list"

definition is_success :: "nat \<Rightarrow> bool" where
  "is_success status \<longleftrightarrow> 200 \<le> status \<and> status < 300"

definition de_error_body :: "json \<Rightarrow> (serde_error, string) result" where
  "de_error_body j =
     and_then (de_struct_open [(''code'', Required, de_void de_string), (''message'', Required, de_void de_string)] j) (\<lambda>ms.
     and_then (de_field ms ''code'' de_string) (\<lambda>code.
     and_then (de_field ms ''message'' de_string) (\<lambda>_. Ok code)))"

definition de_error_envelope :: "json \<Rightarrow> (serde_error, string) result" where
  "de_error_envelope j =
     and_then (de_struct_open [(''error'', Required, de_void de_error_body)] j) (\<lambda>ms. de_field ms ''error'' de_error_body)"

definition contains :: "string \<Rightarrow> string \<Rightarrow> bool" where
  "contains pattern s \<longleftrightarrow> list_ex (\<lambda>i. starts_with pattern (drop i s)) [0..<Suc (length s)]"

definition validate_aitp_response_shape ::
  "externals \<Rightarrow> nat \<Rightarrow> string \<Rightarrow> bytes \<Rightarrow> nat \<Rightarrow> (facade_error, unit) result" where
  "validate_aitp_response_shape E status content_type body max_bytes =
     (if max_bytes < length body then Err FacadeHttp
      else if \<not> is_success status then
        (case and_then (json_document E body) de_error_envelope of
           Ok code \<Rightarrow> Err (FacadeProtocol code)
         | Err _ \<Rightarrow> Err FacadeHttp)
      else ensure FacadeHttp (contains ''application/json'' (map ascii_lower content_type)))"

definition interpret_aitp_envelope_response ::
  "externals \<Rightarrow> nat \<Rightarrow> string \<Rightarrow> bytes \<Rightarrow> nat \<Rightarrow> (facade_error, aitp_envelope) result" where
  "interpret_aitp_envelope_response E status content_type body max_bytes =
     and_then (validate_aitp_response_shape E status content_type body max_bytes) (\<lambda>_.
     and_then (map_err (\<lambda>_. FacadeHttp) (checked_from_slice E body)) (\<lambda>value.
     map_err (\<lambda>_. FacadeHttp) (parse_envelope_wire E value)))"

fun read_chunks :: "nat \<Rightarrow> bytes \<Rightarrow> (unit, bytes) result list \<Rightarrow> (facade_error, bytes) result" where
  "read_chunks max_bytes body [] = Ok body"
| "read_chunks max_bytes body (c # cs) =
     and_then (map_err (\<lambda>_. FacadeHttp) c) (\<lambda>chunk.
     if max_bytes < length body + length chunk then Err FacadeHttp
     else read_chunks max_bytes (body @ chunk) cs)"

definition read_aitp_response_body :: "http_response \<Rightarrow> nat \<Rightarrow> (facade_error, nat \<times> string \<times> bytes) result" where
  "read_aitp_response_body resp max_bytes =
     (let content_type = (case hr_content_type resp of Some t \<Rightarrow> t | None \<Rightarrow> []) in
      and_then (ensure FacadeHttp (case hr_content_length resp of Some declared \<Rightarrow> declared \<le> max_bytes | None \<Rightarrow> True)) (\<lambda>_.
      and_then (read_chunks max_bytes [] (hr_chunks resp)) (\<lambda>body.
      Ok (hr_status resp, content_type, body))))"

definition read_aitp_envelope_response :: "externals \<Rightarrow> http_response \<Rightarrow> nat \<Rightarrow> (facade_error, aitp_envelope) result" where
  "read_aitp_envelope_response E resp max_bytes =
     and_then (read_aitp_response_body resp max_bytes) (\<lambda>(status, content_type, body).
     interpret_aitp_envelope_response E status content_type body max_bytes)"

subsection \<open>The driver\<close>

text \<open>
  What is done over the network: the fetched Manifest, whether an endpoint gets a guarded client,
  the two requests (\<open>None\<close> when the exchange itself fails), and the revocation lookup.
\<close>

record network =
  nw_fetch :: "manifest option"
  nw_client :: "raw_url \<Rightarrow> bool"
  nw_hello :: "aitp_envelope \<Rightarrow> http_response option"
  nw_commit :: "string \<Rightarrow> aitp_envelope \<Rightarrow> http_response option"
  nw_prepare :: "aid \<Rightarrow> string option \<Rightarrow> timestamp \<Rightarrow> revocation_check"

record initiator_input =
  ii_start_now :: timestamp
  ii_state_id :: uuid
  ii_nonce :: "bytes option"
  ii_hello_id :: uuid
  ii_hello_time :: timestamp
  ii_ack_now :: timestamp
  ii_token_id :: uuid
  ii_commit_id :: uuid
  ii_commit_time :: timestamp
  ii_prepare_now :: timestamp
  ii_finish_now :: timestamp

definition initiator_peer_config :: "initiator_config \<Rightarrow> revocation_check \<Rightarrow> timestamp \<Rightarrow> peer_config" where
  "initiator_peer_config config check now =
     (let (anchors, resolver, store) = (case ic_trust_mode config of
            TrustPinnedKeys store \<Rightarrow> ([], noop_jwks_resolver, store)
          | TrustOidc anchors resolver \<Rightarrow> (anchors, resolver, no_pinned_keys));
          cfg = with_trust_anchors anchors
            (peer_config_new (ic_signing_key config) (ic_own_manifest config) resolver store (Check check) now)
      in cfg\<lparr>pc_insecure_localhost := ic_insecure_localhost config\<rparr>)"

definition no_tct_yet :: revocation_check where
  "no_tct_yet q = Err Unavailable"

definition response_payload_error :: "serde_error \<Rightarrow> facade_error" where
  "response_payload_error e =
     (case from_serde_error e of Some field \<Rightarrow> FacadeHandshake (HsUnknownField field) | None \<Rightarrow> FacadeSerde)"

definition read_payload ::
  "string \<Rightarrow> string list \<Rightarrow> (json \<Rightarrow> (serde_error, 'p) result) \<Rightarrow> aitp_envelope \<Rightarrow> (facade_error, 'p) result" where
  "read_payload object members de envelope =
     and_then (map_err (\<lambda>e. FacadeHandshake (HsUnknownField (uf_field e))) (check_members object (ev_payload envelope) members)) (\<lambda>_.
     map_err response_payload_error (de (ev_payload envelope)))"

text \<open>From the fetched Manifest to the signed HELLO.\<close>

definition send_hello ::
  "externals \<Rightarrow> initiator_config \<Rightarrow> initiator_input \<Rightarrow> manifest \<Rightarrow>
   (facade_error, initiator_state \<times> aitp_envelope) result" where
  "send_hello E config inp peer_manifest =
     and_then (map_err FacadeManifestVerify
                 (check_identity_type_compatibility peer_manifest (presented_type (ic_identity_mode config)))) (\<lambda>_.
     and_then (map_err FacadeHandshake
                 (initiator_start E (ii_state_id inp) (ii_nonce inp) (initiator_peer_config config no_tct_yet (ii_start_now inp))
                    (into_presented_identity (ic_identity_mode config)) (m_aid peer_manifest) (ii_hello_id inp) (ii_hello_time inp)
                    (ic_requested_grants config))) (\<lambda>(initiator, hello).
     and_then (map_err FacadeEnvelope
                 (sign_envelope_with E (ic_signing_key config) MutualHello (ser_hello hello) (ii_hello_id inp) (ii_hello_time inp))) (\<lambda>envelope.
     Ok (initiator, envelope))))"

text \<open>From the response to the HELLO to the signed COMMIT, with the key that signed the response.\<close>

definition receive_hello_ack ::
  "externals \<Rightarrow> initiator_config \<Rightarrow> initiator_input \<Rightarrow> initiator_state \<Rightarrow> http_response \<Rightarrow>
   (facade_error, verifying_key \<times> initiator_state \<times> aitp_envelope) result" where
  "receive_hello_ack E config inp initiator resp =
     and_then (read_aitp_envelope_response E resp MAX_RESPONSE_BYTES) (\<lambda>envelope.
     and_then (map_err (\<lambda>_. FacadeHttp) (vk_from_aid E (agent_id (ev_sender envelope)))) (\<lambda>peer_pk.
     and_then (map_err (\<lambda>_. FacadeHttp) (verify_envelope_signature E envelope peer_pk)) (\<lambda>_.
     and_then (read_payload ''MutualHelloAckPayload'' MUTUAL_HELLO_ACK_PAYLOAD_MEMBERS (de_hello_ack E) envelope) (\<lambda>hello_ack.
     let (r, initiator') = on_hello_ack E (ii_token_id inp) initiator envelope hello_ack
           (initiator_peer_config config no_tct_yet (ii_ack_now inp)) in
     and_then (map_err FacadeHandshake r) (\<lambda>commit.
     and_then (map_err FacadeEnvelope
                 (sign_envelope_with E (ic_signing_key config) MutualCommit (ser_commit commit) (ii_commit_id inp) (ii_commit_time inp))) (\<lambda>envelope.
     Ok (peer_pk, initiator', envelope)))))))"

text \<open>From the response to the COMMIT to the completed handshake.\<close>

definition receive_commit_ack ::
  "externals \<Rightarrow> initiator_config \<Rightarrow> initiator_input \<Rightarrow> network \<Rightarrow> aid \<Rightarrow> verifying_key \<Rightarrow> initiator_state \<Rightarrow> http_response \<Rightarrow>
   (facade_error, completed_handshake) result" where
  "receive_commit_ack E config inp nw peer_aid peer_pk initiator resp =
     and_then (read_aitp_envelope_response E resp MAX_RESPONSE_BYTES) (\<lambda>envelope.
     and_then (map_err (\<lambda>_. FacadeHttp) (verify_envelope_signature E envelope peer_pk)) (\<lambda>_.
     and_then (read_payload ''MutualCommitAckPayload'' MUTUAL_COMMIT_ACK_PAYLOAD_MEMBERS de_commit_ack envelope) (\<lambda>commit_ack.
     let check = nw_prepare nw peer_aid (initiator_peer_revocation_list_uri initiator) (ii_prepare_now inp) in
     map_err FacadeHandshake
       (fst (on_commit_ack E initiator envelope commit_ack (initiator_peer_config config check (ii_finish_now inp)))))))"

definition run_initiator_handshake ::
  "externals \<Rightarrow> initiator_config \<Rightarrow> network \<Rightarrow> initiator_input \<Rightarrow> (facade_error, session_context) result" where
  "run_initiator_handshake E config nw inp =
     and_then (ok_or FacadeManifest (nw_fetch nw)) (\<lambda>peer_manifest.
     and_then (send_hello E config inp peer_manifest) (\<lambda>(initiator, hello_envelope).
     and_then (ensure FacadeHttp (nw_client nw (m_handshake_endpoint peer_manifest))) (\<lambda>_.
     and_then (ok_or FacadeHttp (nw_hello nw hello_envelope)) (\<lambda>resp.
     let session_header = (case hr_session_header resp of Some h \<Rightarrow> h | None \<Rightarrow> []) in
     and_then (receive_hello_ack E config inp initiator resp) (\<lambda>(peer_pk, initiator', commit_envelope).
     and_then (ok_or FacadeHttp (nw_commit nw session_header commit_envelope)) (\<lambda>commit_resp.
     and_then (receive_commit_ack E config inp nw (m_aid peer_manifest) peer_pk initiator' commit_resp) (\<lambda>completed.
     Ok \<lparr>sc_peer_aid = m_aid peer_manifest, sc_peer_pubkey = peer_pk, sc_held_tct = ch_tct completed,
         sc_grant_voucher = ch_grant_voucher completed, sc_effective_grants = ch_effective_grants completed\<rparr>)))))))"

subsection \<open>Held tokens\<close>

text \<open>
  The store of held tokens, by issuer. The fraction of the lifetime at which a token is refreshed
  is compared in floating point; the comparison is a field of the store here
  (\<open>remaining as f64 / original as f64 < refresh_threshold\<close>).
\<close>

record stored_tct =
  st_tct :: verified_tct
  st_grant_voucher :: "string option"
  st_original_ttl_secs :: i64

record tct_store =
  ts_inner :: "aid \<rightharpoonup> stored_tct"
  ts_below_threshold :: "i64 \<Rightarrow> i64 \<Rightarrow> bool"

definition tct_store_new :: "(i64 \<Rightarrow> i64 \<Rightarrow> bool) \<Rightarrow> tct_store" where
  "tct_store_new below = \<lparr>ts_inner = Map.empty, ts_below_threshold = below\<rparr>"

definition tct_store_insert :: "tct_store \<Rightarrow> verified_tct \<Rightarrow> string option \<Rightarrow> tct_store" where
  "tct_store_insert store tct voucher =
     store\<lparr>ts_inner := (ts_inner store)(tct_iss (vt_claims tct) \<mapsto>
       \<lparr>st_tct = tct, st_grant_voucher = voucher, st_original_ttl_secs = tct_exp (vt_claims tct) - tct_iat (vt_claims tct)\<rparr>)\<rparr>"

definition tct_store_get :: "tct_store \<Rightarrow> aid \<Rightarrow> verified_tct option" where
  "tct_store_get store peer_aid = map_option st_tct (ts_inner store peer_aid)"

definition tct_store_get_voucher :: "tct_store \<Rightarrow> aid \<Rightarrow> string option" where
  "tct_store_get_voucher store peer_aid = Option.bind (ts_inner store peer_aid) st_grant_voucher"

definition tct_store_remove :: "tct_store \<Rightarrow> aid \<Rightarrow> tct_store" where
  "tct_store_remove store peer_aid = store\<lparr>ts_inner := (ts_inner store)(peer_aid := None)\<rparr>"

definition needs_refresh :: "tct_store \<Rightarrow> aid \<Rightarrow> timestamp \<Rightarrow> bool" where
  "needs_refresh store peer_aid now =
     (case ts_inner store peer_aid of
        None \<Rightarrow> False
      | Some entry \<Rightarrow>
          if sint (st_original_ttl_secs entry) \<le> 0 then True
          else
            let remaining = tct_exp (vt_claims (st_tct entry)) - now in
            if sint remaining \<le> 0 then True
            else ts_below_threshold store remaining (st_original_ttl_secs entry))"

subsection \<open>Reading a response\<close>

text \<open>No more than the limit is ever buffered: the body that is read has at most that length, whatever its header declares.\<close>

lemma read_chunks_bounded: "read_chunks n b cs = Ok body \<Longrightarrow> length b \<le> n \<Longrightarrow> length body \<le> n \<and> (\<exists>rest. body = b @ rest)"
proof (induction cs arbitrary: b)
  case (Cons c cs)
  then obtain chunk where c: "c = Ok chunk" "length b + length chunk \<le> n" "read_chunks n (b @ chunk) cs = Ok body"
    by (cases c) (auto split: if_splits)
  then show ?case using Cons.IH [OF c(3)] by auto
qed simp

lemma read_envelope_response_Ok:
  assumes "read_aitp_envelope_response E resp n = Ok envelope"
  shows "is_success (hr_status resp) \<and>
    (\<exists>body c. read_chunks n [] (hr_chunks resp) = Ok body \<and> length body \<le> n \<and> checked_from_slice E body = Ok c \<and>
       parse_envelope_wire E c = Ok envelope)"
  using assms
  by (auto simp: read_aitp_envelope_response_def read_aitp_response_body_def interpret_aitp_envelope_response_def
      validate_aitp_response_shape_def Let_def split: if_splits sum.splits)

lemma read_payload_Ok:
  "read_payload object members de envelope = Ok p \<longleftrightarrow>
     check_members object (ev_payload envelope) members = Ok () \<and> de (ev_payload envelope) = Ok p"
  by (auto simp: read_payload_def)

subsection \<open>Sessions\<close>

lemma send_hello_Ok:
  assumes "send_hello E config inp m = Ok (st, envelope)"
  obtains hello where "check_identity_type_compatibility m (presented_type (ic_identity_mode config)) = Ok ()"
    and "initiator_start E (ii_state_id inp) (ii_nonce inp) (initiator_peer_config config no_tct_yet (ii_start_now inp))
      (into_presented_identity (ic_identity_mode config)) (m_aid m) (ii_hello_id inp) (ii_hello_time inp) (ic_requested_grants config) =
      Ok (st, hello)"
    and "sign_envelope_with E (ic_signing_key config) MutualHello (ser_hello hello) (ii_hello_id inp) (ii_hello_time inp) = Ok envelope"
  using assms by (auto simp: send_hello_def)

lemma initiator_start_state:
  assumes "initiator_start E sid rng cfg identity peer i t req = Ok (st, hello)"
  shows "st = AwaitingHelloAck \<lparr>ah_session_id = sid, ah_my_pop_nonce = mh_pop_nonce hello, ah_intended_peer_aid = peer\<rparr> \<and>
    fresh_nonce E rng = Ok (mh_pop_nonce hello)"
  using assms by (auto simp: initiator_start_def)

lemma on_hello_ack_Ok:
  assumes "on_hello_ack E random (AwaitingHelloAck a) envelope ack cfg = (Ok commit, st')" "wf_aid E (ah_intended_peer_aid a)"
  obtains key where "agent_id (ev_sender envelope) = ah_intended_peer_aid a" "mha_pop_nonce_echo ack = ah_my_pop_nonce a"
    and "authenticated E (ah_intended_peer_aid a) envelope (mha_manifest ack) (mha_identity ack) (mha_pop_nonce ack) cfg key"
    and "st' = AwaitingCommitAck
      \<lparr>aca_session_id = ah_session_id a, aca_my_pop_nonce = ah_my_pop_nonce a, aca_peer_aid = ah_intended_peer_aid a,
       aca_peer_pubkey = key, aca_peer_manifest_expires_at = m_expires_at (mha_manifest ack),
       aca_peer_offered_capabilities = m_offered_capabilities (mha_manifest ack),
       aca_peer_revocation_list_uri = manifest_revocation_uri (mha_manifest ack)\<rparr>"
  using assms authenticatedI [of E "mha_manifest ack" envelope "mha_identity ack" "mha_pop_nonce ack" cfg]
  by (auto simp: on_hello_ack_def split: if_splits sum.splits)

lemma receive_hello_ack_Ok:
  assumes "receive_hello_ack E config inp (AwaitingHelloAck a) resp = Ok (key, st', commit_envelope)" "wf_aid E (ah_intended_peer_aid a)"
  obtains envelope ack commit where "read_aitp_envelope_response E resp MAX_RESPONSE_BYTES = Ok envelope"
    and "vk_from_aid E (ah_intended_peer_aid a) = Ok key" "verify_envelope_signature E envelope key = Ok ()"
    and "de_hello_ack E (ev_payload envelope) = Ok ack" "mha_pop_nonce_echo ack = ah_my_pop_nonce a"
    and "authenticated E (ah_intended_peer_aid a) envelope (mha_manifest ack) (mha_identity ack) (mha_pop_nonce ack)
      (initiator_peer_config config no_tct_yet (ii_ack_now inp)) key"
    and "st' = AwaitingCommitAck
      \<lparr>aca_session_id = ah_session_id a, aca_my_pop_nonce = ah_my_pop_nonce a, aca_peer_aid = ah_intended_peer_aid a,
       aca_peer_pubkey = key, aca_peer_manifest_expires_at = m_expires_at (mha_manifest ack),
       aca_peer_offered_capabilities = m_offered_capabilities (mha_manifest ack),
       aca_peer_revocation_list_uri = manifest_revocation_uri (mha_manifest ack)\<rparr>"
    and "sign_envelope_with E (ic_signing_key config) MutualCommit (ser_commit commit) (ii_commit_id inp) (ii_commit_time inp) = Ok commit_envelope"
proof -
  obtain envelope ack commit where read: "read_aitp_envelope_response E resp MAX_RESPONSE_BYTES = Ok envelope"
    and key: "vk_from_aid E (agent_id (ev_sender envelope)) = Ok key" "verify_envelope_signature E envelope key = Ok ()"
    and ack: "de_hello_ack E (ev_payload envelope) = Ok ack"
    and step: "on_hello_ack E (ii_token_id inp) (AwaitingHelloAck a) envelope ack (initiator_peer_config config no_tct_yet (ii_ack_now inp)) =
      (Ok commit, st')"
    and sign: "sign_envelope_with E (ic_signing_key config) MutualCommit (ser_commit commit) (ii_commit_id inp) (ii_commit_time inp) =
      Ok commit_envelope"
    using assms(1) by (auto simp: receive_hello_ack_def read_payload_Ok Let_def case_prod_beta prod_eq_iff)
  obtain key' where k: "agent_id (ev_sender envelope) = ah_intended_peer_aid a" "mha_pop_nonce_echo ack = ah_my_pop_nonce a"
      "authenticated E (ah_intended_peer_aid a) envelope (mha_manifest ack) (mha_identity ack) (mha_pop_nonce ack)
        (initiator_peer_config config no_tct_yet (ii_ack_now inp)) key'"
      "st' = AwaitingCommitAck
        \<lparr>aca_session_id = ah_session_id a, aca_my_pop_nonce = ah_my_pop_nonce a, aca_peer_aid = ah_intended_peer_aid a,
         aca_peer_pubkey = key', aca_peer_manifest_expires_at = m_expires_at (mha_manifest ack),
         aca_peer_offered_capabilities = m_offered_capabilities (mha_manifest ack),
         aca_peer_revocation_list_uri = manifest_revocation_uri (mha_manifest ack)\<rparr>"
    by (rule on_hello_ack_Ok [OF step assms(2)])
  then have "key' = key" using key(1) by (simp add: authenticated_def)
  then show thesis using that read key ack sign k by simp
qed

lemma receive_commit_ack_Ok:
  assumes "receive_commit_ack E config inp nw peer key (AwaitingCommitAck a) resp = Ok ch"
  obtains envelope ack where "read_aitp_envelope_response E resp MAX_RESPONSE_BYTES = Ok envelope"
    and "verify_envelope_signature E envelope key = Ok ()" "de_commit_ack (ev_payload envelope) = Ok ack"
    and "agent_id (ev_sender envelope) = aca_peer_aid a" "mca_pop_nonce_echo ack = aca_my_pop_nonce a"
    and "verify_pop E (aca_peer_pubkey a) (aca_my_pop_nonce a) (mca_pop_signature ack) = Ok ()"
    and "received_tct_ok E (mca_tct ack) (mca_grant_voucher ack)
      (initiator_peer_config config (nw_prepare nw peer (aca_peer_revocation_list_uri a) (ii_prepare_now inp)) (ii_finish_now inp))
      (aca_peer_aid a) (Some (aca_peer_manifest_expires_at a)) (aca_peer_offered_capabilities a) (vt_claims (ch_tct ch))
      (ch_effective_grants ch)"
proof -
  let ?cfg = "initiator_peer_config config (nw_prepare nw peer (aca_peer_revocation_list_uri a) (ii_prepare_now inp)) (ii_finish_now inp)"
  obtain envelope ack where read: "read_aitp_envelope_response E resp MAX_RESPONSE_BYTES = Ok envelope"
    and sig: "verify_envelope_signature E envelope key = Ok ()" and ack: "de_commit_ack (ev_payload envelope) = Ok ack"
    and step: "fst (on_commit_ack E (AwaitingCommitAck a) envelope ack ?cfg) = Ok ch"
    using assms by (auto simp: receive_commit_ack_def read_payload_Ok Let_def initiator_peer_revocation_list_uri_def)
  obtain st' where "on_commit_ack E (AwaitingCommitAck a) envelope ack ?cfg = (Ok ch, st')"
    using step by (metis prod.collapse)
  then show thesis
    using that read sig ack unfolding on_commit_ack_Ok verify_received_tct_Ok by auto
qed

text \<open>
  A session that the driver returns is one with the peer it set out for, whatever the network
  answers to it. The peer is the one whose Manifest was fetched, and the key in the session is the
  key of its AID. Both responses carry a signature of that key; the first authenticated the peer
  against the trust mode and echoes the nonce drawn for this run, the second proves possession of the
  key over that nonce and carries the held token, which the peer issued to this agent and which
  the revocation snapshot of that peer admits.
\<close>

theorem facade_session_authenticated:
  assumes "nw_fetch nw = Some m" "wf_aid E (m_aid m)" "run_initiator_handshake E config nw inp = Ok session"
  shows "sc_peer_aid session = m_aid m \<and> vk_from_aid E (m_aid m) = Ok (sc_peer_pubkey session) \<and>
    (\<exists>nonce envelope hello_ack envelope' commit_ack.
       fresh_nonce E (ii_nonce inp) = Ok nonce \<and> de_hello_ack E (ev_payload envelope) = Ok hello_ack \<and>
       de_commit_ack (ev_payload envelope') = Ok commit_ack \<and>
       agent_id (ev_sender envelope) = m_aid m \<and> verify_envelope_signature E envelope (sc_peer_pubkey session) = Ok () \<and>
       agent_id (ev_sender envelope') = m_aid m \<and> verify_envelope_signature E envelope' (sc_peer_pubkey session) = Ok () \<and>
       mha_pop_nonce_echo hello_ack = nonce \<and> mca_pop_nonce_echo commit_ack = nonce \<and>
       authenticated E (m_aid m) envelope (mha_manifest hello_ack) (mha_identity hello_ack) (mha_pop_nonce hello_ack)
         (initiator_peer_config config no_tct_yet (ii_ack_now inp)) (sc_peer_pubkey session) \<and>
       verify_pop E (sc_peer_pubkey session) nonce (mca_pop_signature commit_ack) = Ok () \<and>
       received_tct_ok E (mca_tct commit_ack) (mca_grant_voucher commit_ack)
         (initiator_peer_config config (nw_prepare nw (m_aid m) (manifest_revocation_uri (mha_manifest hello_ack)) (ii_prepare_now inp))
           (ii_finish_now inp))
         (m_aid m) (Some (m_expires_at (mha_manifest hello_ack))) (m_offered_capabilities (mha_manifest hello_ack))
         (vt_claims (sc_held_tct session)) (sc_effective_grants session))"
proof -
  obtain st hello_env resp key st' commit_env resp' ch where hello: "send_hello E config inp m = Ok (st, hello_env)"
    and rack: "receive_hello_ack E config inp st resp = Ok (key, st', commit_env)"
    and rca: "receive_commit_ack E config inp nw (m_aid m) key st' resp' = Ok ch"
    and session: "session = \<lparr>sc_peer_aid = m_aid m, sc_peer_pubkey = key, sc_held_tct = ch_tct ch,
        sc_grant_voucher = ch_grant_voucher ch, sc_effective_grants = ch_effective_grants ch\<rparr>"
    using assms(1,3) by (auto simp: run_initiator_handshake_def Let_def)
  obtain h where start: "initiator_start E (ii_state_id inp) (ii_nonce inp) (initiator_peer_config config no_tct_yet (ii_start_now inp))
      (into_presented_identity (ic_identity_mode config)) (m_aid m) (ii_hello_id inp) (ii_hello_time inp) (ic_requested_grants config) =
      Ok (st, h)"
    by (rule send_hello_Ok [OF hello])
  let ?a = "\<lparr>ah_session_id = ii_state_id inp, ah_my_pop_nonce = mh_pop_nonce h, ah_intended_peer_aid = m_aid m\<rparr>"
  have st: "st = AwaitingHelloAck ?a" and nonce: "fresh_nonce E (ii_nonce inp) = Ok (mh_pop_nonce h)"
    using initiator_start_state [OF start] by auto
  obtain env ack where a: "vk_from_aid E (m_aid m) = Ok key" "verify_envelope_signature E env key = Ok ()"
      "de_hello_ack E (ev_payload env) = Ok ack" "mha_pop_nonce_echo ack = mh_pop_nonce h"
      "authenticated E (m_aid m) env (mha_manifest ack) (mha_identity ack) (mha_pop_nonce ack)
         (initiator_peer_config config no_tct_yet (ii_ack_now inp)) key"
      "st' = AwaitingCommitAck
        \<lparr>aca_session_id = ii_state_id inp, aca_my_pop_nonce = mh_pop_nonce h, aca_peer_aid = m_aid m,
         aca_peer_pubkey = key, aca_peer_manifest_expires_at = m_expires_at (mha_manifest ack),
         aca_peer_offered_capabilities = m_offered_capabilities (mha_manifest ack),
         aca_peer_revocation_list_uri = manifest_revocation_uri (mha_manifest ack)\<rparr>"
    using receive_hello_ack_Ok [OF rack [unfolded st], simplified, OF assms(2)] by blast
  obtain env' ack' where b: "verify_envelope_signature E env' key = Ok ()" "de_commit_ack (ev_payload env') = Ok ack'"
      "agent_id (ev_sender env') = m_aid m" "mca_pop_nonce_echo ack' = mh_pop_nonce h"
      "verify_pop E key (mh_pop_nonce h) (mca_pop_signature ack') = Ok ()"
      "received_tct_ok E (mca_tct ack') (mca_grant_voucher ack')
        (initiator_peer_config config (nw_prepare nw (m_aid m) (manifest_revocation_uri (mha_manifest ack)) (ii_prepare_now inp))
          (ii_finish_now inp))
        (m_aid m) (Some (m_expires_at (mha_manifest ack))) (m_offered_capabilities (mha_manifest ack)) (vt_claims (ch_tct ch))
        (ch_effective_grants ch)"
    using receive_commit_ack_Ok [OF rca [unfolded a(6)], simplified] by blast
  have "agent_id (ev_sender env) = m_aid m" using a(5) by (simp add: authenticated_def)
  with a(1-5) b nonce show ?thesis unfolding session by auto
qed

end
