(* ===== verification/Transport_Server_Runs.thy ===== *)
theory Transport_Server_Runs
  imports Transport_Server
begin

text \<open>
  Runs of the handshake server. A request is handled in sections: it is received (replay guard and
  rate limiter), then the table of handshakes is changed under its lock. Sections of different
  requests interleave freely, and the sweeper may run between them. The handlers of
  \<open>Transport_Server\<close> are the runs of one request without interruption.

  Shown here: a message that was received is not received again while its window is open; a COMMIT
  is answered only for a peer that an earlier HELLO of the same run authenticated; which failures
  are the server's own; and what a sender that is not an object does to the limit per AID.
\<close>

subsection \<open>The members that the first steps read\<close>

lemma de_i64_as_i64: "de_i64 j = Ok t \<Longrightarrow> json_as_i64 j = Some t"
  by (cases j) (auto split: if_splits)

lemma de_v4_as_uuid: "de_v4 E j = Ok i \<Longrightarrow> Option.bind (json_as_str j) (uuid_parse_str E) = Some i"
  by (cases j) (auto simp: de_v4_def parse_v4_def split: if_splits)

text \<open>An envelope that parses has the identifier and the time that the first steps read of it.\<close>

lemma parsed_raw_members:
  assumes "parse_envelope_wire E c = Ok e"
  shows "raw_message_id E (Some (as_value c)) = Some (ev_message_id e)"
    and "raw_timestamp (Some (as_value c)) = Some (ev_timestamp e)"
    and "0 \<le> sint (ev_timestamp e)" "is_JObj (ev_payload e)"
proof -
  have "de_envelope E (as_value c) = Ok e" "is_JObj (as_value c)" "check_envelope_structure e = Ok ()"
    using assms by (auto simp: parse_envelope_wire_def Let_def split: if_splits)
  then show "raw_message_id E (Some (as_value c)) = Some (ev_message_id e)"
    and "raw_timestamp (Some (as_value c)) = Some (ev_timestamp e)"
    and "0 \<le> sint (ev_timestamp e)" "is_JObj (ev_payload e)"
    by (cases "as_value c",
        auto simp: de_envelope_def de_struct_def de_field_def raw_message_id_def raw_timestamp_def check_envelope_structure_Ok
          dest: de_i64_as_i64 de_v4_as_uuid split: option.splits)+
qed

lemma accept_envelope_Ok:
  "accept_envelope E rq checked now expected = Ok e \<longleftrightarrow>
     (\<exists>c. checked = Ok c \<and> parse_envelope_wire E c = Ok e \<and> ev_message_type e = expected \<and>
        starts_with ''application/json'' (map ascii_lower (case rq_content_type rq of Some t \<Rightarrow> t | None \<Rightarrow> [])) \<and>
        is_within_tolerance_of (ev_timestamp e) now DEFAULT_TIMESTAMP_TOLERANCE)"
  by (cases checked) (auto simp: accept_envelope_def Let_def parsed_raw_members)

subsection \<open>Receiving\<close>

abbreviation guard_key_seen :: "externals \<Rightarrow> server_state \<Rightarrow> uuid \<Rightarrow> instant option" where
  "guard_key_seen E st mid \<equiv> ss_seen st (uuid_hyphenated E mid)"

abbreviation message_expiry :: "server \<Rightarrow> request_input \<Rightarrow> instant" where
  "message_expiry sv inp \<equiv> guard_expiry (in_range inp) (sv_replay_window sv) (in_guard_now inp)"

lemma guard_keeps: "seen k = Some e \<Longrightarrow> now < e \<Longrightarrow> fst (check_and_record lim seen key ttl now) k = Some e"
  by (auto simp: check_and_record_def Let_def map_retain_eq_None)

lemma receive_envelope_state:
  "ss_sessions (fst (receive_envelope E sv st rq inp expected)) = ss_sessions st \<and>
   (ss_seen (fst (receive_envelope E sv st rq inp expected)) = ss_seen st \<or>
    (\<exists>key. ss_seen (fst (receive_envelope E sv st rq inp expected)) =
       fst (check_and_record (in_range inp) (ss_seen st) key (sv_replay_window sv) (in_guard_now inp))))"
  by (auto simp: receive_envelope_def check_and_record_message_id_def Let_def case_prod_beta
      split: sum.splits option.splits rate_limit_outcome.splits)

lemma receive_keeps_seen:
  assumes "guard_key_seen E st mid = Some e" "in_guard_now inp < e"
  shows "guard_key_seen E (fst (receive_envelope E sv st rq inp expected)) mid = Some e"
  using receive_envelope_state [of E sv st rq inp expected] guard_keeps assms by metis

text \<open>What it takes for an envelope to be received, and what it leaves in the guard.\<close>

lemma receive_envelope_Ok:
  assumes "receive_envelope E sv st rq inp expected = (st', Ok e)"
  shows "ev_message_type e = expected" "is_within_tolerance_of (ev_timestamp e) (in_received_at inp) DEFAULT_TIMESTAMP_TOLERANCE"
    and "\<exists>body c. read_body_with_timeout rq = Ok body \<and> checked_from_slice E body = Ok c \<and> parse_envelope_wire E c = Ok e"
    and "\<forall>t. guard_key_seen E st (ev_message_id e) = Some t \<longrightarrow> t \<le> in_guard_now inp"
    and "guard_key_seen E st' (ev_message_id e) = Some (message_expiry sv inp)"
proof -
  obtain body where body: "read_body_with_timeout rq = Ok body"
    using assms by (auto simp: receive_envelope_def split: sum.splits)
  let ?mid = "raw_message_id E (case checked_from_slice E body of Ok c \<Rightarrow> Some (as_value c) | Err _ \<Rightarrow> None)"
  have acc: "accept_envelope E rq (checked_from_slice E body) (in_received_at inp) expected = Ok e"
    using assms body
    by (auto simp: receive_envelope_def Let_def case_prod_beta split: sum.splits option.splits rate_limit_outcome.splits)
  then obtain c where c: "checked_from_slice E body = Ok c" "parse_envelope_wire E c = Ok e" "ev_message_type e = expected"
      "is_within_tolerance_of (ev_timestamp e) (in_received_at inp) DEFAULT_TIMESTAMP_TOLERANCE"
    unfolding accept_envelope_Ok by blast
  then show "ev_message_type e = expected" "is_within_tolerance_of (ev_timestamp e) (in_received_at inp) DEFAULT_TIMESTAMP_TOLERANCE"
    and "\<exists>body c. read_body_with_timeout rq = Ok body \<and> checked_from_slice E body = Ok c \<and> parse_envelope_wire E c = Ok e"
    using body by blast+
  have mid: "?mid = Some (ev_message_id e)" using c by (simp add: parsed_raw_members)
  have "snd (check_and_record (in_range inp) (ss_seen st) (uuid_hyphenated E (ev_message_id e)) (sv_replay_window sv) (in_guard_now inp))"
    and st': "ss_seen st' = fst (check_and_record (in_range inp) (ss_seen st) (uuid_hyphenated E (ev_message_id e)) (sv_replay_window sv) (in_guard_now inp))"
    using assms body mid
    by (auto simp: receive_envelope_def check_and_record_message_id_def Let_def case_prod_beta
        split: sum.splits option.splits rate_limit_outcome.splits)
  then show "\<forall>t. guard_key_seen E st (ev_message_id e) = Some t \<longrightarrow> t \<le> in_guard_now inp"
    and "guard_key_seen E st' (ev_message_id e) = Some (message_expiry sv inp)"
    by (auto simp: check_and_record_def Let_def map_retain_eq_None split: if_splits)
qed

subsection \<open>Runs\<close>

text \<open>
  A section that was executed, with the data it was executed on. A request that was received
  continues at any later moment, after sections of other requests; nothing but its own checks
  keeps it from doing so.
\<close>

datatype server_event =
    Received message_type request_input aitp_envelope
  | Refused request_input response_error
  | Opened request_input aitp_envelope mutual_hello_ack_payload
  | Committed request_input aitp_envelope "(response_error, mutual_commit_ack_payload) result"
  | Missed request_input
  | Swept

type_synonym session_order = "(uuid \<times> responder_state session_entry) list \<Rightarrow> (uuid \<times> responder_state session_entry) list"

inductive server_run :: "externals \<Rightarrow> session_order \<Rightarrow> server \<Rightarrow> server_event list \<Rightarrow> server_state \<Rightarrow> bool"
  for E iter sv where
  started: "server_run E iter sv [] server_state_new"
| received: "server_run E iter sv evs st \<Longrightarrow> receive_envelope E sv st rq inp expected = (st', Ok envelope) \<Longrightarrow>
    server_run E iter sv (evs @ [Received expected inp envelope]) st'"
| refused: "server_run E iter sv evs st \<Longrightarrow> receive_envelope E sv st rq inp expected = (st', Err e) \<Longrightarrow>
    server_run E iter sv (evs @ [Refused inp e]) st'"
| opened: "server_run E iter sv evs st \<Longrightarrow> Received MutualHello inp envelope \<in> set evs \<Longrightarrow>
    respond_hello E sv envelope inp = Ok (responder, ack) \<Longrightarrow>
    server_run E iter sv (evs @ [Opened inp envelope ack])
      (st\<lparr>ss_sessions := session_insert iter (sv_session_ttl sv) (sv_max_sessions sv) (ss_sessions st) (in_session_id inp) responder
            (in_sweep_now inp) (in_table_now inp)\<rparr>)"
| committed: "server_run E iter sv evs st \<Longrightarrow> Received MutualCommit inp envelope \<in> set evs \<Longrightarrow>
    session_take (sv_session_ttl sv) (ss_sessions st) session_id (in_table_now inp) (in_sweep_now inp) = (sessions, SessionTaken responder) \<Longrightarrow>
    server_run E iter sv (evs @ [Committed inp envelope (respond_commit E sv responder envelope inp)]) (st\<lparr>ss_sessions := sessions\<rparr>)"
| missed: "server_run E iter sv evs st \<Longrightarrow>
    session_take (sv_session_ttl sv) (ss_sessions st) session_id (in_table_now inp) (in_sweep_now inp) = (sessions, found) \<Longrightarrow>
    \<forall>responder. found \<noteq> SessionTaken responder \<Longrightarrow> server_run E iter sv (evs @ [Missed inp]) (st\<lparr>ss_sessions := sessions\<rparr>)"
| swept: "server_run E iter sv evs st \<Longrightarrow>
    server_run E iter sv (evs @ [Swept]) (st\<lparr>ss_sessions := sweep_expired (ss_sessions st) (sv_session_ttl sv) now\<rparr>)"

text \<open>The handlers are runs.\<close>

lemma handle_hello_run:
  assumes "server_run E iter sv evs st" "handle_hello E iter sv st rq inp = (st', out)"
  shows "\<exists>evs'. server_run E iter sv (evs @ evs') st' \<and>
    (\<forall>reply. out = Ok reply \<longrightarrow> (\<exists>envelope ack. Opened inp envelope ack \<in> set evs' \<and> rp_session reply = Some (in_session_id inp) \<and>
       ev_payload (rp_envelope reply) = ser_hello_ack ack))"
proof -
  obtain st1 rec where rec: "receive_envelope E sv st rq inp MutualHello = (st1, rec)" by fastforce
  show ?thesis
  proof (cases rec)
    case (Inl e)
    then have "st' = st1" "out = Err e" using assms(2) rec by (auto simp: handle_hello_def)
    then show ?thesis using server_run.refused [OF assms(1) rec [unfolded Inl]] by fastforce
  next
    case (Inr env)
    note r1 = server_run.received [OF assms(1) rec [unfolded Inr]]
    show ?thesis
    proof (cases "respond_hello E sv env inp")
      case (Inl e)
      then have "st' = st1" "out = Err e" using assms(2) rec Inr by (auto simp: handle_hello_def)
      then show ?thesis using r1 by fastforce
    next
      case ok: (Inr ra)
      obtain responder ack where ra: "ra = (responder, ack)" by fastforce
      have "server_run E iter sv ((evs @ [Received MutualHello inp env]) @ [Opened inp env ack]) st'"
        using server_run.opened [OF r1 _ ok [unfolded ra]] assms(2) rec Inr ok ra by (auto simp: handle_hello_def)
      moreover have "rp_session reply = Some (in_session_id inp) \<and> ev_payload (rp_envelope reply) = ser_hello_ack ack" if "out = Ok reply" for reply
        using that assms(2) rec Inr ok ra
        by (auto simp: handle_hello_def sign_envelope_with_def sign_prepared_envelope_def envelope_unsigned_def)
      ultimately show ?thesis by (intro exI [of _ "[Received MutualHello inp env, Opened inp env ack]"]) auto
    qed
  qed
qed

lemma handle_commit_run:
  assumes "server_run E iter sv evs st" "handle_commit E sv st rq inp = (st', out)"
  shows "\<exists>evs'. server_run E iter sv (evs @ evs') st' \<and>
    (\<forall>reply. out = Ok reply \<longrightarrow> (\<exists>envelope ack. Committed inp envelope (Ok ack) \<in> set evs' \<and> rp_session reply = None \<and>
       ev_payload (rp_envelope reply) = ser_commit_ack ack))"
proof -
  obtain st1 rec where rec: "receive_envelope E sv st rq inp MutualCommit = (st1, rec)" by fastforce
  show ?thesis
  proof (cases rec)
    case (Inl e)
    then have "st' = st1" "out = Err e" using assms(2) rec by (auto simp: handle_commit_def)
    then show ?thesis using server_run.refused [OF assms(1) rec [unfolded Inl]] by fastforce
  next
    case (Inr env)
    note r1 = server_run.received [OF assms(1) rec [unfolded Inr]]
    show ?thesis
    proof (cases "Option.bind (rq_session_header rq) (uuid_parse_str E)")
      case None
      then have "st' = st1" "out = Err (response_aitp EcInvalidEnvelope)" using assms(2) rec Inr by (auto simp: handle_commit_def)
      then show ?thesis using r1 by fastforce
    next
      case (Some sid)
      obtain sessions found where take: "session_take (sv_session_ttl sv) (ss_sessions st1) sid (in_table_now inp) (in_sweep_now inp) = (sessions, found)"
        by fastforce
      have st': "st' = st1\<lparr>ss_sessions := sessions\<rparr>"
        using assms(2) rec Inr Some take by (auto simp: handle_commit_def Let_def split: session_lookup.splits)
      show ?thesis
      proof (cases "\<exists>responder. found = SessionTaken responder")
        case False
        then have "\<exists>e. out = Err e" using assms(2) rec Inr Some take by (auto simp: handle_commit_def Let_def split: session_lookup.splits)
        then show ?thesis using server_run.missed [OF r1 take] False st' by fastforce
      next
        case True
        then obtain responder where f: "found = SessionTaken responder" by blast
        have "server_run E iter sv ((evs @ [Received MutualCommit inp env]) @ [Committed inp env (respond_commit E sv responder env inp)]) st'"
          using server_run.committed [OF r1 _ take [unfolded f]] st' by simp
        moreover have "\<exists>ack. respond_commit E sv responder env inp = Ok ack \<and> rp_session reply = None \<and> ev_payload (rp_envelope reply) = ser_commit_ack ack"
          if "out = Ok reply" for reply
          using that assms(2) rec Inr Some take f
          by (auto simp: handle_commit_def Let_def sign_envelope_with_def sign_prepared_envelope_def envelope_unsigned_def)
        ultimately show ?thesis
          by (intro exI [of _ "[Received MutualCommit inp env, Committed inp env (respond_commit E sv responder env inp)]"]) fastforce
      qed
    qed
  qed
qed

inductive_cases server_run_last: "server_run E iter sv (evs @ [ev]) st"

text \<open>How one section changes the guard, by the last event of a run.\<close>

lemma server_run_prefix: "server_run E iter sv (evs @ evs') st \<Longrightarrow> \<exists>st'. server_run E iter sv evs st'"
proof (induction evs' arbitrary: st rule: rev_induct)
  case (snoc ev evs')
  then have "server_run E iter sv ((evs @ evs') @ [ev]) st" by simp
  then obtain st' where "server_run E iter sv (evs @ evs') st'" by cases auto
  then show ?case by (rule snoc.IH)
qed auto

fun guard_reading :: "server_event \<Rightarrow> instant option" where
  "guard_reading (Received _ inp _) = Some (in_guard_now inp)"
| "guard_reading (Refused inp _) = Some (in_guard_now inp)"
| "guard_reading _ = None"

definition read_before :: "instant \<Rightarrow> server_event list \<Rightarrow> bool" where
  "read_before t evs \<longleftrightarrow> (\<forall>ev\<in>set evs. case guard_reading ev of Some now \<Rightarrow> now < t | None \<Rightarrow> True)"

lemma server_run_seen:
  assumes "server_run E iter sv ((evs @ [Received t inp envelope]) @ mid) st" "read_before (message_expiry sv inp) mid"
  shows "guard_key_seen E st (ev_message_id envelope) = Some (message_expiry sv inp)"
  using assms
proof (induction mid arbitrary: st rule: rev_induct)
  case Nil
  then have "server_run E iter sv (evs @ [Received t inp envelope]) st" by simp
  then show ?case by (cases rule: server_run_last) (auto dest: receive_envelope_Ok(5))
next
  case (snoc ev mid)
  have r: "server_run E iter sv (((evs @ [Received t inp envelope]) @ mid) @ [ev]) st" using snoc.prems(1) by simp
  have b: "read_before (message_expiry sv inp) mid" "guard_reading ev = Some now \<Longrightarrow> now < message_expiry sv inp" for now
    using snoc.prems(2) by (auto simp: read_before_def)
  have keep: ?case if "server_run E iter sv ((evs @ [Received t inp envelope]) @ mid) st0" "in_guard_now inp' < message_expiry sv inp"
      "fst (receive_envelope E sv st0 rq inp' expected) = st" for st0 rq inp' expected
    using receive_keeps_seen [OF snoc.IH [OF that(1) b(1)] that(2), of sv rq expected] that(3) by simp
  from r show ?case
  proof cases
    case (received evs0 st0 rq inp' expected envelope')
    then show ?thesis using b(2) by (intro keep [of st0 inp' rq expected]) auto
  next
    case (refused evs0 st0 rq inp' expected e)
    then show ?thesis using b(2) by (intro keep [of st0 inp' rq expected]) auto
  qed (use snoc.IH b(1) in auto)
qed

subsection \<open>Where the sessions come from\<close>

lemma set_update_subset: "set (AList.update k v al) \<subseteq> insert (k, v) (set al)"
  by (induction al) auto

lemma session_insert_subset:
  "set (session_insert iter ttl cap s i r now created) \<subseteq> insert (i, \<lparr>se_responder = r, se_created_at = created\<rparr>) (set s)"
proof -
  have "set (evict_to_capacity iter m n) \<subseteq> set m" for m :: "'a sessions" and n
    by (auto simp: evict_to_capacity_def evict_oldest_to_capacity_def Let_def fold_delete)
  then show ?thesis
    using set_update_subset by (fastforce simp: session_insert_def Let_def sweep_expired_def)
qed

lemma session_take_subset:
  assumes "session_take ttl s i now now' = (s', found)"
  shows "set s' \<subseteq> set s" and "found = SessionTaken r \<Longrightarrow> \<exists>e. (i, e) \<in> set s \<and> se_responder e = r"
  using assms
  by (auto simp: session_take_def Let_def sweep_expired_def AList.delete_eq dest!: map_of_SomeD split: if_splits option.splits)

definition opened_by_hello :: "externals \<Rightarrow> server \<Rightarrow> server_event list \<Rightarrow> responder_state \<Rightarrow> bool" where
  "opened_by_hello E sv evs responder \<longleftrightarrow>
     (\<exists>inp envelope ack. Received MutualHello inp envelope \<in> set evs \<and> Opened inp envelope ack \<in> set evs \<and>
        respond_hello E sv envelope inp = Ok (responder, ack))"

lemma opened_by_hello_append: "opened_by_hello E sv evs r \<Longrightarrow> opened_by_hello E sv (evs @ evs') r"
  by (auto simp: opened_by_hello_def)

lemma server_run_sessions: "server_run E iter sv evs st \<Longrightarrow> (i, e) \<in> set (ss_sessions st) \<Longrightarrow> opened_by_hello E sv evs (se_responder e)"
proof (induction arbitrary: i e rule: server_run.induct)
  case started
  then show ?case by (simp add: server_state_new_def)
next
  case (received evs st rq inp expected st' envelope)
  then have "ss_sessions st' = ss_sessions st" using receive_envelope_state [of E sv st rq inp expected] by simp
  with received show ?case by (auto intro: opened_by_hello_append)
next
  case (refused evs st rq inp expected st' x)
  then have "ss_sessions st' = ss_sessions st" using receive_envelope_state [of E sv st rq inp expected] by simp
  with refused show ?case by (auto intro: opened_by_hello_append)
next
  case (opened evs st inp envelope responder ack)
  have "(i, e) \<in> insert (in_session_id inp, \<lparr>se_responder = responder, se_created_at = in_table_now inp\<rparr>) (set (ss_sessions st))"
    using opened.prems session_insert_subset by fastforce
  then consider "(i, e) \<in> set (ss_sessions st)" | "se_responder e = responder" by auto
  then show ?case
  proof cases
    case 1
    then show ?thesis by (intro opened_by_hello_append opened.IH)
  next
    case 2
    then show ?thesis using opened.hyps by (auto simp: opened_by_hello_def)
  qed
next
  case (committed evs st inp envelope session_id sessions responder)
  then show ?case using session_take_subset(1) by (fastforce intro: opened_by_hello_append)
next
  case (missed evs st session_id inp sessions found)
  then show ?case using session_take_subset(1) by (fastforce intro: opened_by_hello_append)
next
  case (swept evs st now)
  then show ?case by (auto simp: sweep_expired_def intro: opened_by_hello_append)
qed

subsection \<open>Answered requests\<close>

lemma open_payload_Ok:
  "open_payload E object members de envelope = Ok p \<longleftrightarrow>
     check_members object (ev_payload envelope) members = Ok () \<and> de (ev_payload envelope) = Ok p \<and>
     (\<exists>key. vk_from_aid E (agent_id (ev_sender envelope)) = Ok key \<and> verify_envelope_signature E envelope key = Ok ())"
  by (auto simp: open_payload_def)

lemma de_hello_aid: "de_hello E j = Ok hello \<Longrightarrow> wf_aid E (m_aid (mh_manifest hello))"
  by (auto simp: de_hello_def de_manifest_def de_field_def split: option.splits) (rule de_aid_wf)

abbreviation hello_config :: "server \<Rightarrow> request_input \<Rightarrow> peer_config" where
  "hello_config sv inp \<equiv> peer_config_of sv no_tct_at_hello (in_config_now inp)"

abbreviation commit_config :: "server \<Rightarrow> manifest \<Rightarrow> request_input \<Rightarrow> peer_config" where
  "commit_config sv m inp \<equiv>
     peer_config_of sv (sv_prepare_revocation sv (m_aid m) (manifest_revocation_uri m) (in_prepare_now inp)) (in_config_now inp)"

lemma respond_hello_Ok:
  assumes "respond_hello E sv envelope inp = Ok (responder, ack)"
  obtains hello identity where
    "open_payload E ''MutualHelloPayload'' MUTUAL_HELLO_PAYLOAD_MEMBERS (de_hello E) envelope = Ok hello"
    and "wf_aid E (m_aid (mh_manifest hello))"
    and "on_hello E (in_state_id inp) (in_pop_nonce inp) envelope hello identity (in_ack_id inp) (in_ack_time inp)
      (hello_config sv inp) (sv_requested_grants sv) = Ok (responder, ack)"
  using assms by (auto simp: respond_hello_def open_payload_Ok dest: de_hello_aid)

text \<open>The responder of a session remembers the AID and the revocation list of the Manifest in its HELLO.\<close>

lemma on_hello_peer:
  assumes "on_hello E sid rng envelope hello identity ack_id ack_time cfg requested = Ok (responder, ack)"
  shows "responder_peer_aid responder = Some (m_aid (mh_manifest hello))"
    and "responder_peer_revocation_list_uri responder = manifest_revocation_uri (mh_manifest hello)"
  using assms by (auto simp: on_hello_def responder_peer_aid_def responder_peer_revocation_list_uri_def)

lemma respond_commit_Ok:
  assumes "respond_commit E sv responder envelope inp = Ok ack"
    and "responder_peer_aid responder = Some (m_aid m)" "responder_peer_revocation_list_uri responder = manifest_revocation_uri m"
  obtains commit ch st where
    "open_payload E ''MutualCommitPayload'' MUTUAL_COMMIT_PAYLOAD_MEMBERS de_commit envelope = Ok commit"
    and "on_commit E (in_token_id inp) responder envelope commit (commit_config sv m inp) = (Ok (ack, ch), st)"
  using assms by (auto simp: respond_commit_def Let_def) (metis prod.collapse)

subsection \<open>Properties\<close>

text \<open>
  No replay reaches the protocol. Once an envelope was received, no envelope with its message
  identifier is received before the replay window of the first has passed, whatever other requests
  arrive between them, accepted or refused, and in whatever text the second one is written.
\<close>

theorem server_replay_rejected:
  assumes "server_run E iter sv ((evs @ [Received t inp envelope]) @ mid @ [Received t' inp' envelope']) st"
    and "read_before (message_expiry sv inp) (mid @ [Received t' inp' envelope'])"
  shows "ev_message_id envelope' \<noteq> ev_message_id envelope"
proof
  assume eq: "ev_message_id envelope' = ev_message_id envelope"
  have b: "read_before (message_expiry sv inp) mid" "in_guard_now inp' < message_expiry sv inp"
    using assms(2) by (auto simp: read_before_def)
  have "server_run E iter sv (((evs @ [Received t inp envelope]) @ mid) @ [Received t' inp' envelope']) st"
    using assms(1) by simp
  then show False
  proof cases
    case (received evs0 st0 rq i x e)
    then have "server_run E iter sv ((evs @ [Received t inp envelope]) @ mid) st0" by simp
    from server_run_seen [OF this b(1)] receive_envelope_Ok(4) [OF received(3)] received(1) b(2) eq show False by simp
  qed simp_all
qed

text \<open>
  Whoever gets an answer to a COMMIT was authenticated by this server. Behind every COMMIT that is
  answered, under every interleaving of requests, there is an earlier HELLO of the same run, whose
  envelope and whose COMMIT are both signed by the key of one peer; that HELLO authenticated the
  peer against the server's configuration, the COMMIT proves the peer's key over the nonce the
  server drew for that HELLO and carries a token the peer issued, checked with the revocation
  snapshot of that peer, and the token in the answer is for that peer and within its request.
\<close>

theorem server_commit_authenticated:
  assumes "server_run E iter sv (evs @ [Committed inp envelope (Ok ack)]) st"
  shows "\<exists>hello_inp hello_envelope hello hello_ack commit ch key.
    Received MutualHello hello_inp hello_envelope \<in> set evs \<and> Received MutualCommit inp envelope \<in> set evs \<and>
    Opened hello_inp hello_envelope hello_ack \<in> set evs \<and>
    de_hello E (ev_payload hello_envelope) = Ok hello \<and> de_commit (ev_payload envelope) = Ok commit \<and>
    agent_id (ev_sender hello_envelope) = m_aid (mh_manifest hello) \<and> agent_id (ev_sender envelope) = m_aid (mh_manifest hello) \<and>
    vk_from_aid E (m_aid (mh_manifest hello)) = Ok key \<and>
    verify_envelope_signature E hello_envelope key = Ok () \<and> verify_envelope_signature E envelope key = Ok () \<and>
    fresh_nonce E (in_pop_nonce hello_inp) = Ok (mha_pop_nonce hello_ack) \<and> mca_pop_nonce_echo ack = mh_pop_nonce hello \<and>
    completed_with_hello E hello_envelope hello (hello_config sv hello_inp) (mha_pop_nonce hello_ack) (in_token_id inp)
      commit (commit_config sv (mh_manifest hello) inp) ack ch"
proof -
  from assms obtain st0 session_id sessions responder where run: "server_run E iter sv evs st0"
    and rec: "Received MutualCommit inp envelope \<in> set evs" and ok: "respond_commit E sv responder envelope inp = Ok ack"
    and take: "session_take (sv_session_ttl sv) (ss_sessions st0) session_id (in_table_now inp) (in_sweep_now inp) = (sessions, SessionTaken responder)"
    by cases auto
  obtain e where "(session_id, e) \<in> set (ss_sessions st0)" "se_responder e = responder"
    using session_take_subset(2) [OF take] by blast
  then have "opened_by_hello E sv evs responder" using server_run_sessions [OF run] by blast
  then obtain hi he hack where hrec: "Received MutualHello hi he \<in> set evs" "Opened hi he hack \<in> set evs"
    and hok: "respond_hello E sv he hi = Ok (responder, hack)"
    by (auto simp: opened_by_hello_def)
  obtain hello identity where
      hpay: "open_payload E ''MutualHelloPayload'' MUTUAL_HELLO_PAYLOAD_MEMBERS (de_hello E) he = Ok hello"
    and wf: "wf_aid E (m_aid (mh_manifest hello))"
    and hello: "on_hello E (in_state_id hi) (in_pop_nonce hi) he hello identity (in_ack_id hi) (in_ack_time hi)
        (hello_config sv hi) (sv_requested_grants sv) = Ok (responder, hack)"
    by (rule respond_hello_Ok [OF hok])
  obtain commit ch st' where
      cpay: "open_payload E ''MutualCommitPayload'' MUTUAL_COMMIT_PAYLOAD_MEMBERS de_commit envelope = Ok commit"
    and commit: "on_commit E (in_token_id inp) responder envelope commit (commit_config sv (mh_manifest hello) inp) = (Ok (ack, ch), st')"
    by (rule respond_commit_Ok [OF ok on_hello_peer [OF hello]])
  note done1 = responder_completion [OF wf hello responder_reaches.start commit]
  then have "agent_id (ev_sender he) = m_aid (mh_manifest hello)"
    by (auto simp: completed_with_hello_def authenticated_def)
  with done1 hrec rec hpay cpay show ?thesis
    unfolding open_payload_Ok by (metis sum.inject(2))
qed

text \<open>
  The sender of an envelope is a struct, so the derived deserializer also accepts it as an array of its
  one field. The limit per AID reads the member of an object and finds none, so such a request
  is not counted against the AID.
\<close>

lemma sender_array_not_limited:
  assumes "wf_aid E a"
  shows "de_sender E (JArr [ser_aid a]) = Ok \<lparr>agent_id = a\<rparr>"
    and "raw_sender E (Some (JObj [(''sender'', JArr [ser_aid a])])) = None"
  using assms by (simp_all add: de_sender_def de_struct_def de_void_def de_field_def de_aid_ser raw_sender_def)

end
