(* ===== verification/Transport_Live.thy ===== *)
theory Transport_Live
  imports Facade Transport_Server_Runs Handshake_Live
begin

text \<open>
  The initiator's driver and the server together, over the wire: an honest initiator that talks to an
  honest server ends with a session. What travels between them is the JSON text of signed
  envelopes, through the receive path of the server and the response path of the driver.
\<close>

subsection \<open>The machines, message by message\<close>

text \<open>An envelope with this sender, identifier and time.\<close>

definition from_peer :: "aid \<Rightarrow> uuid \<Rightarrow> timestamp \<Rightarrow> aitp_envelope \<Rightarrow> bool" where
  "from_peer a i t e \<longleftrightarrow> agent_id (ev_sender e) = a \<and> ev_message_id e = i \<and> ev_timestamp e = t"

lemma from_peer_ex: "\<exists>e. from_peer a i t e"
  by (rule exI [of _ "envelope_unsigned a MutualHello JNull i t"]) (simp add: from_peer_def envelope_unsigned_def)

lemma honest_run_staged:
  assumes laws: "b64_laws E" "sig_laws E" "sha_laws E" "uuid_laws E" "sec1_laws E" "jcs_reads E"
    and honest: "honest_peer E cfg\<^sub>I k\<^sub>I s\<^sub>I" "honest_peer E cfg\<^sub>R k\<^sub>R s\<^sub>R" "sk_aid k\<^sub>I \<noteq> sk_aid k\<^sub>R"
    and trust: "trusts E cfg\<^sub>I cfg\<^sub>R" "trusts E cfg\<^sub>R cfg\<^sub>I"
    and grants: "grantable cfg\<^sub>I cfg\<^sub>R req\<^sub>R" "grantable cfg\<^sub>R cfg\<^sub>I req\<^sub>I"
    and clock: "pc_now cfg\<^sub>I = now" "pc_now cfg\<^sub>R = now" "\<bar>sint now\<bar> + 3600 < 2 ^ 53"
      "sint now < sint (m_expires_at (pc_manifest cfg\<^sub>I))" "sint now < sint (m_expires_at (pc_manifest cfg\<^sub>R))"
    and random: "length nonce\<^sub>I = 16" "length nonce\<^sub>R = 16" "is_v4 E jti\<^sub>I" "length jti\<^sub>I = 16" "is_v4 E jti\<^sub>R" "length jti\<^sub>R = 16"
  shows "\<exists>st\<^sub>I hello.
    initiator_start E sid\<^sub>I (Some nonce\<^sub>I) cfg\<^sub>I (PresentPinnedKey s\<^sub>I) (sk_aid k\<^sub>R) i\<^sub>1 t\<^sub>1 req\<^sub>I = Ok (st\<^sub>I, hello) \<and>
    (\<forall>e\<^sub>1. from_peer (sk_aid k\<^sub>I) i\<^sub>1 t\<^sub>1 e\<^sub>1 \<longrightarrow> (\<exists>st\<^sub>R hello_ack.
      on_hello E sid\<^sub>R (Some nonce\<^sub>R) e\<^sub>1 hello (PresentPinnedKey s\<^sub>R) i\<^sub>2 t\<^sub>2 cfg\<^sub>R req\<^sub>R = Ok (st\<^sub>R, hello_ack) \<and>
      (\<forall>e\<^sub>2. from_peer (sk_aid k\<^sub>R) i\<^sub>2 t\<^sub>2 e\<^sub>2 \<longrightarrow> (\<exists>commit st\<^sub>I'.
        on_hello_ack E jti\<^sub>I st\<^sub>I e\<^sub>2 hello_ack cfg\<^sub>I = (Ok commit, st\<^sub>I') \<and>
        (\<forall>e\<^sub>3. agent_id (ev_sender e\<^sub>3) = sk_aid k\<^sub>I \<longrightarrow> (\<exists>commit_ack ch\<^sub>R.
          on_commit E jti\<^sub>R st\<^sub>R e\<^sub>3 commit cfg\<^sub>R = (Ok (commit_ack, ch\<^sub>R), RDone) \<and>
          (\<forall>e\<^sub>4. agent_id (ev_sender e\<^sub>4) = sk_aid k\<^sub>R \<longrightarrow> (\<exists>ch\<^sub>I.
            on_commit_ack E st\<^sub>I' e\<^sub>4 commit_ack cfg\<^sub>I = (Ok ch\<^sub>I, IDone) \<and> ch_effective_grants ch\<^sub>I = granted cfg\<^sub>R req\<^sub>I))))))))"
proof -
  have run: "\<exists>st\<^sub>I hello st\<^sub>R hello_ack commit st\<^sub>I' commit_ack ch\<^sub>R ch\<^sub>I.
      initiator_start E sid\<^sub>I (Some nonce\<^sub>I) cfg\<^sub>I (PresentPinnedKey s\<^sub>I) (sk_aid k\<^sub>R) i\<^sub>1 t\<^sub>1 req\<^sub>I = Ok (st\<^sub>I, hello) \<and>
      on_hello E sid\<^sub>R (Some nonce\<^sub>R) e\<^sub>1 hello (PresentPinnedKey s\<^sub>R) i\<^sub>2 t\<^sub>2 cfg\<^sub>R req\<^sub>R = Ok (st\<^sub>R, hello_ack) \<and>
      on_hello_ack E jti\<^sub>I st\<^sub>I e\<^sub>2 hello_ack cfg\<^sub>I = (Ok commit, st\<^sub>I') \<and>
      on_commit E jti\<^sub>R st\<^sub>R e\<^sub>3 commit cfg\<^sub>R = (Ok (commit_ack, ch\<^sub>R), RDone) \<and>
      on_commit_ack E st\<^sub>I' e\<^sub>4 commit_ack cfg\<^sub>I = (Ok ch\<^sub>I, IDone) \<and>
      ch_effective_grants ch\<^sub>R = granted cfg\<^sub>I req\<^sub>R \<and> ch_effective_grants ch\<^sub>I = granted cfg\<^sub>R req\<^sub>I"
    if e: "from_peer (sk_aid k\<^sub>I) i\<^sub>1 t\<^sub>1 e\<^sub>1" "from_peer (sk_aid k\<^sub>R) i\<^sub>2 t\<^sub>2 e\<^sub>2" "agent_id (ev_sender e\<^sub>3) = sk_aid k\<^sub>I"
      "agent_id (ev_sender e\<^sub>4) = sk_aid k\<^sub>R" for e\<^sub>1 e\<^sub>2 e\<^sub>3 e\<^sub>4
  proof -
    have f: "agent_id (ev_sender e\<^sub>1) = sk_aid k\<^sub>I" "agent_id (ev_sender e\<^sub>2) = sk_aid k\<^sub>R"
      and i: "ev_message_id e\<^sub>1 = i\<^sub>1" "ev_timestamp e\<^sub>1 = t\<^sub>1" "ev_message_id e\<^sub>2 = i\<^sub>2" "ev_timestamp e\<^sub>2 = t\<^sub>2"
      using e by (simp_all add: from_peer_def)
    show ?thesis by (rule honest_run [OF assms f e(3,4), of sid\<^sub>I sid\<^sub>R, unfolded i])
  qed
  obtain d\<^sub>1 where d1: "from_peer (sk_aid k\<^sub>I) i\<^sub>1 t\<^sub>1 d\<^sub>1" using from_peer_ex by blast
  obtain d\<^sub>2 where d2: "from_peer (sk_aid k\<^sub>R) i\<^sub>2 t\<^sub>2 d\<^sub>2" using from_peer_ex by blast
  have d: "agent_id (ev_sender d\<^sub>1) = sk_aid k\<^sub>I" "agent_id (ev_sender d\<^sub>2) = sk_aid k\<^sub>R"
    using d1 d2 by (simp_all add: from_peer_def)
  obtain st\<^sub>I hello where s: "initiator_start E sid\<^sub>I (Some nonce\<^sub>I) cfg\<^sub>I (PresentPinnedKey s\<^sub>I) (sk_aid k\<^sub>R) i\<^sub>1 t\<^sub>1 req\<^sub>I = Ok (st\<^sub>I, hello)"
    using run [OF d1 d2 d] by blast
  let ?fin = "\<lambda>st\<^sub>I' commit_ack e\<^sub>4. \<exists>ch\<^sub>I. on_commit_ack E st\<^sub>I' e\<^sub>4 commit_ack cfg\<^sub>I = (Ok ch\<^sub>I, IDone) \<and>
    ch_effective_grants ch\<^sub>I = granted cfg\<^sub>R req\<^sub>I"
  let ?com = "\<lambda>st\<^sub>R st\<^sub>I' commit e\<^sub>3. \<exists>commit_ack ch\<^sub>R. on_commit E jti\<^sub>R st\<^sub>R e\<^sub>3 commit cfg\<^sub>R = (Ok (commit_ack, ch\<^sub>R), RDone) \<and>
    (\<forall>e\<^sub>4. agent_id (ev_sender e\<^sub>4) = sk_aid k\<^sub>R \<longrightarrow> ?fin st\<^sub>I' commit_ack e\<^sub>4)"
  let ?ack = "\<lambda>st\<^sub>R hello_ack e\<^sub>2. \<exists>commit st\<^sub>I'. on_hello_ack E jti\<^sub>I st\<^sub>I e\<^sub>2 hello_ack cfg\<^sub>I = (Ok commit, st\<^sub>I') \<and>
    (\<forall>e\<^sub>3. agent_id (ev_sender e\<^sub>3) = sk_aid k\<^sub>I \<longrightarrow> ?com st\<^sub>R st\<^sub>I' commit e\<^sub>3)"
  let ?hello = "\<lambda>e\<^sub>1. \<exists>st\<^sub>R hello_ack. on_hello E sid\<^sub>R (Some nonce\<^sub>R) e\<^sub>1 hello (PresentPinnedKey s\<^sub>R) i\<^sub>2 t\<^sub>2 cfg\<^sub>R req\<^sub>R = Ok (st\<^sub>R, hello_ack) \<and>
    (\<forall>e\<^sub>2. from_peer (sk_aid k\<^sub>R) i\<^sub>2 t\<^sub>2 e\<^sub>2 \<longrightarrow> ?ack st\<^sub>R hello_ack e\<^sub>2)"
  have "?hello e\<^sub>1" if e1: "from_peer (sk_aid k\<^sub>I) i\<^sub>1 t\<^sub>1 e\<^sub>1" for e\<^sub>1
  proof -
    obtain st\<^sub>R hello_ack where h: "on_hello E sid\<^sub>R (Some nonce\<^sub>R) e\<^sub>1 hello (PresentPinnedKey s\<^sub>R) i\<^sub>2 t\<^sub>2 cfg\<^sub>R req\<^sub>R = Ok (st\<^sub>R, hello_ack)"
      using run [OF e1 d2 d] s by auto
    have "?ack st\<^sub>R hello_ack e\<^sub>2" if e2: "from_peer (sk_aid k\<^sub>R) i\<^sub>2 t\<^sub>2 e\<^sub>2" for e\<^sub>2
    proof -
      obtain commit st\<^sub>I' where c: "on_hello_ack E jti\<^sub>I st\<^sub>I e\<^sub>2 hello_ack cfg\<^sub>I = (Ok commit, st\<^sub>I')"
        using run [OF e1 e2 d] s h by auto
      have "?com st\<^sub>R st\<^sub>I' commit e\<^sub>3" if e3: "agent_id (ev_sender e\<^sub>3) = sk_aid k\<^sub>I" for e\<^sub>3
      proof -
        obtain commit_ack ch\<^sub>R where k: "on_commit E jti\<^sub>R st\<^sub>R e\<^sub>3 commit cfg\<^sub>R = (Ok (commit_ack, ch\<^sub>R), RDone)"
          using run [OF e1 e2 e3 d(2)] s h c by auto
        have "?fin st\<^sub>I' commit_ack e\<^sub>4" if "agent_id (ev_sender e\<^sub>4) = sk_aid k\<^sub>R" for e\<^sub>4
          using run [OF e1 e2 e3 that] s h c k by auto
        with k show ?thesis by blast
      qed
      with c show ?thesis by blast
    qed
    with h show ?thesis by blast
  qed
  with s show ?thesis by blast
qed

subsection \<open>What may be signed and sent\<close>

definition sendable :: "json \<Rightarrow> bool" where
  "sendable j \<longleftrightarrow> is_JObj j \<and> unique_keys j \<and> json_safe j"

definition sendable_time :: "timestamp \<Rightarrow> bool" where
  "sendable_time t \<longleftrightarrow> 0 \<le> sint t \<and> sint t < 2 ^ 53"

lemma json_safe_leaves [simp]:
  "json_safe (ser_aid a)" "json_safe (ser_strings xs)" "json_safe (ser_v4 E i)" "sendable_time t \<Longrightarrow> json_safe (ser_time t)"
  by (simp_all add: ser_time_def ser_aid_def ser_strings_def ser_v4_def list_all_iff sendable_time_def)

lemma sendable_descriptor: "id_extensions d = None \<Longrightarrow> sendable (ser_descriptor d)"
  by (auto simp: sendable_def ser_descriptor_def descriptor_members_def opt_str_member_def opt_strs_member_def opt_member_def
      split: option.splits)

lemma sendable_hello:
  assumes "id_extensions (mh_identity p) = None" "sendable (ser_manifest (mh_manifest p))" "mh_extensions p = None"
  shows "sendable (ser_hello p)"
  using assms sendable_descriptor [of "mh_identity p"] by (simp add: sendable_def ser_hello_def opt_member_def)

lemma sendable_hello_ack:
  assumes "id_extensions (mha_identity p) = None" "sendable (ser_manifest (mha_manifest p))" "mha_extensions p = None"
  shows "sendable (ser_hello_ack p)"
  using assms sendable_descriptor [of "mha_identity p"] by (simp add: sendable_def ser_hello_ack_def opt_member_def)

lemma sendable_commits:
  "mc_extensions p = None \<Longrightarrow> sendable (ser_commit p)" "mca_extensions q = None \<Longrightarrow> sendable (ser_commit_ack q)"
  by (auto simp: sendable_def ser_commit_def ser_commit_ack_def commit_members_def opt_str_member_def opt_member_def split: option.splits)

lemma pinned_descriptor_plain:
  "build_descriptor E (PresentPinnedKey s) ctx k = Ok d \<Longrightarrow> id_extensions d = None"
  by (auto simp: build_descriptor_def descriptor_pinned_key_def)

text \<open>
  A document inside these bounds can be signed, and the envelope is read back unchanged from its
  JSON form, with a signature that verifies.
\<close>

definition accepted_as :: "externals \<Rightarrow> signing_key \<Rightarrow> message_type \<Rightarrow> json \<Rightarrow> uuid \<Rightarrow> timestamp \<Rightarrow> aitp_envelope \<Rightarrow> bool" where
  "accepted_as E k ty payload i t e \<longleftrightarrow>
     from_peer (sk_aid k) i t e \<and> ev_payload e = payload \<and> ev_message_type e = ty \<and> unique_keys (ser_envelope E e) \<and>
     parse_envelope_wire E (CheckedJson (ser_envelope E e)) = Ok e \<and>
     vk_from_aid E (sk_aid k) = Ok (sk_verifying_key E k) \<and> verify_envelope_signature E e (sk_verifying_key E k) = Ok ()"

lemma sign_envelope_accepted:
  assumes laws: "b64_laws E" "sig_laws E" "sha_laws E" "uuid_laws E" "jcs_reads E" and k: "sk_wf E k"
    and i: "is_v4 E i" "length i = 16" and t: "sendable_time t" and p: "sendable payload"
  shows "\<exists>e. sign_envelope_with E (key_signer E k) ty payload i t = Ok e \<and> accepted_as E k ty payload i t e"
proof -
  let ?u = "envelope_unsigned (sk_aid k) ty payload i t"
  have wf: "wf_envelope E ?u"
    using sk_aid_wf [OF laws(1,2) k] i p by (simp add: wf_envelope_def envelope_unsigned_def sendable_def)
  have "json_safe (envelope_without_signature E ?u)"
    using p t by (simp add: envelope_without_signature_def env_members_def envelope_unsigned_def opt_member_def ser_sender_def sendable_def)
  moreover have "unique_keys (envelope_without_signature E ?u)"
    using unique_keys_env_body [OF wf] by (simp add: envelope_without_signature_def env_body_def)
  ultimately obtain bs where "jcs_to_vec E (envelope_without_signature E ?u) = Some bs"
    using laws(5) unfolding jcs_reads_def jcs_prints_def by blast
  then obtain d where "envelope_digest E (sk_aid k) ?u = Ok d"
    using i p t by (auto simp: envelope_digest_def envelope_unsigned_def check_unsigned_structure_Ok envelope_signing_digest_def
        envelope_signing_input_def canonicalize_def sendable_def sendable_time_def)
  then obtain e where e: "sign_prepared_envelope E (key_signer E k) ?u = Ok e"
    using key_signer_jcs [OF laws(1,2) k] by (simp add: sign_prepared_envelope_def)
  have "\<forall>k'. sg_signing_key (key_signer E k) = Some k' \<longrightarrow> sk_wf E k'" using k by simp
  from sign_prepared_envelope_Ok [OF laws(1-3) this e] obtain sig vk where s: "e = ?u\<lparr>ev_signature := sig_as_str sig\<rparr>"
      "is_signature (sig_as_str sig)" "vk_from_aid E (sk_aid k) = Ok vk" "verify_envelope_signature E e vk = Ok ()"
    unfolding key_signer_simps by blast
  have wf': "wf_envelope E e" using wf by (simp add: s(1) wf_envelope_def)
  have "parse_envelope_wire E (CheckedJson (ser_envelope E e)) = Ok e"
    by (rule parse_ser_envelope [OF laws(4) wf'])
      (use i p t s(2) in \<open>simp_all add: s(1) envelope_unsigned_def check_envelope_structure_Ok sendable_def sendable_time_def\<close>)
  moreover have "unique_keys (ser_envelope E e)"
    using unique_keys_env_body [OF wf'] by (auto simp: ser_envelope_def env_body_def env_members_def opt_member_def split: option.splits)
  ultimately have "accepted_as E k ty payload i t e"
    using s vk_from_sk_aid [OF laws(1,2) k] by (simp add: accepted_as_def from_peer_def envelope_unsigned_def)
  then show ?thesis using e by (auto simp: sign_envelope_with_def)
qed

subsection \<open>The receive path\<close>

text \<open>
  A request that carries an envelope to the server when the server is in state \<open>st\<close>: a body within
  the limit whose text is the envelope, sent as JSON and in time, with a message identifier that is
  not in the replay guard, from a source that is within its limits.
\<close>

definition delivers :: "externals \<Rightarrow> server \<Rightarrow> server_state \<Rightarrow> http_request \<Rightarrow> request_input \<Rightarrow> aitp_envelope \<Rightarrow> bool" where
  "delivers E sv st rq inp e \<longleftrightarrow>
     (\<exists>body. read_body_with_timeout rq = Ok body \<and> checked_from_slice E body = Ok (CheckedJson (ser_envelope E e))) \<and>
     starts_with ''application/json'' (map ascii_lower (case rq_content_type rq of Some t \<Rightarrow> t | None \<Rightarrow> [])) \<and>
     is_within_tolerance_of (ev_timestamp e) (in_received_at inp) DEFAULT_TIMESTAMP_TOLERANCE \<and>
     (\<forall>t. guard_key_seen E st (ev_message_id e) = Some t \<longrightarrow> t \<le> in_guard_now inp) \<and>
     snd (rate_limit_check (sv_rate_limit_config sv) (ss_events st) (in_rate_now inp) (request_source sv rq)
       (raw_sender E (Some (ser_envelope E e)))) = Allow"

lemma delivers_received:
  assumes "delivers E sv st rq inp e" "parse_envelope_wire E (CheckedJson (ser_envelope E e)) = Ok e" "ev_message_type e = ty"
  shows "\<exists>st'. receive_envelope E sv st rq inp ty = (st', Ok e) \<and> ss_sessions st' = ss_sessions st"
proof -
  obtain body where b: "read_body_with_timeout rq = Ok body" "checked_from_slice E body = Ok (CheckedJson (ser_envelope E e))"
    using assms(1) by (auto simp: delivers_def)
  have acc: "accept_envelope E rq (Ok (CheckedJson (ser_envelope E e))) (in_received_at inp) ty = Ok e"
    unfolding accept_envelope_Ok using assms by (auto simp: delivers_def)
  have mid: "raw_message_id E (Some (ser_envelope E e)) = Some (ev_message_id e)"
    using parsed_raw_members(1) [OF assms(2)] by simp
  have fresh: "snd (check_and_record (in_range inp) (ss_seen st) (uuid_hyphenated E (ev_message_id e)) (sv_replay_window sv) (in_guard_now inp))"
    using assms(1) by (auto simp: check_and_record_def Let_def delivers_def map_retain_eq_None)
  have "\<exists>st'. receive_envelope E sv st rq inp ty = (st', Ok e)"
    using b acc mid fresh assms(1)
    by (simp add: receive_envelope_def check_and_record_message_id_def Let_def case_prod_beta delivers_def)
  then show ?thesis using receive_envelope_state [of E sv st rq inp ty] by (metis fst_conv)
qed

subsection \<open>Configurations\<close>

text \<open>Before the last message of each side no token arrives, so the revocation source does not matter.\<close>

lemma bootstrap_revocation:
  "bootstrap_verify_peer E e m d n (cfg\<lparr>pc_revocation := r\<rparr>) = bootstrap_verify_peer E e m d n cfg"
  by (cases "id_kind d") (simp_all add: bootstrap_verify_peer_def)

lemma issue_revocation:
  "issue_tct_for_peer E jti (cfg\<lparr>pc_revocation := r\<rparr>) d a k req = issue_tct_for_peer E jti cfg d a k req"
  by (cases "pc_grant_policy cfg") (simp_all add: issue_tct_for_peer_def policy_grants_def issue_ttl_def peer_tct_builder_def)

lemma revocation_unused:
  "initiator_start E sid rng (cfg\<lparr>pc_revocation := r\<rparr>) = initiator_start E sid rng cfg"
  "on_hello E sid rng e hello identity i t (cfg\<lparr>pc_revocation := r\<rparr>) req = on_hello E sid rng e hello identity i t cfg req"
  "on_hello_ack E jti st e ack (cfg\<lparr>pc_revocation := r\<rparr>) = on_hello_ack E jti st e ack cfg"
  by (simp_all add: fun_eq_iff initiator_start_def on_hello_def on_hello_ack_def apply_peer_policy_def bootstrap_revocation
      issue_revocation cong del: sum.case_cong_weak initiator_state.case_cong_weak if_weak_cong)

lemma initiator_config_revocation:
  "(initiator_peer_config config c now)\<lparr>pc_revocation := Check c'\<rparr> = initiator_peer_config config c' now"
  by (simp add: initiator_peer_config_def with_trust_anchors_def peer_config_new_def Let_def split: trust_mode.split)

lemma server_config_revocation:
  "(peer_config_of sv c now)\<lparr>pc_revocation := Check c'\<rparr> = peer_config_of sv c' now"
  by (simp add: peer_config_of_def with_trust_anchors_def with_identity_verifier_def with_grant_policy_def peer_config_new_def Let_def
      split: option.split)

lemma check_unused:
  "initiator_start E sid rng (initiator_peer_config config c now) = initiator_start E sid rng (initiator_peer_config config c' now)"
  "on_hello E sid rng e hello identity i t (peer_config_of sv c now) req = on_hello E sid rng e hello identity i t (peer_config_of sv c' now) req"
  "on_hello_ack E jti st e ack (initiator_peer_config config c now) = on_hello_ack E jti st e ack (initiator_peer_config config c' now)"
  by (metis revocation_unused initiator_config_revocation server_config_revocation)+

lemma config_fields [simp]:
  "pc_signing_key (peer_config_of sv c now) = sv_signing_key sv" "pc_manifest (peer_config_of sv c now) = sv_manifest sv"
  "pc_signing_key (initiator_peer_config config c now) = ic_signing_key config"
  "pc_manifest (initiator_peer_config config c now) = ic_own_manifest config"
  by (simp_all add: peer_config_of_def initiator_peer_config_def with_trust_anchors_def with_identity_verifier_def with_grant_policy_def
      peer_config_new_def Let_def split: option.split trust_mode.split)

subsection \<open>One exchange\<close>

abbreviation responder_subject :: "server \<Rightarrow> string" where
  "responder_subject sv \<equiv> (case m_display_name (sv_manifest sv) of Some n \<Rightarrow> n | None \<Rightarrow> ''responder'')"

lemma map_of_AList_update: "map_of (AList.update k v al) k = Some v"
  by (simp add: update_conv)

lemma handle_hello_answers:
  assumes d: "delivers E sv st rq inp e" and a: "accepted_as E k MutualHello (ser_hello hello) i t e"
    and de: "de_hello E (ser_hello hello) = Ok hello"
    and on: "on_hello E (in_state_id inp) (in_pop_nonce inp) e hello (PresentPinnedKey (responder_subject sv)) (in_ack_id inp)
      (in_ack_time inp) (hello_config sv inp) (sv_requested_grants sv) = Ok (responder, ack)"
    and sign: "sign_envelope_with E (sv_signing_key sv) MutualHelloAck (ser_hello_ack ack) (in_ack_id inp) (in_ack_time inp) = Ok e'"
  shows "\<exists>st'. handle_hello E iter sv st rq inp = (st', Ok \<lparr>rp_envelope = e', rp_session = Some (in_session_id inp)\<rparr>) \<and>
    map_of (ss_sessions st') (in_session_id inp) = Some \<lparr>se_responder = responder, se_created_at = in_table_now inp\<rparr>"
proof -
  obtain st1 where r: "receive_envelope E sv st rq inp MutualHello = (st1, Ok e)"
    using delivers_received [OF d] a by (auto simp: accepted_as_def)
  have "open_payload E ''MutualHelloPayload'' MUTUAL_HELLO_PAYLOAD_MEMBERS (de_hello E) e = Ok hello"
    using a de by (auto simp: open_payload_Ok accepted_as_def from_peer_def payload_members_allowed)
  then have "respond_hello E sv e inp = Ok (responder, ack)" using on by (simp add: respond_hello_def)
  then show ?thesis using r sign by (simp add: handle_hello_def Let_def session_insert_def map_of_AList_update)
qed

lemma handle_commit_answers:
  assumes d: "delivers E sv st rq inp e" and a: "accepted_as E k MutualCommit (ser_commit commit) i t e" and ext: "mc_extensions commit = None"
    and sid: "Option.bind (rq_session_header rq) (uuid_parse_str E) = Some sid"
    and take: "snd (session_take (sv_session_ttl sv) (ss_sessions st) sid (in_table_now inp) (in_sweep_now inp)) = SessionTaken responder"
    and peer: "responder_peer_aid responder = Some (m_aid m)" "responder_peer_revocation_list_uri responder = manifest_revocation_uri m"
    and on: "on_commit E (in_token_id inp) responder e commit (commit_config sv m inp) = (Ok (ack, ch), RDone)"
    and sign: "sign_envelope_with E (sv_signing_key sv) MutualCommitAck (ser_commit_ack ack) (in_ack_id inp) (in_ack_time inp) = Ok e'"
  shows "\<exists>st'. handle_commit E sv st rq inp = (st', Ok \<lparr>rp_envelope = e', rp_session = None\<rparr>)"
proof -
  obtain st1 where r: "receive_envelope E sv st rq inp MutualCommit = (st1, Ok e)" "ss_sessions st1 = ss_sessions st"
    using delivers_received [OF d] a by (auto simp: accepted_as_def)
  have "open_payload E ''MutualCommitPayload'' MUTUAL_COMMIT_PAYLOAD_MEMBERS de_commit e = Ok commit"
    using a ext by (auto simp: open_payload_Ok accepted_as_def from_peer_def payload_members_allowed de_ser_commits)
  then have "respond_commit E sv responder e inp = Ok ack" using on peer by (simp add: respond_commit_def Let_def)
  then show ?thesis
    using r sid sign take
    by (cases "session_take (sv_session_ttl sv) (ss_sessions st) sid (in_table_now inp) (in_sweep_now inp)")
      (simp add: handle_commit_def Let_def)
qed

lemma receive_hello_ack_continues:
  assumes read: "read_aitp_envelope_response E resp MAX_RESPONSE_BYTES = Ok e"
    and a: "accepted_as E k MutualHelloAck (ser_hello_ack ack) i t e" and de: "de_hello_ack E (ser_hello_ack ack) = Ok ack"
    and on: "on_hello_ack E (ii_token_id inp) st e ack (initiator_peer_config config no_tct_yet (ii_ack_now inp)) = (Ok commit, st')"
    and sign: "sign_envelope_with E (ic_signing_key config) MutualCommit (ser_commit commit) (ii_commit_id inp) (ii_commit_time inp) = Ok e'"
  shows "receive_hello_ack E config inp st resp = Ok (sk_verifying_key E k, st', e')"
proof -
  have "read_payload ''MutualHelloAckPayload'' MUTUAL_HELLO_ACK_PAYLOAD_MEMBERS (de_hello_ack E) e = Ok ack"
    using a de by (simp add: read_payload_Ok accepted_as_def payload_members_allowed)
  then show ?thesis
    using read a on sign by (simp add: receive_hello_ack_def accepted_as_def from_peer_def)
qed

lemma receive_commit_ack_completes:
  assumes read: "read_aitp_envelope_response E resp MAX_RESPONSE_BYTES = Ok e"
    and a: "accepted_as E k MutualCommitAck (ser_commit_ack ack) i t e" and ext: "mca_extensions ack = None"
    and on: "on_commit_ack E st e ack (initiator_peer_config config
      (nw_prepare nw peer (initiator_peer_revocation_list_uri st) (ii_prepare_now inp)) (ii_finish_now inp)) = (Ok ch, IDone)"
  shows "receive_commit_ack E config inp nw peer (sk_verifying_key E k) st resp = Ok ch"
proof -
  have "read_payload ''MutualCommitAckPayload'' MUTUAL_COMMIT_ACK_PAYLOAD_MEMBERS de_commit_ack e = Ok ack"
    using a ext by (simp add: read_payload_Ok accepted_as_def payload_members_allowed de_ser_commits)
  then show ?thesis
    using read a on by (simp add: receive_commit_ack_def accepted_as_def)
qed

subsection \<open>Property\<close>

lemma hello_payload:
  assumes "initiator_start E sid rng cfg (PresentPinnedKey s) peer i t req = Ok (st, hello)" "wf_manifest E (pc_manifest cfg)"
    and "sendable (ser_manifest (pc_manifest cfg))"
  shows "de_hello E (ser_hello hello) = Ok hello" "sendable (ser_hello hello)" "mh_manifest hello = pc_manifest cfg"
proof -
  have h: "id_extensions (mh_identity hello) = None" "mh_manifest hello = pc_manifest cfg" "mh_extensions hello = None"
    using assms(1) pinned_descriptor_plain by (auto simp: initiator_start_def)
  show "de_hello E (ser_hello hello) = Ok hello" by (rule de_ser_hello) (use h assms(2) in simp_all)
  show "sendable (ser_hello hello)" by (rule sendable_hello) (use h assms(3) in simp_all)
  show "mh_manifest hello = pc_manifest cfg" by (rule h)
qed

lemma hello_ack_payload:
  assumes "on_hello E sid rng e hello (PresentPinnedKey s) i t cfg req = Ok (st, ack)" "wf_manifest E (pc_manifest cfg)"
    and "sendable (ser_manifest (pc_manifest cfg))"
  shows "de_hello_ack E (ser_hello_ack ack) = Ok ack" "sendable (ser_hello_ack ack)" "mha_manifest ack = pc_manifest cfg"
proof -
  have h: "id_extensions (mha_identity ack) = None" "mha_manifest ack = pc_manifest cfg" "mha_extensions ack = None"
    using assms(1) pinned_descriptor_plain by (auto simp: on_hello_def)
  show "de_hello_ack E (ser_hello_ack ack) = Ok ack" by (rule de_ser_hello_ack) (use h assms(2) in simp_all)
  show "sendable (ser_hello_ack ack)" by (rule sendable_hello_ack) (use h assms(3) in simp_all)
  show "mha_manifest ack = pc_manifest cfg" by (rule h)
qed

lemma commit_payload:
  assumes "on_hello_ack E jti st e ack cfg = (Ok commit, st')"
  shows "mc_extensions commit = None" "initiator_peer_revocation_list_uri st' = manifest_revocation_uri (mha_manifest ack)"
  using assms by (auto simp: on_hello_ack_def initiator_peer_revocation_list_uri_def split: initiator_state.splits if_splits sum.splits)

text \<open>The COMMIT names the session, and the server still holds it: nobody took it, evicted it or let it expire.\<close>

definition keeps_session ::
  "externals \<Rightarrow> server \<Rightarrow> server_state \<Rightarrow> server_state \<Rightarrow> http_request \<Rightarrow> request_input \<Rightarrow> uuid \<Rightarrow> bool" where
  "keeps_session E sv st st' rq inp sid \<longleftrightarrow>
     Option.bind (rq_session_header rq) (uuid_parse_str E) = Some sid \<and>
     (\<exists>entry. map_of (ss_sessions st) sid = Some entry \<and>
        snd (session_take (sv_session_ttl sv) (ss_sessions st') sid (in_table_now inp) (in_sweep_now inp)) = SessionTaken (se_responder entry))"

text \<open>A network that fetched this Manifest and answers the two requests with these responses.\<close>

definition answering :: "manifest \<Rightarrow> http_response \<Rightarrow> http_response \<Rightarrow> (aid \<Rightarrow> string option \<Rightarrow> timestamp \<Rightarrow> revocation_check) \<Rightarrow> network" where
  "answering m resp resp' prepare =
     \<lparr>nw_fetch = Some m, nw_client = (\<lambda>_. True), nw_hello = (\<lambda>_. Some resp), nw_commit = (\<lambda>_ _. Some resp'), nw_prepare = prepare\<rparr>"

lemma answering_session:
  assumes "send_hello E config inp m = Ok (st, e)" "receive_hello_ack E config inp st resp = Ok (key, st', e')"
    and "receive_commit_ack E config inp (answering m resp resp' prepare) (m_aid m) key st' resp' = Ok ch"
  shows "run_initiator_handshake E config (answering m resp resp' prepare) inp =
    Ok \<lparr>sc_peer_aid = m_aid m, sc_peer_pubkey = key, sc_held_tct = ch_tct ch, sc_grant_voucher = ch_grant_voucher ch,
        sc_effective_grants = ch_effective_grants ch\<rparr>"
  using assms by (simp add: run_initiator_handshake_def answering_def)

end
