(* ===== verification/Spec2Isabelle.thy ===== *)
theory Spec2Isabelle
  imports Delegation_Witness Handshake_Error Admission_Deny_Runs Admission_Witness Transport_Live
begin

text \<open>
  This development verifies the core of the Rust reference implementation of the Agent Identity
  and Trust Protocol (AITP). All paths are below \<open>src/crates/aitp/src\<close>.

  \<^bold>\<open>The program.\<close> An agent is named by an AID, a text that holds its public key. It publishes a
  signed Manifest. Two agents run a mutual handshake of four messages (HELLO, HELLO_ACK, COMMIT,
  COMMIT_ACK), each in a signed envelope: each checks the other's Manifest and identity proof
  (a pinned key or an OIDC token), proves that it holds its key and issues the other a Trust
  Context Token (TCT), a compact JWS that carries grants, with a grant voucher from which the
  holder may delegate one hop further. A service may also admit subjects with single-use
  challenges. Tokens can be revoked through signed snapshots.

  \<^bold>\<open>Theories and sources.\<close>
  \<^item> \<open>Aitp_Prelude\<close>: machine integers as words, \<open>Result\<close> as a sum with \<open>and_then\<close>,
    \<open>map_err\<close>, \<open>ensure\<close>, and string helpers. \<open>Core_Time\<close>: \<open>core/time.rs\<close>.
  \<^item> \<open>Externals\<close>: third-party functions (below). \<open>Ref_Externals\<close>: a concrete instance of them.
  \<^item> \<open>Core_Json\<close>: \<open>core/unknown_field.rs\<close> and derived deserialization. \<open>Core_Aid\<close>:
    \<open>core/base64url.rs\<close>, \<open>core/aid.rs\<close>. \<open>Core_Ids\<close>: \<open>core/ids.rs\<close>. \<open>Core_Error\<close>:
    \<open>core/error.rs\<close>.
  \<^item> \<open>Core_Nonce_Store\<close>, \<open>Core_Nonce_Runs\<close>, \<open>Core_Nonce_Contract\<close>:
    \<open>core/nonce_store.rs\<close>, its sequential operations, the interleavings of its atomic sections,
    and its contract.
  \<^item> \<open>Crypto_Keys\<close>: \<open>crypto/keys.rs\<close>, \<open>crypto/signer.rs\<close>, \<open>crypto/thumbprint.rs\<close>.
    \<open>Crypto_Jws\<close>: \<open>crypto/jws.rs\<close>, \<open>core/jcs.rs\<close>.
  \<^item> \<open>Tct_Types\<close>, \<open>Tct_Verify\<close>, \<open>Tct_Build\<close>, \<open>Tct_Revocation\<close>: \<open>tct/\<close>.
  \<^item> \<open>Manifest_Types\<close>, \<open>Manifest_Verify\<close>, \<open>Manifest_Build\<close>: \<open>manifest/\<close>.
  \<^item> \<open>Envelope\<close>: \<open>core/envelope.rs\<close>, \<open>envelope/mod.rs\<close>.
  \<^item> \<open>Handshake_Jwk\<close>, \<open>Handshake_Pinned\<close>, \<open>Handshake_Oidc\<close>: the identity proofs.
    \<open>Handshake\<close>, \<open>Handshake_Machines\<close>, \<open>Handshake_Live\<close>: \<open>handshake/state_machine.rs\<close>.
    \<open>Handshake_Payloads\<close>: \<open>handshake/payloads.rs\<close>. \<open>Handshake_Error\<close>:
    \<open>handshake/error.rs\<close>.
  \<^item> \<open>Delegation\<close>: \<open>delegation/\<close>.
  \<^item> \<open>Net_Addr\<close>, \<open>Admission_Deny_List\<close>, \<open>Admission_Deny_Runs\<close>, \<open>Admission\<close>:
    \<open>handshake/admission/\<close>.
  \<^item> \<open>Clocked\<close>: monotonic instants and simulations along them. \<open>Transport_Replay\<close>:
    \<open>transport/replay_store.rs\<close>. \<open>Net_Source\<close>: \<open>transport/source_ip.rs\<close>.
    \<open>Transport_Rate_Limit\<close>, \<open>Transport_Sessions\<close>, \<open>Transport_Server\<close>,
    \<open>Transport_Server_Runs\<close>: \<open>transport/server.rs\<close>. \<open>Facade\<close>: \<open>facade.rs\<close>.
    \<open>Transport_Live\<close>: the two together.
  \<^item> The theories \<open>*_Witness\<close> apply the properties to concrete values over the reference instance.

  \<^bold>\<open>How the code is modelled.\<close> A struct is a record and an enum a datatype. A function that returns
  \<open>Result\<close> returns a sum, and \<open>?\<close> is \<open>and_then\<close>, so checks happen in the order of the code.
  Error values keep their variant and what later code reads of them; free text is dropped. A panic
  is a value (\<open>Panic\<close>, \<open>CryptoPanic\<close>, \<open>AdPanic\<close>). Timestamps and counters are words of
  their width and wrap or saturate as the code does. Clock readings and random values are arguments.
  State is passed explicitly; where threads share it (the nonce store, the deny list) there is also
  a step relation whose steps are the sections under one lock or one atomic operation. Derived
  serde code is modelled in full: it accepts an array in field order for a struct, and rejects
  repeated and, where the attribute says so, unknown members. A Rust string is the list of its
  UTF-8 bytes. A variant of a function that only awaits its signing backend is the same function.

  \<^bold>\<open>Third-party code\<close> is the record \<open>externals\<close>: base64ct, sha2, ed25519-dalek, p256, ring, p521,
  uuid, url, serde_json's tokenizer and serde_jcs' printer. A theorem names what it needs of them:
  \<open>b64_laws\<close> (decoding inverts encoding), \<open>sig_laws\<close> (a signature made with a key verifies
  under it), \<open>sha_laws\<close> (the digest length), \<open>uuid_laws\<close>, \<open>sec1_laws\<close>, \<open>header_parses\<close>,
  \<open>jcs_prints\<close> and \<open>jcs_reads\<close> (a canonical text exists and parses to the sorted document),
  \<open>jcs_faithful\<close> (equal canonical texts come from equal documents). Nothing is assumed about
  forgery or collisions: a safety theorem says which signature verified, over which bytes. The
  reference instance satisfies these laws and discharges them in the witnesses.

  \<^bold>\<open>Interfaces\<close> are locales, each interpreted on the code's own model: \<open>nonce_store_contract\<close> (by
  the in-memory store), \<open>manifest_source\<close> and \<open>published\<close> (Manifest resolution),
  \<open>one_shot_machine\<close> (initiator and responder), \<open>clocked_simulation\<close> (state that answers calls
  like a specification while time goes on: the replay guard, the rate limiter, and through
  \<open>deny_list_contract\<close>, which extends it, the in-memory deny list), \<open>admission_store\<close>
  (admission over any store that keeps the nonce contract).

  \<^bold>\<open>What is shown.\<close>
  \<^item> Verifiers accept exactly what the protocol asks for: \<open>verify_tct\<close>, \<open>verify_manifest\<close>,
    \<open>verify_pinned_key\<close>, \<open>verify_oidc\<close>, \<open>verify_delegation\<close>, \<open>admit\<close>; each as an
    equivalence over the integers, with the value returned.
  \<^item> What the builders issue is accepted: tokens, vouchers, Manifests, delegations, envelopes,
    snapshots, proofs of possession, for every signing backend.
  \<^item> The handshake: whoever completes has authenticated the peer it meant to reach, completes at
    most once, and issues within request, offer, policy, one hour and its Manifest; two honest
    peers always complete.
  \<^item> Nonces and message identifiers are single-use under every interleaving, the nonce store never
    exceeds its capacity, the deny list by less than its number of shards.
  \<^item> Admission consumes a challenge only for a verified presentation, admits once per challenge,
    and admits an honest subject.
  \<^item> Delegated authority stays within the voucher; effective grants within the signed ones.
  \<^item> Signing inputs determine what they sign.
  \<^item> The server: the replay guard and the rate limiter answer like their specifications over the
    whole history, no client chooses the source it is counted under, and the table of handshakes in
    progress is bounded and single-use.

  \<^bold>\<open>Bounds and fuel.\<close> No function of the model has fuel. Loops recurse over the data, or over a measure
  that is proved to decrease. Only the JSON decoder of the reference instance is bounded, by the
  length of its text, which \<open>dec_enc_json\<close> shows to be enough.

  \<^bold>\<open>Not modelled.\<close> The token buckets of \<open>handshake/admission/rate_limit.rs\<close> count in floating
  point and are an argument of admission. The HTTP client (\<open>transport/client.rs\<close> and what it
  uses), the routers of the server, the facade over them, the command line tool, the conformance
  runner, the language bindings and the minting tools are I/O around the code above. The
  experimental crate (multi-hop delegation, session bundles, renewal, SPIFFE) is outside the
  stable protocol.
\<close>

end
